theory Spec2Isabelle
  imports Main
begin

section \<open>Values, commands, events and errors\<close>

text \<open>
  Plain JavaScript values as they occur in command payloads and room fields. A room is
  an \<^verbatim>\<open>Immutable.Map\<close>: a finite mapping from field names to values, compared by
  content. \<^verbatim>\<open>room.get(k)\<close> yields \<^verbatim>\<open>undefined\<close> for an absent key.
\<close>

datatype jsval =
    JUndefined
  | JNull
  | JBool bool
  | JNum int
  | JStr string
  | JObj "(string \<times> jsval) list"

type_synonym room = "string \<rightharpoonup> jsval"

definition Map_get :: "room \<Rightarrow> string \<Rightarrow> jsval" where
  "Map_get m k = (case m k of None \<Rightarrow> JUndefined | Some v \<Rightarrow> v)"

definition Map_set :: "room \<Rightarrow> string \<Rightarrow> jsval \<Rightarrow> room" where
  "Map_set m k v = m(k \<mapsto> v)"

text \<open>
  Property access \<^verbatim>\<open>obj.key\<close> on a plain object, for a key that is a data property
  or absent (the first binding wins); the keys read below, \<^verbatim>\<open>userId\<close>,
  \<^verbatim>\<open>roomId\<close>, \<^verbatim>\<open>username\<close>, \<^verbatim>\<open>stack\<close> and \<^verbatim>\<open>message\<close>, name nothing that
  a value inherits. Numbers, booleans and strings have no such property.
\<close>

fun getProp :: "jsval \<Rightarrow> string \<Rightarrow> jsval" where
  "getProp (JObj kvs) k = (case map_of kvs k of None \<Rightarrow> JUndefined | Some v \<Rightarrow> v)"
| "getProp _ k = JUndefined"

text \<open>
  String concatenation \<^verbatim>\<open>'...' + x\<close> with a value that is a string or
  \<^verbatim>\<open>undefined\<close>.
\<close>

definition str_of :: "string option \<Rightarrow> string" where
  "str_of x = (case x of None \<Rightarrow> ''undefined'' | Some s \<Rightarrow> s)"

definition val_of :: "string option \<Rightarrow> jsval" where
  "val_of x = (case x of None \<Rightarrow> JUndefined | Some s \<Rightarrow> JStr s)"

record command =
  c_id :: string
  c_name :: string
  c_roomId :: "string option"
  c_payload :: jsval

record event =
  evt_id :: string
  evt_userId :: "string option"
  evt_correlationId :: string
  evt_name :: string
  evt_roomId :: jsval
  evt_payload :: jsval

text \<open>
  An error object has a name, a message and a stack. The stack of an error made by
  \<^verbatim>\<open>new Error(msg)\<close> is cut down to its first line, \<^verbatim>\<open>Error: msg\<close>, or
  \<^verbatim>\<open>Error\<close> alone when the message is empty; the frames below it are not modelled.
  What a function throws, or a promise rejects with, is any value: an error object, or a
  plain value, \<^verbatim>\<open>null\<close> and \<^verbatim>\<open>undefined\<close> among them.
\<close>

record errorObject =
  err_name :: string
  err_message :: string
  err_stack :: jsval

datatype thrown = Exception errorObject | Value jsval

definition firstLine :: "string \<Rightarrow> string \<Rightarrow> string" where
  "firstLine name msg = (if msg = [] then name else name @ '': '' @ msg)"

definition Error :: "string \<Rightarrow> thrown" where
  "Error msg =
     Exception \<lparr>err_name = ''Error'', err_message = msg,
                err_stack = JStr (firstLine ''Error'' msg)\<rparr>"

definition TypeError :: "string \<Rightarrow> thrown" where
  "TypeError msg =
     Exception \<lparr>err_name = ''TypeError'', err_message = msg,
                err_stack = JStr (firstLine ''TypeError'' msg)\<rparr>"

text \<open>
  Member access \<^verbatim>\<open>x.key\<close>: a TypeError on \<^verbatim>\<open>undefined\<close> and \<^verbatim>\<open>null\<close>, the
  property's value or \<^verbatim>\<open>undefined\<close> on every other value. Of a thrown value the
  pipeline reads \<^verbatim>\<open>stack\<close> and \<^verbatim>\<open>message\<close> only (\<^verbatim>\<open>member_of_thrown\<close>).
\<close>

fun member_of :: "jsval \<Rightarrow> string \<Rightarrow> thrown + jsval" where
  "member_of JUndefined k =
     Inl (TypeError (''Cannot read property '' @ CHR 0x27 # k @ CHR 0x27 # '' of undefined''))"
| "member_of JNull k =
     Inl (TypeError (''Cannot read property '' @ CHR 0x27 # k @ CHR 0x27 # '' of null''))"
| "member_of v k = Inr (getProp v k)"

definition member_of_thrown :: "thrown \<Rightarrow> string \<Rightarrow> thrown + jsval" where
  "member_of_thrown err k =
     (case err of
        Value v \<Rightarrow> member_of v k
      | Exception e \<Rightarrow>
          Inr (if k = ''stack'' then err_stack e
               else if k = ''message'' then JStr (err_message e)
               else if k = ''name'' then JStr (err_name e)
               else JUndefined))"

text \<open>
  The string a value becomes in \<^verbatim>\<open>'...' + x\<close>. Numbers are integers here, of absolute
  value below \<open>10\<^sup>2\<^sup>1\<close>: these print as their decimal digits. A plain object prints as
  \<^verbatim>\<open>[object Object]\<close> through the \<^verbatim>\<open>toString\<close> it inherits; an own property
  \<^verbatim>\<open>toString\<close>, which is data and cannot be called, leaves no way to a primitive, a
  TypeError.
\<close>

fun digits :: "nat \<Rightarrow> string" where
  "digits n =
     (if n < 10 then [''0123456789'' ! n]
      else digits (n div 10) @ [''0123456789'' ! (n mod 10)])"

declare digits.simps [simp del]

fun toString :: "jsval \<Rightarrow> thrown + string" where
  "toString JUndefined = Inr ''undefined''"
| "toString JNull = Inr ''null''"
| "toString (JBool b) = Inr (if b then ''true'' else ''false'')"
| "toString (JNum n) = Inr (if n < 0 then CHR ''-'' # digits (nat (- n)) else digits (nat n))"
| "toString (JStr s) = Inr s"
| "toString (JObj kvs) =
     (if ''toString'' \<in> fst ` set kvs
      then Inl (TypeError ''Cannot convert object to primitive value'')
      else Inr ''[object Object]'')"

text \<open>
  \<^verbatim>\<open>function PreconditionError(err, cmd)\<close>, called with \<^verbatim>\<open>new\<close>: it reads
  \<^verbatim>\<open>err.stack\<close>, names itself after its constructor, and prefixes what
  \<^verbatim>\<open>err.message\<close> is as a string with the command's name. The result is the error
  object made (\<open>Inr\<close>), or what the constructor throws on the way (\<open>Inl\<close>): reading a
  property of \<^verbatim>\<open>null\<close> or \<^verbatim>\<open>undefined\<close> is a TypeError.
\<close>

definition PreconditionError :: "thrown \<Rightarrow> command \<Rightarrow> thrown + errorObject" where
  "PreconditionError err cmd =
     (case member_of_thrown err ''stack'' of
        Inl e \<Rightarrow> Inl e
      | Inr stack \<Rightarrow>
          (case member_of_thrown err ''message'' of
             Inl e \<Rightarrow> Inl e
           | Inr message \<Rightarrow>
               (case toString message of
                  Inl e \<Rightarrow> Inl e
                | Inr s \<Rightarrow>
                    Inr \<lparr>err_name = ''PreconditionError'',
                         err_message =
                           ''Precondition Error during \"'' @ c_name cmd @ ''\": '' @ s,
                         err_stack = stack\<rparr>)))"

text \<open>\<^verbatim>\<open>throw new PreconditionError(err, cmd)\<close>: what leaves the statement.\<close>

definition throw_new_PreconditionError :: "thrown \<Rightarrow> command \<Rightarrow> thrown" where
  "throw_new_PreconditionError err cmd =
     (case PreconditionError err cmd of Inl e \<Rightarrow> e | Inr pe \<Rightarrow> Exception pe)"

section \<open>Handlers, store and the world\<close>

text \<open>
  What an event handler returns is meant to be the updated room, an
  \<^verbatim>\<open>Immutable.Map\<close>; it can be any other value. An event handler is called with
  whatever \<^verbatim>\<open>ctx.room\<close> holds, a room or \<^verbatim>\<open>undefined\<close>, and returns or throws.
\<close>

datatype returned = Room room | NotRoom jsval

type_synonym eventHandler = "room option \<Rightarrow> jsval \<Rightarrow> thrown + returned"

text \<open>
  The handler function \<^verbatim>\<open>fn(room, command)\<close> can do one thing to the pipeline: call
  \<^verbatim>\<open>room.applyEvent(name, payload)\<close>, which returns nothing or throws. So, for a room
  and a command, \<^verbatim>\<open>fn\<close> is the course it takes: it returns, or throws, or calls
  \<^verbatim>\<open>applyEvent\<close> and goes on when the call has returned: outside of any \<^verbatim>\<open>try\<close>
  an exception of the call leaves \<^verbatim>\<open>fn\<close> (\<open>ApplyEvent\<close>); inside
  \<^verbatim>\<open>try { ... } catch (e) { ... }\<close> the function goes on with what it caught
  (\<open>TryApplyEvent\<close>).
\<close>

datatype program =
    Return
  | Throw thrown
  | ApplyEvent string jsval program
  | TryApplyEvent string jsval program "thrown \<Rightarrow> program"

text \<open>
  A command handler (compare \<^verbatim>\<open>setUsername\<close>): the flag \<^verbatim>\<open>existingRoom\<close>, an
  optional \<^verbatim>\<open>preCondition(room, command, userId)\<close> that returns or throws a value,
  and \<^verbatim>\<open>fn\<close>. The precondition receives whatever \<^verbatim>\<open>ctx.room\<close> holds.
\<close>

record handler =
  existingRoom :: bool
  preCondition :: "(room option \<Rightarrow> command \<Rightarrow> string option \<Rightarrow> thrown option) option"
  fn :: "room \<Rightarrow> command \<Rightarrow> program"

text \<open>
  What a pipeline run does to its surroundings, in order: the calls it makes to the
  store, to the handler and to the event handlers.
\<close>

datatype effect =
    GetRoomById "string option"
  | SaveRoom room
  | CallPreCondition "room option" command "string option"
  | CallFn room command
  | CallEventHandler string "room option" jsval

text \<open>
  The world outside one pipeline run: the state of the store, the number of ids drawn
  from \<^verbatim>\<open>uuid()\<close> and the number of times the clock was read so far, and the
  trace of effects.
\<close>

record 's world =
  store :: 's
  uuidCalls :: nat
  getTimeCalls :: nat
  trace :: "effect list"

text \<open>
  The arguments of \<^verbatim>\<open>commandProcessorFactory\<close> and the modules it requires. The two
  registries are used by lookup only: \<^verbatim>\<open>commandHandlers env name\<close> and
  \<^verbatim>\<open>eventHandlers env name\<close> are what \<^verbatim>\<open>commandHandlers[name]\<close> and
  \<^verbatim>\<open>eventHandlers[name]\<close> find, \<open>None\<close> when that is nothing truthy. The store
  is used through its interface only: \<^verbatim>\<open>getRoomById\<close> reads, \<^verbatim>\<open>saveRoom\<close> yields the
  next store state, and either may fail (a rejected promise). \<^verbatim>\<open>uuid n\<close> is the id
  returned by the \<open>n\<close>-th call of \<^verbatim>\<open>uuid()\<close>, \<^verbatim>\<open>getTime n\<close> the value of the
  \<open>n\<close>-th \<^verbatim>\<open>new Date().getTime()\<close>, counting from 0.
\<close>

record 's env =
  commandHandlers :: "string \<rightharpoonup> handler"
  eventHandlers :: "string \<rightharpoonup> eventHandler"
  commandSchemaValidator :: "command \<Rightarrow> thrown option"
  getRoomById :: "'s \<Rightarrow> string option \<Rightarrow> thrown + room option"
  saveRoom :: "'s \<Rightarrow> room \<Rightarrow> thrown + 's"
  uuid :: "nat \<Rightarrow> string"
  getTime :: "nat \<Rightarrow> int"

text \<open>
  A deferred application step, pushed by \<^verbatim>\<open>applyEvent\<close>: the closure's captured event
  name, event handler and payload.
\<close>

record deferred =
  d_eventName :: string
  d_eventHandler :: eventHandler
  d_eventPayload :: jsval

text \<open>
  The job's context object. It starts as \<^verbatim>\<open>{userId}\<close>; the stages fill in the rest.
\<close>

record "context" =
  userId :: "string option"
  handler :: "handler option"
  room :: "room option"
  eventHandlingQueue :: "deferred list"
  eventsToSend :: "event list"

record job =
  j_command :: command
  j_userId :: "string option"

section \<open>Promises\<close>

text \<open>
  A function call either throws (\<open>Inl\<close>) or returns (\<open>Inr\<close>), and changes the world.
  A promise is represented by how it settles. \<^verbatim>\<open>new Promise(executor)\<close> catches what
  the executor throws and rejects with it. \<^verbatim>\<open>p.then(cb)\<close> skips \<^verbatim>\<open>cb\<close> when
  \<^verbatim>\<open>p\<close> is rejected, and rejects with what \<^verbatim>\<open>cb\<close> throws; when \<^verbatim>\<open>cb\<close> returns a
  promise, that promise is adopted.
\<close>

datatype 'a promise = Fulfilled 'a | Rejected thrown

definition new_Promise :: "('w \<Rightarrow> (thrown + 'a) \<times> 'w) \<Rightarrow> 'w \<Rightarrow> 'a promise \<times> 'w" where
  "new_Promise executor w =
     (case executor w of
        (Inl e, w') \<Rightarrow> (Rejected e, w')
      | (Inr v, w') \<Rightarrow> (Fulfilled v, w'))"

definition then_call ::
  "('w \<Rightarrow> 'a promise \<times> 'w) \<Rightarrow> ('a \<Rightarrow> 'w \<Rightarrow> (thrown + 'b) \<times> 'w) \<Rightarrow> 'w \<Rightarrow> 'b promise \<times> 'w" where
  "then_call p cb w =
     (case p w of
        (Rejected e, w') \<Rightarrow> (Rejected e, w')
      | (Fulfilled v, w') \<Rightarrow>
          (case cb v w' of
             (Inl e, w'') \<Rightarrow> (Rejected e, w'')
           | (Inr x, w'') \<Rightarrow> (Fulfilled x, w'')))"

definition then_promise ::
  "('w \<Rightarrow> 'a promise \<times> 'w) \<Rightarrow> ('a \<Rightarrow> 'w \<Rightarrow> 'b promise \<times> 'w) \<Rightarrow> 'w \<Rightarrow> 'b promise \<times> 'w" where
  "then_promise p cb w =
     (case p w of
        (Rejected e, w') \<Rightarrow> (Rejected e, w')
      | (Fulfilled v, w') \<Rightarrow> cb v w')"

definition add_effect :: "effect \<Rightarrow> 's world \<Rightarrow> 's world" where
  "add_effect x w = w\<lparr>trace := trace w @ [x]\<rparr>"

section \<open>The seven stages\<close>

text \<open>1. \<^verbatim>\<open>validate\<close>: the validator runs inside the executor of a new promise.\<close>

definition validate :: "'s env \<Rightarrow> command \<Rightarrow> 's world \<Rightarrow> unit promise \<times> 's world" where
  "validate env cmd =
     new_Promise (\<lambda>w. (case commandSchemaValidator env cmd of
                          Some e \<Rightarrow> Inl e
                        | None \<Rightarrow> Inr (), w))"

text \<open>2. \<^verbatim>\<open>getCommandHandler\<close>\<close>

definition getCommandHandler ::
  "'s env \<Rightarrow> context \<Rightarrow> command \<Rightarrow> 's world \<Rightarrow> (thrown + context) \<times> 's world" where
  "getCommandHandler env ctx cmd w =
     (case commandHandlers env (c_name cmd) of
        None \<Rightarrow> (Inl (Error (''No handler found for '' @ c_name cmd)), w)
      | Some h \<Rightarrow> (Inr (ctx\<lparr>handler := Some h\<rparr>), w))"

text \<open>
  3. \<^verbatim>\<open>loadRoom\<close>: \<^verbatim>\<open>ctx.handler.existingRoom\<close> is read only when no room came back
  (\<^verbatim>\<open>!room && ...\<close>); on an undefined handler that read is a TypeError.
\<close>

definition loadRoom ::
  "'s env \<Rightarrow> context \<Rightarrow> command \<Rightarrow> 's world \<Rightarrow> context promise \<times> 's world" where
  "loadRoom env ctx cmd =
     then_call (\<lambda>w. (case getRoomById env (store w) (c_roomId cmd) of
                   Inl e \<Rightarrow> Rejected e
                 | Inr r \<Rightarrow> Fulfilled r,
                 add_effect (GetRoomById (c_roomId cmd)) w))
       (\<lambda>loaded w.
          (case loaded of
             Some r \<Rightarrow> Inr (ctx\<lparr>room := Some r\<rparr>)
           | None \<Rightarrow>
               (case handler ctx of
                  None \<Rightarrow> Inl (TypeError ''Cannot read property 'existingRoom' of undefined'')
                | Some h \<Rightarrow>
                    if existingRoom h
                    then Inl (Error (''Command \"'' @ c_name cmd
                           @ ''\" only want's to get handled for an existing room. (''
                           @ str_of (c_roomId cmd) @ '')''))
                    else Inr (ctx\<lparr>room := Some Map.empty\<rparr>)),
           w))"

text \<open>4. \<^verbatim>\<open>preConditions\<close>\<close>

definition preConditions ::
  "context \<Rightarrow> command \<Rightarrow> 's world \<Rightarrow> (thrown + context) \<times> 's world" where
  "preConditions ctx cmd w =
     (case handler ctx of
        None \<Rightarrow> (Inl (TypeError ''Cannot read property 'preCondition' of undefined''), w)
      | Some h \<Rightarrow>
          (case preCondition h of
             None \<Rightarrow> (Inr ctx, w)
           | Some pc \<Rightarrow>
               (case pc (room ctx) cmd (userId ctx) of
                  Some pcError \<Rightarrow> Inl (throw_new_PreconditionError pcError cmd)
                | None \<Rightarrow> Inr ctx,
                add_effect (CallPreCondition (room ctx) cmd (userId ctx)) w)))"

text \<open>
  5. \<^verbatim>\<open>handle\<close>. \<^verbatim>\<open>applyEvent\<close> looks the event handler up in \<^verbatim>\<open>eventHandlers\<close>
  and throws when it finds nothing (nothing truthy), else pushes the deferred step onto
  the queue. \<^verbatim>\<open>execute\<close> is the call \<^verbatim>\<open>ctx.handler.fn(ctx.room, cmd)\<close>: it takes
  the function's course, with \<^verbatim>\<open>applyEvent\<close> working on the queue, and ends with the
  queue or with what the function throws.
\<close>

definition applyEvent ::
  "'s env \<Rightarrow> string \<Rightarrow> jsval \<Rightarrow> deferred list \<Rightarrow> thrown + deferred list" where
  "applyEvent env eventName eventPayload q =
     (case eventHandlers env eventName of
        None \<Rightarrow> Inl (Error (''Cannot apply unknown event '' @ eventName))
      | Some eventHandler \<Rightarrow>
          Inr (q @ [\<lparr>d_eventName = eventName, d_eventHandler = eventHandler,
                     d_eventPayload = eventPayload\<rparr>]))"

primrec execute :: "'s env \<Rightarrow> program \<Rightarrow> deferred list \<Rightarrow> thrown + deferred list" where
  "execute env Return q = Inr q"
| "execute env (Throw e) q = Inl e"
| "execute env (ApplyEvent eventName eventPayload rest) q =
     (case applyEvent env eventName eventPayload q of
        Inl e \<Rightarrow> Inl e
      | Inr q' \<Rightarrow> execute env rest q')"
| "execute env (TryApplyEvent eventName eventPayload rest onError) q =
     (case applyEvent env eventName eventPayload q of
        Inl e \<Rightarrow> execute env (onError e) q
      | Inr q' \<Rightarrow> execute env rest q')"

definition handle ::
  "'s env \<Rightarrow> context \<Rightarrow> command \<Rightarrow> 's world \<Rightarrow> (thrown + context) \<times> 's world" where
  "handle env ctx cmd w =
     (case room ctx of
        None \<Rightarrow> (Inl (TypeError ''Cannot set property 'applyEvent' of undefined''), w)
      | Some r \<Rightarrow>
          (case handler ctx of
             None \<Rightarrow> (Inl (TypeError ''Cannot read property 'fn' of undefined''), w)
           | Some h \<Rightarrow>
               (case execute env (fn h r cmd) [] of
                  Inl e \<Rightarrow> Inl e
                | Inr q \<Rightarrow> Inr (ctx\<lparr>eventHandlingQueue := q, eventsToSend := []\<rparr>),
                add_effect (CallFn r cmd) w)))"

text \<open>
  6. \<^verbatim>\<open>applyEvents\<close>. One deferred step: the event handler runs on the current room,
  then the event object is built, with a fresh id and the id of the updated room, and
  pushed; the updated room becomes \<^verbatim>\<open>ctx.room\<close>. The object literal calls
  \<^verbatim>\<open>uuid()\<close> before it reads \<^verbatim>\<open>updatedRoom.get('id')\<close>, which is a TypeError when
  the event handler returned something else than a room.
\<close>

definition evtHandler ::
  "'s env \<Rightarrow> command \<Rightarrow> deferred \<Rightarrow> context \<Rightarrow> 's world \<Rightarrow> (thrown + context) \<times> 's world" where
  "evtHandler env cmd d ctx w =
     (let w1 = add_effect (CallEventHandler (d_eventName d) (room ctx) (d_eventPayload d)) w in
      case d_eventHandler d (room ctx) (d_eventPayload d) of
        Inl e \<Rightarrow> (Inl e, w1)
      | Inr (NotRoom v) \<Rightarrow>
          (Inl (TypeError
                  (if v = JUndefined then ''Cannot read property 'get' of undefined''
                   else if v = JNull then ''Cannot read property 'get' of null''
                   else ''updatedRoom.get is not a function'')),
           w1\<lparr>uuidCalls := Suc (uuidCalls w1)\<rparr>)
      | Inr (Room updatedRoom) \<Rightarrow>
          (Inr (ctx\<lparr>eventsToSend := eventsToSend ctx @
                     [\<lparr>evt_id = uuid env (uuidCalls w1),
                       evt_userId = userId ctx,
                       evt_correlationId = c_id cmd,
                       evt_name = d_eventName d,
                       evt_roomId = Map_get updatedRoom ''id'',
                       evt_payload = d_eventPayload d\<rparr>],
                   room := Some updatedRoom\<rparr>),
           w1\<lparr>uuidCalls := Suc (uuidCalls w1)\<rparr>))"

fun forEach ::
  "'s env \<Rightarrow> command \<Rightarrow> deferred list \<Rightarrow> context \<Rightarrow> 's world \<Rightarrow> (thrown + context) \<times> 's world" where
  "forEach env cmd [] ctx w = (Inr ctx, w)"
| "forEach env cmd (d # ds) ctx w =
     (case evtHandler env cmd d ctx w of
        (Inl e, w') \<Rightarrow> (Inl e, w')
      | (Inr ctx', w') \<Rightarrow> forEach env cmd ds ctx' w')"

definition applyEvents ::
  "'s env \<Rightarrow> context \<Rightarrow> command \<Rightarrow> 's world \<Rightarrow> (thrown + context) \<times> 's world" where
  "applyEvents env ctx cmd = forEach env cmd (eventHandlingQueue ctx) ctx"

text \<open>
  7. \<^verbatim>\<open>saveRoomBackToStore\<close>. It is the callback of a \<^verbatim>\<open>then\<close>: on an undefined
  room \<^verbatim>\<open>ctx.room.set\<close> throws and the chain rejects before the store is called.
  Otherwise the room is stamped and \<^verbatim>\<open>store.saveRoom\<close> is called with it
  (\<^verbatim>\<open>stampRoom\<close>); the promise the store returns settles when the store has answered
  (\<^verbatim>\<open>saveRoomSettles\<close>).
\<close>

definition stampRoom ::
  "'s env \<Rightarrow> context \<Rightarrow> 's world \<Rightarrow> (thrown + context \<times> room) \<times> 's world" where
  "stampRoom env ctx w =
     (case room ctx of
        None \<Rightarrow> (Inl (TypeError ''Cannot read property 'set' of undefined''), w)
      | Some r \<Rightarrow>
          (let r' = Map_set r ''lastActivity'' (JNum (getTime env (getTimeCalls w)))
           in (Inr (ctx\<lparr>room := Some r'\<rparr>, r'),
               add_effect (SaveRoom r') (w\<lparr>getTimeCalls := Suc (getTimeCalls w)\<rparr>))))"

definition saveRoomSettles ::
  "'s env \<Rightarrow> context \<times> room \<Rightarrow> 's world \<Rightarrow> context promise \<times> 's world" where
  "saveRoomSettles env cr w =
     (case saveRoom env (store w) (snd cr) of
        Inl e \<Rightarrow> (Rejected e, w)
      | Inr s' \<Rightarrow> (Fulfilled (fst cr), w\<lparr>store := s'\<rparr>))"

definition saveRoomBackToStore ::
  "'s env \<Rightarrow> context \<Rightarrow> 's world \<Rightarrow> context promise \<times> 's world" where
  "saveRoomBackToStore env ctx w =
     (case stampRoom env ctx w of
        (Inl e, w') \<Rightarrow> (Rejected e, w')
      | (Inr cr, w') \<Rightarrow> saveRoomSettles env cr w')"

section \<open>The job handler and processCommand\<close>

definition initialContext :: "job \<Rightarrow> context" where
  "initialContext job =
     \<lparr>userId = j_userId job, handler = None, room = None,
      eventHandlingQueue = [], eventsToSend = []\<rparr>"

text \<open>
  The promise chain of \<^verbatim>\<open>queue.setJobHandler\<close>. Its last two links call
  \<^verbatim>\<open>nextJob\<close> and settle the job: \<^verbatim>\<open>job.resolve(context.eventsToSend)\<close> after the
  seven stages, \<^verbatim>\<open>job.reject(err)\<close> from the \<^verbatim>\<open>catch\<close>. The result is that
  settlement.
\<close>

definition jobHandler ::
  "'s env \<Rightarrow> job \<Rightarrow> 's world \<Rightarrow> event list promise \<times> 's world" where
  "jobHandler env job =
     (let command = j_command job;
          context = initialContext job
      in then_call
           (then_promise
             (then_call
               (then_call
                 (then_call
                   (then_promise
                     (then_call (validate env command)
                        (\<lambda>_. getCommandHandler env context command))
                     (\<lambda>ctx. loadRoom env ctx command))
                   (\<lambda>ctx. preConditions ctx command))
                 (\<lambda>ctx. handle env ctx command))
               (\<lambda>ctx. applyEvents env ctx command))
             (\<lambda>ctx. saveRoomBackToStore env ctx))
           (\<lambda>ctx w. (Inr (eventsToSend ctx), w)))"

text \<open>
  \<^verbatim>\<open>processCommand\<close> returns \<^verbatim>\<open>new Promise((resolve, reject) => queue.push(...))\<close>.
  On an idle queue the pushed job is handled next; the returned promise settles as the
  job does. The result is \<open>Inl\<close> if the call throws, \<open>Inr\<close> the promise otherwise.
\<close>

definition processCommand ::
  "'s env \<Rightarrow> command \<Rightarrow> string option \<Rightarrow> 's world
     \<Rightarrow> (thrown + event list promise) \<times> 's world" where
  "processCommand env command uid w =
     (case new_Promise
             (\<lambda>w. case jobHandler env \<lparr>j_command = command, j_userId = uid\<rparr> w of
                    (p, w') \<Rightarrow> (Inr p, w')) w of
        (Rejected e, w') \<Rightarrow> (Inr (Rejected e), w')
      | (Fulfilled p, w') \<Rightarrow> (Inr p, w'))"

text \<open>
  The effects a run has added to the trace, and the prefixes of the job handler's chain:
  the promise after stage 2, 3, 4, 5 and 6.
\<close>

definition newEffects :: "'s world \<Rightarrow> 's world \<Rightarrow> effect list" where
  "newEffects w w' = drop (length (trace w)) (trace w')"

definition upToGetCommandHandler ::
  "'s env \<Rightarrow> job \<Rightarrow> 's world \<Rightarrow> context promise \<times> 's world" where
  "upToGetCommandHandler env job =
     then_call (validate env (j_command job))
       (\<lambda>_. getCommandHandler env (initialContext job) (j_command job))"

definition upToLoadRoom :: "'s env \<Rightarrow> job \<Rightarrow> 's world \<Rightarrow> context promise \<times> 's world" where
  "upToLoadRoom env job =
     then_promise (upToGetCommandHandler env job) (\<lambda>ctx. loadRoom env ctx (j_command job))"

definition upToPreConditions ::
  "'s env \<Rightarrow> job \<Rightarrow> 's world \<Rightarrow> context promise \<times> 's world" where
  "upToPreConditions env job =
     then_call (upToLoadRoom env job) (\<lambda>ctx. preConditions ctx (j_command job))"

definition upToHandle :: "'s env \<Rightarrow> job \<Rightarrow> 's world \<Rightarrow> context promise \<times> 's world" where
  "upToHandle env job =
     then_call (upToPreConditions env job) (\<lambda>ctx. handle env ctx (j_command job))"

definition upToApplyEvents :: "'s env \<Rightarrow> job \<Rightarrow> 's world \<Rightarrow> context promise \<times> 's world" where
  "upToApplyEvents env job =
     then_call (upToHandle env job) (\<lambda>ctx. applyEvents env ctx (j_command job))"

text \<open>The room a command finds: the one the store returns, or a fresh empty one.\<close>

definition roomOrEmpty :: "room option \<Rightarrow> room" where
  "roomOrEmpty loaded = (case loaded of Some r \<Rightarrow> r | None \<Rightarrow> Map.empty)"

section \<open>Registries that are plain objects\<close>

text \<open>
  What the lookup \<^verbatim>\<open>eventHandlers[eventName]\<close> finds is known to the pipeline as
  what a call of it does. On a plain object (\<^verbatim>\<open>{...}\<close>) the lookup finds the
  object's own properties, the registered event handlers, and behind them the members of
  \<^verbatim>\<open>Object.prototype\<close>. These are not event handlers. Called as
  \<^verbatim>\<open>eventHandler(currentRoom, eventPayload)\<close>, without a \<^verbatim>\<open>this\<close>, they do what the
  language standard lays down: \<^verbatim>\<open>constructor\<close>, which is \<^verbatim>\<open>Object\<close>, returns its
  first argument if that is an object and a new empty object otherwise; \<^verbatim>\<open>toString\<close>
  returns \<^verbatim>\<open>[object Undefined]\<close>; \<^verbatim>\<open>isPrototypeOf\<close> throws on an object and
  returns \<^verbatim>\<open>false\<close> otherwise; the other functions throw a TypeError for want of a
  \<^verbatim>\<open>this\<close>; \<^verbatim>\<open>__proto__\<close> is the prototype itself, an object that cannot be
  called.
\<close>

definition calledOnUndefined :: eventHandler where
  "calledOnUndefined currentRoom eventPayload =
     Inl (TypeError ''Cannot convert undefined or null to object'')"

definition Object_prototype :: "string \<rightharpoonup> eventHandler" where
  "Object_prototype =
     [''constructor'' \<mapsto>
        (\<lambda>currentRoom eventPayload.
           Inr (case currentRoom of Some r \<Rightarrow> Room r | None \<Rightarrow> NotRoom (JObj []))),
      ''toString'' \<mapsto> (\<lambda>currentRoom eventPayload. Inr (NotRoom (JStr ''[object Undefined]''))),
      ''toLocaleString'' \<mapsto> calledOnUndefined,
      ''valueOf'' \<mapsto> calledOnUndefined,
      ''hasOwnProperty'' \<mapsto> calledOnUndefined,
      ''isPrototypeOf'' \<mapsto>
        (\<lambda>currentRoom eventPayload.
           case currentRoom of
             Some r \<Rightarrow> Inl (TypeError ''Cannot convert undefined or null to object'')
           | None \<Rightarrow> Inr (NotRoom (JBool False))),
      ''propertyIsEnumerable'' \<mapsto> calledOnUndefined,
      ''__defineGetter__'' \<mapsto> calledOnUndefined,
      ''__defineSetter__'' \<mapsto> calledOnUndefined,
      ''__lookupGetter__'' \<mapsto> calledOnUndefined,
      ''__lookupSetter__'' \<mapsto> calledOnUndefined,
      ''__proto__'' \<mapsto>
        (\<lambda>currentRoom eventPayload. Inl (TypeError ''eventHandler is not a function''))]"

definition plainObject :: "(string \<rightharpoonup> eventHandler) \<Rightarrow> string \<rightharpoonup> eventHandler" where
  "plainObject own name =
     (case own name of Some eventHandler \<Rightarrow> Some eventHandler | None \<Rightarrow> Object_prototype name)"

section \<open>Example handlers, event handlers and store\<close>

text \<open>
  The command handler \<^verbatim>\<open>setUsername\<close> of the repository: it wants an existing room,
  lets a user set the own username only, and produces \<^verbatim>\<open>usernameSet\<close>.
\<close>

definition setUsernamePreCondition ::
  "room option \<Rightarrow> command \<Rightarrow> string option \<Rightarrow> thrown option" where
  "setUsernamePreCondition r command uid =
     (case member_of (c_payload command) ''userId'' of
        Inl e \<Rightarrow> Some e
      | Inr v \<Rightarrow>
          if val_of uid \<noteq> v
          then Some (Error ''Can only set username for own user!'')
          else None)"

definition setUsername :: handler where
  "setUsername =
     \<lparr>existingRoom = True,
      preCondition = Some setUsernamePreCondition,
      fn = (\<lambda>room command. ApplyEvent ''usernameSet'' (c_payload command) Return)\<rparr>"

text \<open>
  The rest of this section is not taken from the repository: command handlers, three
  event handlers, a validator, an in-memory store, an id generator and a clock, to run
  the pipeline on. \<^verbatim>\<open>exJoinRoom\<close> needs no existing room and produces two events, the
  first of which gives the room its id; \<^verbatim>\<open>exBroken\<close> produces \<^verbatim>\<open>roomCreated\<close> and
  then \<^verbatim>\<open>roomExploded\<close>, which has no event handler. \<^verbatim>\<open>exTolerant\<close> applies
  \<^verbatim>\<open>roomExploded\<close> inside \<^verbatim>\<open>try\<close> with an empty \<^verbatim>\<open>catch\<close>, and produces
  \<^verbatim>\<open>roomCreated\<close> after it. \<^verbatim>\<open>exViaConstructor\<close> produces an event named
  \<^verbatim>\<open>constructor\<close>, for which no event handler is registered. The precondition of
  \<^verbatim>\<open>exNullCheck\<close> is \<^verbatim>\<open>throw null\<close>, that of \<^verbatim>\<open>exOddCheck\<close> is
  \<^verbatim>\<open>throw {message: {toString: 0}}\<close>. The registry of event handlers is a plain
  object.
\<close>

definition exJoinRoom :: handler where
  "exJoinRoom =
     \<lparr>existingRoom = False,
      preCondition = None,
      fn = (\<lambda>room command.
             ApplyEvent ''roomCreated'' (c_payload command)
               (ApplyEvent ''joinedRoom'' (c_payload command) Return))\<rparr>"

definition exBroken :: handler where
  "exBroken =
     \<lparr>existingRoom = False,
      preCondition = None,
      fn = (\<lambda>room command.
             ApplyEvent ''roomCreated'' (c_payload command)
               (ApplyEvent ''roomExploded'' JNull Return))\<rparr>"

definition exTolerant :: handler where
  "exTolerant =
     \<lparr>existingRoom = False,
      preCondition = None,
      fn = (\<lambda>room command.
             TryApplyEvent ''roomExploded'' JNull
               (ApplyEvent ''roomCreated'' (c_payload command) Return)
               (\<lambda>e. ApplyEvent ''roomCreated'' (c_payload command) Return))\<rparr>"

definition exViaConstructor :: handler where
  "exViaConstructor =
     \<lparr>existingRoom = True,
      preCondition = None,
      fn = (\<lambda>room command. ApplyEvent ''constructor'' (c_payload command) Return)\<rparr>"

definition exNullCheck :: handler where
  "exNullCheck =
     \<lparr>existingRoom = True,
      preCondition = Some (\<lambda>r command uid. Some (Value JNull)),
      fn = (\<lambda>room command. Return)\<rparr>"

definition exOddCheck :: handler where
  "exOddCheck =
     \<lparr>existingRoom = True,
      preCondition =
        Some (\<lambda>r command uid. Some (Value (JObj [(''message'', JObj [(''toString'', JNum 0)])]))),
      fn = (\<lambda>room command. Return)\<rparr>"

definition exRoomCreated :: eventHandler where
  "exRoomCreated r payload =
     (case r of
        None \<Rightarrow> Inl (TypeError ''Cannot read property 'set' of undefined'')
      | Some m \<Rightarrow> Inr (Room (Map_set m ''id'' (getProp payload ''roomId''))))"

definition exJoinedRoom :: eventHandler where
  "exJoinedRoom r payload =
     (case r of
        None \<Rightarrow> Inl (TypeError ''Cannot read property 'set' of undefined'')
      | Some m \<Rightarrow>
          Inr (Room (Map_set m ''joined''
                 (JObj [(''userId'', getProp payload ''userId''), (''in'', Map_get m ''id'')]))))"

definition exUsernameSet :: eventHandler where
  "exUsernameSet r payload =
     (case r of
        None \<Rightarrow> Inl (TypeError ''Cannot read property 'set' of undefined'')
      | Some m \<Rightarrow> Inr (Room (Map_set m ''username'' (getProp payload ''username''))))"

definition exRegistered :: "string \<rightharpoonup> eventHandler" where
  "exRegistered =
     [''roomCreated'' \<mapsto> exRoomCreated, ''joinedRoom'' \<mapsto> exJoinedRoom,
      ''usernameSet'' \<mapsto> exUsernameSet]"

definition exEnv :: "(string \<rightharpoonup> room) env" where
  "exEnv =
     \<lparr>commandHandlers =
        [''setUsername'' \<mapsto> setUsername, ''joinRoom'' \<mapsto> exJoinRoom, ''broken'' \<mapsto> exBroken,
         ''tolerant'' \<mapsto> exTolerant, ''viaConstructor'' \<mapsto> exViaConstructor,
         ''nullCheck'' \<mapsto> exNullCheck, ''oddCheck'' \<mapsto> exOddCheck],
      eventHandlers = plainObject exRegistered,
      commandSchemaValidator =
        (\<lambda>cmd. if c_name cmd = [] then Some (Error ''Command validation Error'') else None),
      getRoomById = (\<lambda>s roomId. Inr (case roomId of None \<Rightarrow> None | Some i \<Rightarrow> s i)),
      saveRoom =
        (\<lambda>s r. case Map_get r ''id'' of
                 JStr i \<Rightarrow> Inr (s(i \<mapsto> r))
               | _ \<Rightarrow> Inl (Error ''room without id'')),
      uuid = (\<lambda>n. ''uuid-'' @ replicate n (CHR ''i'')),
      getTime = (\<lambda>n. 1000 + int n)\<rparr>"

text \<open>The same surroundings with a clock that is set back by one between readings.\<close>

definition exEnvClockSetBack :: "(string \<rightharpoonup> room) env" where
  "exEnvClockSetBack = exEnv\<lparr>getTime := (\<lambda>n. 1000 - int n)\<rparr>"

definition exRoom :: room where
  "exRoom = [''id'' \<mapsto> JStr ''r1'', ''username'' \<mapsto> JStr ''old'']"

definition exWorld :: "(string \<rightharpoonup> room) world" where
  "exWorld = \<lparr>store = [''r1'' \<mapsto> exRoom], uuidCalls = 0, getTimeCalls = 0, trace = []\<rparr>"

definition exSetUsername :: "string \<Rightarrow> command" where
  "exSetUsername u =
     \<lparr>c_id = ''c1'', c_name = ''setUsername'', c_roomId = Some ''r1'',
      c_payload = JObj [(''userId'', JStr u), (''username'', JStr ''new'')]\<rparr>"

definition exStale :: command where
  "exStale =
     \<lparr>c_id = ''c3'', c_name = ''setUsername'', c_roomId = Some ''r9'',
      c_payload = JObj [(''userId'', JStr ''u1''), (''username'', JStr ''new'')]\<rparr>"

definition exBreak :: command where
  "exBreak =
     \<lparr>c_id = ''c4'', c_name = ''broken'', c_roomId = None,
      c_payload = JObj [(''userId'', JStr ''u2''), (''roomId'', JStr ''r2'')]\<rparr>"

definition exEmptyName :: command where
  "exEmptyName = \<lparr>c_id = ''c5'', c_name = [], c_roomId = None, c_payload = JNull\<rparr>"

definition exJoin :: command where
  "exJoin =
     \<lparr>c_id = ''c2'', c_name = ''joinRoom'', c_roomId = None,
      c_payload = JObj [(''userId'', JStr ''u2''), (''roomId'', JStr ''r2'')]\<rparr>"

definition exTolerate :: command where
  "exTolerate =
     \<lparr>c_id = ''c6'', c_name = ''tolerant'', c_roomId = None,
      c_payload = JObj [(''userId'', JStr ''u2''), (''roomId'', JStr ''r2'')]\<rparr>"

definition exConstruct :: command where
  "exConstruct =
     \<lparr>c_id = ''c7'', c_name = ''viaConstructor'', c_roomId = Some ''r1'', c_payload = JObj []\<rparr>"



section \<open>Auxiliary notions for the proofs\<close>

definition adds :: "(effect \<Rightarrow> bool) \<Rightarrow> 's world \<Rightarrow> 's world \<Rightarrow> bool" where
  "adds P w w' \<longleftrightarrow>
     store w' = store w \<and> getTimeCalls w' = getTimeCalls w
     \<and> (\<exists>ts. trace w' = trace w @ ts \<and> (\<forall>x \<in> set ts. P x))"

text \<open>Which effects each stage can add.\<close>

fun isSaveRoom :: "effect \<Rightarrow> bool" where
  "isSaveRoom (SaveRoom _) = True" | "isSaveRoom _ = False"
fun isCallEventHandler :: "effect \<Rightarrow> bool" where
  "isCallEventHandler (CallEventHandler _ _ _) = True" | "isCallEventHandler _ = False"

definition beforeApply :: "effect \<Rightarrow> bool" where
  "beforeApply x \<longleftrightarrow> \<not> isSaveRoom x \<and> \<not> isCallEventHandler x"


definition traces :: "(effect \<Rightarrow> bool) \<Rightarrow> 's world \<Rightarrow> 's world \<Rightarrow> bool" where
  "traces P w w' \<longleftrightarrow> (\<exists>ts. trace w' = trace w @ ts \<and> (\<forall>x \<in> set ts. P x))"

definition roomArg :: "room \<Rightarrow> effect \<Rightarrow> bool" where
  "roomArg r0 x =
     (case x of
        CallPreCondition ro c u \<Rightarrow> ro = Some r0
      | CallFn r c \<Rightarrow> r = r0
      | _ \<Rightarrow> True)"


text \<open>
  For the proofs about \<^verbatim>\<open>applyEvents\<close>: the rooms the deferred steps produce one after
  the other when each event handler returns a room, the event object and the trace entry
  of one step, and the deferred step that \<^verbatim>\<open>applyEvent\<close> pushes for a known event.
\<close>

fun outputs :: "deferred list \<Rightarrow> room option \<Rightarrow> room list option" where
  "outputs [] r = Some []"
| "outputs (d # ds) r =
     (case d_eventHandler d r (d_eventPayload d) of
        Inr (Room u) \<Rightarrow> map_option ((#) u) (outputs ds (Some u))
      | _ \<Rightarrow> None)"

definition eventOf :: "'s env \<Rightarrow> command \<Rightarrow> string option \<Rightarrow> nat \<times> deferred \<times> room \<Rightarrow> event" where
  "eventOf env cmd uid kdu =
     (case kdu of (k, d, u) \<Rightarrow>
        \<lparr>evt_id = uuid env k, evt_userId = uid, evt_correlationId = c_id cmd,
         evt_name = d_eventName d, evt_roomId = Map_get u ''id'',
         evt_payload = d_eventPayload d\<rparr>)"

definition callOf :: "deferred \<times> room option \<Rightarrow> effect" where
  "callOf dr = (case dr of (d, r) \<Rightarrow> CallEventHandler (d_eventName d) r (d_eventPayload d))"

definition deferredOf :: "'s env \<Rightarrow> string \<times> jsval \<Rightarrow> deferred" where
  "deferredOf env c =
     \<lparr>d_eventName = fst c, d_eventHandler = the (eventHandlers env (fst c)),
      d_eventPayload = snd c\<rparr>"


text \<open>
  What a handler function has done when it is over: the \<^verbatim>\<open>applyEvent\<close> calls that
  returned, in order, and the value the function threw, if it threw. And the event name,
  if there is one, on which the function ends because \<^verbatim>\<open>applyEvent\<close> found no event
  handler for it and the call was not inside a \<^verbatim>\<open>try\<close>.
\<close>

primrec performed :: "'s env \<Rightarrow> program \<Rightarrow> (string \<times> jsval) list \<times> thrown option" where
  "performed env Return = ([], None)"
| "performed env (Throw e) = ([], Some e)"
| "performed env (ApplyEvent eventName eventPayload rest) =
     (case eventHandlers env eventName of
        None \<Rightarrow> ([], Some (Error (''Cannot apply unknown event '' @ eventName)))
      | Some eventHandler \<Rightarrow>
          (case performed env rest of (calls, t) \<Rightarrow> ((eventName, eventPayload) # calls, t)))"
| "performed env (TryApplyEvent eventName eventPayload rest onError) =
     (case eventHandlers env eventName of
        None \<Rightarrow> performed env (onError (Error (''Cannot apply unknown event '' @ eventName)))
      | Some eventHandler \<Rightarrow>
          (case performed env rest of (calls, t) \<Rightarrow> ((eventName, eventPayload) # calls, t)))"

primrec uncaught :: "'s env \<Rightarrow> program \<Rightarrow> string option" where
  "uncaught env Return = None"
| "uncaught env (Throw e) = None"
| "uncaught env (ApplyEvent eventName eventPayload rest) =
     (case eventHandlers env eventName of
        None \<Rightarrow> Some eventName
      | Some eventHandler \<Rightarrow> uncaught env rest)"
| "uncaught env (TryApplyEvent eventName eventPayload rest onError) =
     (case eventHandlers env eventName of
        None \<Rightarrow> uncaught env (onError (Error (''Cannot apply unknown event '' @ eventName)))
      | Some eventHandler \<Rightarrow> uncaught env rest)"

text \<open>
  The sequence queue hands the jobs to the job handler one after the other: the job
  handler run on a list of jobs in turn, each on the world the one before has left.
\<close>

fun runJobs :: "'s env \<Rightarrow> job list \<Rightarrow> 's world \<Rightarrow> event list promise list \<times> 's world" where
  "runJobs env [] w = ([], w)"
| "runJobs env (j # js) w =
     (case jobHandler env j w of
        (p, w1) \<Rightarrow> (case runJobs env js w1 of (ps, w') \<Rightarrow> (p # ps, w')))"

text \<open>The rooms that \<^verbatim>\<open>store.saveRoom\<close> was called with, in order.\<close>

fun savedRooms :: "effect list \<Rightarrow> room list" where
  "savedRooms [] = []"
| "savedRooms (SaveRoom r # ts) = r # savedRooms ts"
| "savedRooms (_ # ts) = savedRooms ts"

text \<open>\<^verbatim>\<open>room.get(key)\<close>, the key first.\<close>

definition valueAt :: "string \<Rightarrow> room \<Rightarrow> jsval" where
  "valueAt k r = Map_get r k"

text \<open>
  The event names of all the \<^verbatim>\<open>applyEvent\<close> calls a handler function makes on its
  course, those that throw included.
\<close>

primrec attempted :: "'s env \<Rightarrow> program \<Rightarrow> string list" where
  "attempted env Return = []"
| "attempted env (Throw e) = []"
| "attempted env (ApplyEvent eventName eventPayload rest) =
     eventName #
       (case eventHandlers env eventName of
          None \<Rightarrow> []
        | Some eventHandler \<Rightarrow> attempted env rest)"
| "attempted env (TryApplyEvent eventName eventPayload rest onError) =
     eventName #
       (case eventHandlers env eventName of
          None \<Rightarrow> attempted env (onError (Error (''Cannot apply unknown event '' @ eventName)))
        | Some eventHandler \<Rightarrow> attempted env rest)"

section \<open>The client's reducer for joinedRoom\<close>

text \<open>
  Setting one key of a plain object or nested map: an existing entry is replaced where it
  stands, a new one is added at the end; the other entries stay as they are.
\<close>

fun setEntry :: "string \<Rightarrow> jsval \<Rightarrow> (string \<times> jsval) list \<Rightarrow> (string \<times> jsval) list" where
  "setEntry k v [] = [(k, v)]"
| "setEntry k v ((k', v') # kvs) =
     (if k' = k then (k, v) # kvs else (k', v') # setEntry k v kvs)"

text \<open>What counts as true in a condition.\<close>

fun truthy :: "jsval \<Rightarrow> bool" where
  "truthy JUndefined = False"
| "truthy JNull = False"
| "truthy (JBool b) = b"
| "truthy (JNum n) = (n \<noteq> 0)"
| "truthy (JStr s) = (s \<noteq> [])"
| "truthy (JObj kvs) = True"

text \<open>
  A \<^verbatim>\<open>joinedRoom\<close> event as the client receives it: the room's id and the payload,
  which names the user who joined and carries the room's users, and its stories and
  selected story (\<^verbatim>\<open>undefined\<close> when the payload has none).
\<close>

record joinedRoomPayload =
  p_userId :: string
  p_users :: "(string \<times> jsval) list"
  p_selectedStory :: jsval
  p_stories :: jsval

record joinedRoomEvent =
  ev_roomId :: jsval
  ev_payload :: joinedRoomPayload

text \<open>
  Modelled from the spec: the reducer for \<^verbatim>\<open>joinedRoom\<close> of the client's
  \<^verbatim>\<open>eventReducer\<close> (\<^verbatim>\<open>app/services/eventReducer\<close>, of which the repository's sources
  here hold the test only). The spec has reducers merge new entries into nested maps
  without disturbing the sibling entries, and leave every field they are not about as it
  is. A client that knows its own user id is in the room, and the event tells it of a
  user who joined: that user's entry, \<^verbatim>\<open>payload.users[payload.userId]\<close>, is put into
  the state's \<^verbatim>\<open>users\<close> under \<^verbatim>\<open>payload.userId\<close> (a state without users has none
  before). A client without user id has joined itself, and takes the room over from the
  event, as the test ``you joined'' has it: room id, own user id, selected story, users
  and stories.
\<close>

definition joinedRoomReducer :: "room \<Rightarrow> joinedRoomEvent \<Rightarrow> room" where
  "joinedRoomReducer state event =
     (let payload = ev_payload event in
      if truthy (Map_get state ''userId'')
      then Map_set state ''users''
             (JObj (setEntry (p_userId payload)
                      (getProp (JObj (p_users payload)) (p_userId payload))
                      (case Map_get state ''users'' of JObj users \<Rightarrow> users | _ \<Rightarrow> [])))
      else state(''roomId'' \<mapsto> ev_roomId event,
                 ''userId'' \<mapsto> JStr (p_userId payload),
                 ''selectedStory'' \<mapsto> p_selectedStory payload,
                 ''users'' \<mapsto> JObj (p_users payload),
                 ''stories'' \<mapsto> p_stories payload))"

text \<open>The starting states and the events of the tests ``someone else joined'' and ``you joined''.\<close>

definition someoneElseJoinedState :: room where
  "someoneElseJoinedState =
     [''userId'' \<mapsto> JStr ''myUserId'',
      ''roomId'' \<mapsto> JStr ''ourRoom'',
      ''users'' \<mapsto> JObj [(''myUserId'', JObj [(''username'', JStr ''tester1'')])]]"

definition someoneElseJoinedEvent :: joinedRoomEvent where
  "someoneElseJoinedEvent =
     \<lparr>ev_roomId = JStr ''ourRoom'',
      ev_payload =
        \<lparr>p_userId = ''theNewUser'',
         p_users = [(''myUserId'', JObj []), (''theNewUser'', JObj [])],
         p_selectedStory = JUndefined,
         p_stories = JUndefined\<rparr>\<rparr>"

definition youJoinedState :: room where
  "youJoinedState = [''roomId'' \<mapsto> JStr ''myRoom'', ''waitingForJoin'' \<mapsto> JBool True]"

definition youJoinedEvent :: joinedRoomEvent where
  "youJoinedEvent =
     \<lparr>ev_roomId = JStr ''myRoom'',
      ev_payload =
        \<lparr>p_userId = ''myUserId'',
         p_users = [(''myUserId'', JObj [])],
         p_selectedStory = JStr ''storyOne'',
         p_stories = JObj [(''storyOne'', JObj [])]\<rparr>\<rparr>"

section \<open>The sequence queue and commands in flight\<close>

text \<open>
  The job handler runs in pieces: \<^verbatim>\<open>validate\<close> when the handler is invoked, then one
  callback of the chain at a time, with a pause while the store saves. Between two pieces
  other code may run. A phase says where a handler invocation stands: which callback is
  next and with what context, or that \<^verbatim>\<open>store.saveRoom\<close> has been called and has not
  answered, or that the chain has settled and its last callback (the final \<^verbatim>\<open>then\<close>, or
  the \<^verbatim>\<open>catch\<close>) is next. A rejection skips the callbacks up to the \<^verbatim>\<open>catch\<close>.
\<close>

datatype stage = GetCommandHandler | LoadRoom | PreConditions | Handle | ApplyEvents
  | SaveRoomBackToStore

datatype phase =
    Next stage "context"
  | Saving "context" room
  | Succeeded "context"
  | Failed thrown

definition invoke :: "'s env \<Rightarrow> job \<Rightarrow> 's world \<Rightarrow> phase \<times> 's world" where
  "invoke env job w =
     (case validate env (j_command job) w of
        (Rejected e, w') \<Rightarrow> (Failed e, w')
      | (Fulfilled _, w') \<Rightarrow> (Next GetCommandHandler (initialContext job), w'))"

fun throwing :: "stage \<Rightarrow> (thrown + context) \<times> 's world \<Rightarrow> phase \<times> 's world" where
  "throwing s (Inl e, w) = (Failed e, w)"
| "throwing s (Inr ctx, w) = (Next s ctx, w)"

fun rejecting :: "stage \<Rightarrow> context promise \<times> 's world \<Rightarrow> phase \<times> 's world" where
  "rejecting s (Rejected e, w) = (Failed e, w)"
| "rejecting s (Fulfilled ctx, w) = (Next s ctx, w)"

fun advance :: "'s env \<Rightarrow> command \<Rightarrow> phase \<Rightarrow> 's world \<Rightarrow> phase \<times> 's world" where
  "advance env cmd (Next GetCommandHandler ctx) w =
     throwing LoadRoom (getCommandHandler env ctx cmd w)"
| "advance env cmd (Next LoadRoom ctx) w =
     rejecting PreConditions (loadRoom env ctx cmd w)"
| "advance env cmd (Next PreConditions ctx) w =
     throwing Handle (preConditions ctx cmd w)"
| "advance env cmd (Next Handle ctx) w =
     throwing ApplyEvents (handle env ctx cmd w)"
| "advance env cmd (Next ApplyEvents ctx) w =
     throwing SaveRoomBackToStore (applyEvents env ctx cmd w)"
| "advance env cmd (Next SaveRoomBackToStore ctx) w =
     (case stampRoom env ctx w of
        (Inl e, w') \<Rightarrow> (Failed e, w')
      | (Inr cr, w') \<Rightarrow> (Saving (fst cr) (snd cr), w'))"
| "advance env cmd (Saving ctx r) w =
     (case saveRoomSettles env (ctx, r) w of
        (Rejected e, w') \<Rightarrow> (Failed e, w')
      | (Fulfilled ctx', w') \<Rightarrow> (Succeeded ctx', w'))"
| "advance env cmd (Succeeded ctx) w = (Succeeded ctx, w)"
| "advance env cmd (Failed e) w = (Failed e, w)"

text \<open>
  How the last callback settles the job: \<^verbatim>\<open>job.resolve(context.eventsToSend)\<close>, or
  \<^verbatim>\<open>job.reject(err)\<close>; \<open>None\<close> while the chain has not settled.
\<close>

fun settlement :: "phase \<Rightarrow> event list promise option" where
  "settlement (Succeeded ctx) = Some (Fulfilled (eventsToSend ctx))"
| "settlement (Failed e) = Some (Rejected e)"
| "settlement _ = None"

fun rank :: "phase \<Rightarrow> nat" where
  "rank (Next GetCommandHandler _) = 7"
| "rank (Next LoadRoom _) = 6"
| "rank (Next PreConditions _) = 5"
| "rank (Next Handle _) = 4"
| "rank (Next ApplyEvents _) = 3"
| "rank (Next SaveRoomBackToStore _) = 2"
| "rank (Saving _ _) = 1"
| "rank (Succeeded _) = 0"
| "rank (Failed _) = 0"

text \<open>All remaining pieces of a handler invocation run in one go.\<close>

function finish :: "'s env \<Rightarrow> command \<Rightarrow> phase \<Rightarrow> 's world \<Rightarrow> event list promise \<times> 's world" where
  "finish env cmd (Succeeded ctx) w = (Fulfilled (eventsToSend ctx), w)"
| "finish env cmd (Failed e) w = (Rejected e, w)"
| "finish env cmd (Next s ctx) w =
     (case advance env cmd (Next s ctx) w of (ph, w') \<Rightarrow> finish env cmd ph w')"
| "finish env cmd (Saving ctx r) w =
     (case advance env cmd (Saving ctx r) w of (ph, w') \<Rightarrow> finish env cmd ph w')"
  by pat_completeness auto
termination
  apply (relation "measure (\<lambda>(env, cmd, ph, w). rank ph)")
    apply simp
  subgoal for env cmd s ctx w ph w'
    by (cases s) (auto elim!: throwing.elims rejecting.elims split: prod.splits sum.splits
        dest!: sym [of "(ph, w')"])
  subgoal for env cmd ctx r w ph w'
    by (auto split: prod.splits promise.splits dest!: sym [of "(ph, w')"])
  done

text \<open>
  Modelled from the spec: the sequence queue (\<^verbatim>\<open>./sequenceQueue\<close> is not among the
  sources). \<^verbatim>\<open>push\<close> appends a job and returns without running it. The job handler is
  invoked for the head of the queue, and only after the job before it has called
  \<^verbatim>\<open>next\<close>; \<^verbatim>\<open>next\<close>, with an error or without, lets the queue go on to the following
  job. The queue is the list of jobs waiting, each with the number of its push, and
  the flag \<^verbatim>\<open>busy\<close>: the handler has been invoked for a job that has not called
  \<^verbatim>\<open>next\<close> yet.

  The system around it: the world, the handler invocations in flight with their phases,
  the jobs settled so far with how they settled, and a history of when a job's pipeline
  began (its handler was invoked) and ended (it called \<^verbatim>\<open>nextJob\<close>).
\<close>

datatype hevent = Begin nat | End nat

record 's system =
  sys_world :: "'s world"
  waiting :: "(nat \<times> job) list"
  busy :: bool
  pushes :: nat
  running :: "(nat \<times> job \<times> phase) list"
  settled :: "(nat \<times> event list promise) list"
  history :: "hevent list"

definition idle :: "'s world \<Rightarrow> 's system" where
  "idle w = \<lparr>sys_world = w, waiting = [], busy = False, pushes = 0, running = [],
             settled = [], history = []\<rparr>"

text \<open>
  What can happen next: \<^verbatim>\<open>processCommand\<close> is called and pushes a job; the queue invokes
  the handler for its head, if it is not busy; an invocation in flight runs its next
  piece. The last piece of an invocation calls \<^verbatim>\<open>nextJob\<close> and settles the job.
  \<open>None\<close>: the step is not possible in this state.
\<close>

datatype label = Push job | Dispatch | Advance nat

fun step :: "'s env \<Rightarrow> label \<Rightarrow> 's system \<Rightarrow> 's system option" where
  "step env (Push j) sys =
     Some (sys\<lparr>waiting := waiting sys @ [(pushes sys, j)], pushes := Suc (pushes sys)\<rparr>)"
| "step env Dispatch sys =
     (case waiting sys of
        [] \<Rightarrow> None
      | (t, j) # rest \<Rightarrow>
          if busy sys then None
          else (case invoke env j (sys_world sys) of
                  (ph, w') \<Rightarrow>
                    Some (sys\<lparr>sys_world := w', waiting := rest, busy := True,
                              running := running sys @ [(t, j, ph)],
                              history := history sys @ [Begin t]\<rparr>)))"
| "step env (Advance i) sys =
     (if i < length (running sys)
      then (case running sys ! i of
              (t, j, ph) \<Rightarrow>
                (case settlement ph of
                   Some p \<Rightarrow>
                     Some (sys\<lparr>busy := False,
                               running := take i (running sys) @ drop (Suc i) (running sys),
                               settled := settled sys @ [(t, p)],
                               history := history sys @ [End t]\<rparr>)
                 | None \<Rightarrow>
                     (case advance env (j_command j) ph (sys_world sys) of
                        (ph', w') \<Rightarrow>
                          Some (sys\<lparr>sys_world := w',
                                    running := (running sys)[i := (t, j, ph')]\<rparr>))))
      else None)"

fun run :: "'s env \<Rightarrow> label list \<Rightarrow> 's system \<Rightarrow> 's system option" where
  "run env [] sys = Some sys"
| "run env (l # ls) sys = (case step env l sys of None \<Rightarrow> None | Some sys' \<Rightarrow> run env ls sys')"

text \<open>The jobs pushed by a sequence of steps, in the order of their pushes.\<close>

fun pushedJobs :: "label list \<Rightarrow> job list" where
  "pushedJobs [] = []"
| "pushedJobs (Push j # ls) = j # pushedJobs ls"
| "pushedJobs (_ # ls) = pushedJobs ls"

text \<open>
  The invariant of the system: the jobs pushed are \<open>jobs\<close>; those settled are the first
  \<open>n\<close> of them, settled as the job handler settles them when it runs on one after the
  other from the world \<open>w0\<close>; at most one handler invocation is in flight, that of job
  \<open>n\<close>, and finishing it from where it stands gives what the job handler gives in the
  world the first \<open>n\<close> jobs have left; the jobs after it wait in the order of their
  pushes.
\<close>

definition serialized :: "'s env \<Rightarrow> 's world \<Rightarrow> job list \<Rightarrow> 's system \<Rightarrow> bool" where
  "serialized env w0 jobs sys \<longleftrightarrow>
     (let n = length (settled sys); k = n + length (running sys) in
        k \<le> length jobs
      \<and> pushes sys = length jobs
      \<and> waiting sys = zip [k..<length jobs] (drop k jobs)
      \<and> (busy sys \<longleftrightarrow> running sys \<noteq> [])
      \<and> history sys = concat (map (\<lambda>t. [Begin t, End t]) [0..<n])
            @ (if running sys = [] then [] else [Begin n])
      \<and> settled sys = zip [0..<n] (fst (runJobs env (take n jobs) w0))
      \<and> (case running sys of
            [] \<Rightarrow> sys_world sys = snd (runJobs env (take n jobs) w0)
          | [(t, j, ph)] \<Rightarrow>
              t = n \<and> j = jobs ! n
              \<and> finish env (j_command j) ph (sys_world sys)
                  = jobHandler env j (snd (runJobs env (take n jobs) w0))
          | _ \<Rightarrow> False))"


text \<open>
  Two commands for the room \<^verbatim>\<open>r1\<close> of the example store, and steps in which the
  second is pushed while the first is in flight.
\<close>

definition exJoinR1 :: command where
  "exJoinR1 =
     \<lparr>c_id = ''c6'', c_name = ''joinRoom'', c_roomId = Some ''r1'',
      c_payload = JObj [(''userId'', JStr ''u2''), (''roomId'', JStr ''r1'')]\<rparr>"

definition exJobA :: job where
  "exJobA = \<lparr>j_command = exSetUsername ''u1'', j_userId = Some ''u1''\<rparr>"

definition exJobB :: job where
  "exJobB = \<lparr>j_command = exJoinR1, j_userId = Some ''u2''\<rparr>"

definition exSteps :: "label list" where
  "exSteps =
     [Push exJobA, Dispatch, Advance 0, Advance 0, Push exJobB, Advance 0, Advance 0,
      Advance 0, Advance 0, Advance 0, Advance 0, Dispatch, Advance 0, Advance 0, Advance 0,
      Advance 0, Advance 0, Advance 0, Advance 0, Advance 0]"

section \<open>Effects of the stages\<close>

lemma adds_refl: "adds P w w"
  by (simp add: adds_def)

lemma adds_trans: "adds P w w' \<Longrightarrow> adds P w' w'' \<Longrightarrow> adds P w w''"
  by (auto simp: adds_def)

lemma adds_add_effect: "P x \<Longrightarrow> adds P w (add_effect x w)"
  by (auto simp: adds_def add_effect_def)

lemma adds_newEffects: "adds P w w' \<Longrightarrow> x \<in> set (newEffects w w') \<Longrightarrow> P x"
  by (auto simp: adds_def newEffects_def)

lemma adds_store: "adds P w w' \<Longrightarrow> store w' = store w"
  by (simp add: adds_def)

lemma adds_getTimeCalls: "adds P w w' \<Longrightarrow> getTimeCalls w' = getTimeCalls w"
  by (simp add: adds_def)

lemma adds_mono: "adds P w w' \<Longrightarrow> (\<And>x. P x \<Longrightarrow> Q x) \<Longrightarrow> adds Q w w'"
  by (auto simp: adds_def)

lemma then_call_adds:
  assumes "then_call p cb w = (x, w')"
    and "\<And>w y w'. p w = (y, w') \<Longrightarrow> adds P w w'"
    and "\<And>v w y w'. cb v w = (y, w') \<Longrightarrow> adds P w w'"
  shows "adds P w w'"
  using assms(1)
  by (auto simp: then_call_def split: prod.splits promise.splits sum.splits
      dest: assms(2) assms(3) intro: adds_trans)

lemma then_promise_adds:
  assumes "then_promise p cb w = (x, w')"
    and "\<And>w y w'. p w = (y, w') \<Longrightarrow> adds P w w'"
    and "\<And>v w y w'. cb v w = (y, w') \<Longrightarrow> adds P w w'"
  shows "adds P w w'"
  using assms(1)
  by (auto simp: then_promise_def split: prod.splits promise.splits
      dest: assms(2) assms(3) intro: adds_trans)

lemma upToGetCommandHandler_world: "upToGetCommandHandler env job w = (x, w') \<Longrightarrow> w' = w"
  by (auto simp: upToGetCommandHandler_def then_call_def validate_def new_Promise_def
      getCommandHandler_def split: option.splits)

lemma loadRoom_adds: "loadRoom env ctx cmd w = (x, w') \<Longrightarrow> adds beforeApply w w'"
  by (auto simp: loadRoom_def then_call_def adds_add_effect beforeApply_def
      split: sum.splits option.splits if_splits)

lemma preConditions_adds: "preConditions ctx cmd w = (x, w') \<Longrightarrow> adds beforeApply w w'"
  by (auto simp: preConditions_def adds_add_effect adds_refl beforeApply_def split: option.splits)

lemma handle_adds: "handle env ctx cmd w = (x, w') \<Longrightarrow> adds beforeApply w w'"
  by (auto simp: handle_def applyEvent_def adds_add_effect adds_refl beforeApply_def
      split: option.splits prod.splits sum.splits)

lemma upToHandle_adds: "upToHandle env job w = (x, w') \<Longrightarrow> adds beforeApply w w'"
  unfolding upToHandle_def upToPreConditions_def upToLoadRoom_def
  apply (erule then_call_adds)
   apply (erule then_call_adds)
    apply (erule then_promise_adds)
     apply (drule upToGetCommandHandler_world, simp add: adds_refl)
    apply (erule loadRoom_adds)
   apply (erule preConditions_adds)
  apply (erule handle_adds)
  done

lemma evtHandler_adds:
  "evtHandler env cmd d ctx w = (x, w') \<Longrightarrow> adds (\<lambda>x. \<not> isSaveRoom x) w w'"
  by (auto simp: evtHandler_def Let_def adds_def add_effect_def split: option.splits sum.splits returned.splits)

lemma forEach_adds: "forEach env cmd ds ctx w = (x, w') \<Longrightarrow> adds (\<lambda>x. \<not> isSaveRoom x) w w'"
proof (induction ds arbitrary: ctx w)
  case Nil
  then show ?case by (simp add: adds_refl)
next
  case (Cons d ds)
  obtain y w1 where step: "evtHandler env cmd d ctx w = (y, w1)"
    by (cases "evtHandler env cmd d ctx w")
  then have q1: "adds (\<lambda>x. \<not> isSaveRoom x) w w1" by (rule evtHandler_adds)
  show ?case
  proof (cases y)
    case (Inl e)
    with step Cons.prems q1 show ?thesis by simp
  next
    case (Inr ctx')
    with step Cons.prems have "forEach env cmd ds ctx' w1 = (x, w')" by simp
    then have "adds (\<lambda>x. \<not> isSaveRoom x) w1 w'" by (rule Cons.IH)
    with q1 show ?thesis by (rule adds_trans)
  qed
qed

lemma upToApplyEvents_adds:
  "upToApplyEvents env job w = (x, w') \<Longrightarrow> adds (\<lambda>x. \<not> isSaveRoom x) w w'"
  unfolding upToApplyEvents_def
  apply (erule then_call_adds)
   apply (drule upToHandle_adds, erule adds_mono, simp add: beforeApply_def)
  apply (simp add: applyEvents_def forEach_adds)
  done

lemma jobHandler_stages:
  "jobHandler env job =
     then_call (then_promise (upToApplyEvents env job) (\<lambda>ctx. saveRoomBackToStore env ctx))
       (\<lambda>ctx w. (Inr (eventsToSend ctx), w))"
  by (simp add: jobHandler_def upToApplyEvents_def upToHandle_def upToPreConditions_def
      upToLoadRoom_def upToGetCommandHandler_def Let_def)

lemma processCommand_jobHandler:
  "processCommand env command uid w =
     (Inr (fst (jobHandler env \<lparr>j_command = command, j_userId = uid\<rparr> w)),
      snd (jobHandler env \<lparr>j_command = command, j_userId = uid\<rparr> w))"
  by (simp add: processCommand_def new_Promise_def split: prod.splits promise.splits sum.splits)

lemma upToApplyEvents_Rejected:
  "upToApplyEvents env job w = (Rejected e, w') \<Longrightarrow> jobHandler env job w = (Rejected e, w')"
  by (simp add: jobHandler_stages then_call_def then_promise_def)

lemma upToHandle_Rejected:
  "upToHandle env job w = (Rejected e, w') \<Longrightarrow> upToApplyEvents env job w = (Rejected e, w')"
  by (simp add: upToApplyEvents_def then_call_def)

lemmas pipeline_defs =
  jobHandler_def processCommand_def upToApplyEvents_def upToHandle_def upToPreConditions_def
  upToLoadRoom_def upToGetCommandHandler_def then_call_def then_promise_def validate_def
  new_Promise_def getCommandHandler_def loadRoom_def preConditions_def handle_def applyEvent_def
  applyEvents_def evtHandler_def saveRoomBackToStore_def stampRoom_def saveRoomSettles_def
  initialContext_def add_effect_def newEffects_def Map_set_def Map_get_def str_of_def
  val_of_def roomOrEmpty_def

lemmas example_defs =
  exEnv_def plainObject_def exRegistered_def Object_prototype_def exWorld_def exSetUsername_def exJoin_def exStale_def exBreak_def exEmptyName_def
  setUsername_def
  setUsernamePreCondition_def exJoinRoom_def
  exBroken_def exRoomCreated_def exJoinedRoom_def exUsernameSet_def


lemma traces_refl: "traces P w w"
  by (simp add: traces_def)

lemma traces_trans: "traces P w w' \<Longrightarrow> traces P w' w'' \<Longrightarrow> traces P w w''"
  by (auto simp: traces_def)

lemma traces_add_effect: "P x \<Longrightarrow> traces P w (add_effect x w)"
  by (auto simp: traces_def add_effect_def)

lemma traces_newEffects: "traces P w w' \<Longrightarrow> x \<in> set (newEffects w w') \<Longrightarrow> P x"
  by (auto simp: traces_def newEffects_def)

lemma traces_mono: "traces P w w' \<Longrightarrow> (\<And>x. P x \<Longrightarrow> Q x) \<Longrightarrow> traces Q w w'"
  by (auto simp: traces_def)

lemma adds_traces: "adds P w w' \<Longrightarrow> traces P w w'"
  by (auto simp: adds_def traces_def)

lemma then_call_cases:
  assumes "then_call p cb w = (x, w')"
  obtains (rejected) e where "p w = (Rejected e, w')" "x = Rejected e"
  | (throws) v w1 e where "p w = (Fulfilled v, w1)" "cb v w1 = (Inl e, w')" "x = Rejected e"
  | (returns) v w1 y where "p w = (Fulfilled v, w1)" "cb v w1 = (Inr y, w')" "x = Fulfilled y"
  using assms
  by (auto simp: then_call_def split: prod.splits promise.splits sum.splits)

lemma then_promise_cases:
  assumes "then_promise p cb w = (x, w')"
  obtains (rejected) e where "p w = (Rejected e, w')" "x = Rejected e"
  | (fulfilled) v w1 where "p w = (Fulfilled v, w1)" "cb v w1 = (x, w')"
  using assms
  by (auto simp: then_promise_def split: prod.splits promise.splits)

lemma then_call_Rejected: "p w = (Rejected e, w') \<Longrightarrow> then_call p cb w = (Rejected e, w')"
  by (simp add: then_call_def)

lemma then_promise_Rejected: "p w = (Rejected e, w') \<Longrightarrow> then_promise p cb w = (Rejected e, w')"
  by (simp add: then_promise_def)

lemma then_call_Fulfilled:
  "p w = (Fulfilled v, w1) \<Longrightarrow>
   then_call p cb w = (case cb v w1 of (Inl e, w') \<Rightarrow> (Rejected e, w')
                                     | (Inr y, w') \<Rightarrow> (Fulfilled y, w'))"
  by (simp add: then_call_def)

lemma then_promise_Fulfilled: "p w = (Fulfilled v, w1) \<Longrightarrow> then_promise p cb w = cb v w1"
  by (simp add: then_promise_def)

text \<open>Stages 1 and 2\<close>

lemma upToGetCommandHandler_eq:
  "upToGetCommandHandler env job w =
     (case commandSchemaValidator env (j_command job) of
        Some e \<Rightarrow> (Rejected e, w)
      | None \<Rightarrow>
          (case commandHandlers env (c_name (j_command job)) of
             None \<Rightarrow> (Rejected (Error (''No handler found for '' @ c_name (j_command job))), w)
           | Some h \<Rightarrow> (Fulfilled ((initialContext job)\<lparr>handler := Some h\<rparr>), w)))"
  by (simp add: upToGetCommandHandler_def then_call_def validate_def new_Promise_def
      getCommandHandler_def split: option.splits)

lemma upToGetCommandHandler_FulfilledD:
  assumes "upToGetCommandHandler env job w = (Fulfilled ctx, w')"
  shows "w' = w" and "commandSchemaValidator env (j_command job) = None"
    and "\<exists>h. commandHandlers env (c_name (j_command job)) = Some h
            \<and> ctx = (initialContext job)\<lparr>handler := Some h\<rparr>"
  using assms by (auto simp: upToGetCommandHandler_eq split: option.splits)

text \<open>Stage 3\<close>

lemma loadRoom_eq:
  "handler ctx = Some h \<Longrightarrow>
   loadRoom env ctx cmd w =
     (case getRoomById env (store w) (c_roomId cmd) of
        Inl e \<Rightarrow> Rejected e
      | Inr loaded \<Rightarrow>
          if loaded = None \<and> existingRoom h
          then Rejected (Error (''Command \"'' @ c_name cmd
                 @ ''\" only want's to get handled for an existing room. (''
                 @ str_of (c_roomId cmd) @ '')''))
          else Fulfilled (ctx\<lparr>room := Some (roomOrEmpty loaded)\<rparr>),
      add_effect (GetRoomById (c_roomId cmd)) w)"
  by (auto simp: loadRoom_def then_call_def roomOrEmpty_def split: sum.splits option.splits returned.splits)

lemma upToLoadRoom_FulfilledD:
  assumes "upToLoadRoom env job w = (Fulfilled ctx, w')"
  shows "\<exists>h loaded. commandHandlers env (c_name (j_command job)) = Some h
           \<and> getRoomById env (store w) (c_roomId (j_command job)) = Inr loaded
           \<and> \<not> (loaded = None \<and> existingRoom h)
           \<and> ctx = (initialContext job)\<lparr>handler := Some h, room := Some (roomOrEmpty loaded)\<rparr>
           \<and> w' = add_effect (GetRoomById (c_roomId (j_command job))) w"
proof -
  from assms obtain ctx2 w2 where
    a: "upToGetCommandHandler env job w = (Fulfilled ctx2, w2)"
    and b: "loadRoom env ctx2 (j_command job) w2 = (Fulfilled ctx, w')"
    unfolding upToLoadRoom_def by (auto elim: then_promise_cases)
  from upToGetCommandHandler_FulfilledD [OF a] obtain h where
    h: "w2 = w" "commandHandlers env (c_name (j_command job)) = Some h"
       "ctx2 = (initialContext job)\<lparr>handler := Some h\<rparr>"
    by blast
  then have "handler ctx2 = Some h" by simp
  from b [unfolded loadRoom_eq [OF this]] h show ?thesis
    by (auto split: sum.splits if_splits)
qed


lemma preConditions_traces:
  "preConditions ctx cmd w = (x, w') \<Longrightarrow>
   adds (\<lambda>x. x = CallPreCondition (room ctx) cmd (userId ctx)) w w' \<and> (\<forall>ctx'. x = Inr ctx' \<longrightarrow> ctx' = ctx)"
  by (auto simp: preConditions_def adds_add_effect adds_refl split: option.splits)

lemma handle_traces:
  "handle env ctx cmd w = (x, w') \<Longrightarrow>
   adds (\<lambda>x. \<exists>r. room ctx = Some r \<and> x = CallFn r cmd) w w'
   \<and> (\<forall>ctx'. x = Inr ctx' \<longrightarrow> room ctx' = room ctx \<and> handler ctx' = handler ctx \<and> userId ctx' = userId ctx)"
  by (auto simp: handle_def applyEvent_def adds_add_effect adds_refl split: option.splits prod.splits sum.splits)

lemma forEach_traces: "forEach env cmd ds ctx w = (x, w') \<Longrightarrow> adds isCallEventHandler w w'"
proof (induction ds arbitrary: ctx w)
  case Nil
  then show ?case by (simp add: adds_refl)
next
  case (Cons d ds)
  obtain y w1 where step: "evtHandler env cmd d ctx w = (y, w1)"
    by (cases "evtHandler env cmd d ctx w")
  then have q1: "adds isCallEventHandler w w1"
    by (auto simp: evtHandler_def Let_def adds_def add_effect_def split: option.splits sum.splits returned.splits)
  show ?case
  proof (cases y)
    case (Inl e)
    with step Cons.prems q1 show ?thesis by simp
  next
    case (Inr ctx')
    with step Cons.prems have "forEach env cmd ds ctx' w1 = (x, w')" by simp
    then have "adds isCallEventHandler w1 w'" by (rule Cons.IH)
    with q1 show ?thesis by (rule adds_trans)
  qed
qed

lemma saveRoomBackToStore_traces:
  "saveRoomBackToStore env ctx w = (x, w') \<Longrightarrow> traces isSaveRoom w w'"
  by (auto simp: saveRoomBackToStore_def stampRoom_def saveRoomSettles_def Let_def traces_def
      add_effect_def split: option.splits sum.splits returned.splits)

lemma jobHandler_after_loadRoom:
  assumes load: "upToLoadRoom env job w = (Fulfilled ctx, w3)"
    and run: "jobHandler env job w = (p, w')"
    and r: "room ctx = Some r0"
  shows "traces (roomArg r0) w3 w'"
proof -
  let ?cmd = "j_command job"
  have P1: "roomArg r0 x" if "x = CallPreCondition (room ctx) ?cmd u" for x u
    using that r by (simp add: roomArg_def)
  have P2: "roomArg r0 x" if "\<exists>r. room ctx = Some r \<and> x = CallFn r ?cmd" for x
    using that r by (auto simp: roomArg_def)
  have P3: "roomArg r0 x" if "isCallEventHandler x" for x
    using that by (cases x) (simp_all add: roomArg_def)
  have P4: "roomArg r0 x" if "isSaveRoom x" for x
    using that by (cases x) (simp_all add: roomArg_def)
  obtain x4 w4 where s4: "preConditions ctx ?cmd w3 = (x4, w4)"
    by (cases "preConditions ctx ?cmd w3")
  from preConditions_traces [OF s4]
  have t4: "traces (roomArg r0) w3 w4" and c4: "\<forall>ctx'. x4 = Inr ctx' \<longrightarrow> ctx' = ctx"
    by (auto intro: traces_mono [OF adds_traces] P1)
  have u4: "upToPreConditions env job w = (case x4 of Inl e \<Rightarrow> Rejected e | Inr c \<Rightarrow> Fulfilled c, w4)"
    unfolding upToPreConditions_def using load s4
    by (simp add: then_call_def split: sum.splits)
  show ?thesis
  proof (cases x4)
    case (Inl e)
    with u4 have "upToPreConditions env job w = (Rejected e, w4)" by simp
    then have "jobHandler env job w = (Rejected e, w4)"
      by (simp add: jobHandler_stages upToApplyEvents_def upToHandle_def then_call_def then_promise_def)
    with run t4 show ?thesis by simp
  next
    case (Inr c)
    with c4 u4 have u4': "upToPreConditions env job w = (Fulfilled ctx, w4)" by simp
    obtain x5 w5 where s5: "handle env ctx ?cmd w4 = (x5, w5)"
      by (cases "handle env ctx ?cmd w4")
    from handle_traces [OF s5]
    have t5: "traces (roomArg r0) w4 w5"
      by (auto intro: traces_mono [OF adds_traces] P2)
    have u5: "upToHandle env job w = (case x5 of Inl e \<Rightarrow> Rejected e | Inr c \<Rightarrow> Fulfilled c, w5)"
      unfolding upToHandle_def using u4' s5
      by (simp add: then_call_def split: sum.splits)
    show ?thesis
    proof (cases x5)
      case (Inl e)
      with u5 have "upToHandle env job w = (Rejected e, w5)" by simp
      then have "jobHandler env job w = (Rejected e, w5)"
        by (simp add: jobHandler_stages upToApplyEvents_def then_call_def then_promise_def)
      with run t4 t5 show ?thesis by (auto intro: traces_trans)
    next
      case (Inr ctx5)
      with u5 have u5': "upToHandle env job w = (Fulfilled ctx5, w5)" by simp
      obtain x6 w6 where s6: "applyEvents env ctx5 ?cmd w5 = (x6, w6)"
        by (cases "applyEvents env ctx5 ?cmd w5")
      then have t6: "traces (roomArg r0) w5 w6"
        by (auto simp: applyEvents_def dest!: forEach_traces intro: traces_mono [OF adds_traces] P3)
      have u6: "upToApplyEvents env job w = (case x6 of Inl e \<Rightarrow> Rejected e | Inr c \<Rightarrow> Fulfilled c, w6)"
        unfolding upToApplyEvents_def using u5' s6
        by (simp add: then_call_def split: sum.splits)
      show ?thesis
      proof (cases x6)
        case (Inl e)
        with u6 have "upToApplyEvents env job w = (Rejected e, w6)" by simp
        then have "jobHandler env job w = (Rejected e, w6)"
          by (rule upToApplyEvents_Rejected)
        with run t4 t5 t6 show ?thesis by (auto intro: traces_trans)
      next
        case (Inr ctx6)
        with u6 have u6': "upToApplyEvents env job w = (Fulfilled ctx6, w6)" by simp
        obtain x7 w7 where s7: "saveRoomBackToStore env ctx6 w6 = (x7, w7)"
          by (cases "saveRoomBackToStore env ctx6 w6")
        then have t7: "traces (roomArg r0) w6 w7"
          by (auto dest!: saveRoomBackToStore_traces intro: traces_mono P4)
        from u6' s7 have "snd (jobHandler env job w) = w7"
          by (simp add: jobHandler_stages then_call_def then_promise_def split: promise.splits)
        with run have "w' = w7" by simp
        with t4 t5 t6 t7 show ?thesis by (auto intro: traces_trans)
      qed
    qed
  qed
qed

lemma upToLoadRoom_Rejected:
  "upToLoadRoom env job w = (Rejected e, w') \<Longrightarrow> jobHandler env job w = (Rejected e, w')"
  by (simp add: jobHandler_stages upToApplyEvents_def upToHandle_def upToPreConditions_def
      then_call_def then_promise_def)

lemma upToPreConditions_Rejected:
  "upToPreConditions env job w = (Rejected e, w') \<Longrightarrow> jobHandler env job w = (Rejected e, w')"
  by (simp add: jobHandler_stages upToApplyEvents_def upToHandle_def
      then_call_def then_promise_def)

lemma upToHandle_Rejected_job:
  "upToHandle env job w = (Rejected e, w') \<Longrightarrow> jobHandler env job w = (Rejected e, w')"
  by (simp add: jobHandler_stages upToApplyEvents_def then_call_def then_promise_def)

lemma upToLoadRoom_eq:
  assumes "upToGetCommandHandler env job w = (Fulfilled ctx, w0)"
  shows "upToLoadRoom env job w = loadRoom env ctx (j_command job) w0"
  using assms by (simp add: upToLoadRoom_def then_promise_def)

lemma ex_stage2_join:
  "upToGetCommandHandler exEnv \<lparr>j_command = exJoin, j_userId = None\<rparr> exWorld =
     (Fulfilled ((initialContext \<lparr>j_command = exJoin, j_userId = None\<rparr>)
                   \<lparr>handler := Some exJoinRoom\<rparr>), exWorld)"
  by (simp add: upToGetCommandHandler_eq exEnv_def plainObject_def exRegistered_def Object_prototype_def exJoin_def)

lemma ex_stage2_setUsername:
  "upToGetCommandHandler exEnv \<lparr>j_command = exSetUsername u, j_userId = uid\<rparr> exWorld =
     (Fulfilled ((initialContext \<lparr>j_command = exSetUsername u, j_userId = uid\<rparr>)
                   \<lparr>handler := Some setUsername\<rparr>), exWorld)"
  by (simp add: upToGetCommandHandler_eq exEnv_def plainObject_def exRegistered_def Object_prototype_def exSetUsername_def)

lemma ex_stage2_stale:
  "upToGetCommandHandler exEnv \<lparr>j_command = exStale, j_userId = uid\<rparr> exWorld =
     (Fulfilled ((initialContext \<lparr>j_command = exStale, j_userId = uid\<rparr>)
                   \<lparr>handler := Some setUsername\<rparr>), exWorld)"
  by (simp add: upToGetCommandHandler_eq exEnv_def plainObject_def exRegistered_def Object_prototype_def exStale_def)

lemma ex_load:
  "getRoomById exEnv (store exWorld) (c_roomId exJoin) = Inr None"
  "getRoomById exEnv (store exWorld) (c_roomId exStale) = Inr None"
  "getRoomById exEnv (store exWorld) (c_roomId (exSetUsername u)) = Inr (Some exRoom)"
  by (simp_all add: exEnv_def plainObject_def exRegistered_def Object_prototype_def exWorld_def exJoin_def exStale_def exSetUsername_def)


lemma ex_lookup:
  "eventHandlers exEnv ''roomCreated'' = Some exRoomCreated"
  "eventHandlers exEnv ''joinedRoom'' = Some exJoinedRoom"
  "eventHandlers exEnv ''usernameSet'' = Some exUsernameSet"
  "eventHandlers exEnv ''roomExploded'' = None"
  by (simp_all add: exEnv_def plainObject_def exRegistered_def Object_prototype_def)

lemma upToPreConditions_eq:
  assumes "upToLoadRoom env job w = (Fulfilled ctx, w3)"
  shows "upToPreConditions env job w =
     (case preConditions ctx (j_command job) w3 of
        (Inl e, w') \<Rightarrow> (Rejected e, w')
      | (Inr y, w') \<Rightarrow> (Fulfilled y, w'))"
  using assms by (simp add: upToPreConditions_def then_call_Fulfilled)

lemma upToHandle_eq:
  assumes "upToPreConditions env job w = (Fulfilled ctx, w4)"
  shows "upToHandle env job w =
     (case handle env ctx (j_command job) w4 of
        (Inl e, w') \<Rightarrow> (Rejected e, w')
      | (Inr y, w') \<Rightarrow> (Fulfilled y, w'))"
  using assms by (simp add: upToHandle_def then_call_Fulfilled)


lemma applyEvent_eq:
  "applyEvent env n p q =
     (case eventHandlers env n of
        None \<Rightarrow> Inl (Error (''Cannot apply unknown event '' @ n))
      | Some eh \<Rightarrow> Inr (q @ [deferredOf env (n, p)]))"
  by (simp add: applyEvent_def deferredOf_def split: option.splits)

lemma execute_performed:
  "execute env prog q =
     (case performed env prog of
        (calls, Some e) \<Rightarrow> Inl e
      | (calls, None) \<Rightarrow> Inr (q @ map (deferredOf env) calls))"
proof (induction prog arbitrary: q)
  case Return
  show ?case by simp
next
  case (Throw e)
  show ?case by simp
next
  case (ApplyEvent n p rest)
  show ?case
    by (cases "eventHandlers env n")
      (simp_all add: applyEvent_eq ApplyEvent.IH split: prod.splits option.splits)
next
  case (TryApplyEvent n p rest onError)
  show ?case
  proof (cases "eventHandlers env n")
    case None
    have "onError (Error (''Cannot apply unknown event '' @ n)) \<in> range onError" by simp
    from TryApplyEvent.IH(2) [OF this] None show ?thesis
      by (simp add: applyEvent_eq)
  next
    case (Some eh)
    then show ?thesis
      by (simp add: applyEvent_eq TryApplyEvent.IH(1) split: prod.splits option.splits)
  qed
qed

lemma performed_known:
  "performed env prog = (calls, t) \<Longrightarrow> \<forall>c \<in> set calls. eventHandlers env (fst c) \<noteq> None"
proof (induction prog arbitrary: calls t)
  case Return
  then show ?case by simp
next
  case (Throw e)
  then show ?case by simp
next
  case (ApplyEvent n p rest)
  then show ?case
    by (cases "eventHandlers env n") (auto split: prod.splits)
next
  case (TryApplyEvent n p rest onError)
  show ?case
  proof (cases "eventHandlers env n")
    case None
    have "onError (Error (''Cannot apply unknown event '' @ n)) \<in> range onError" by simp
    from TryApplyEvent.IH(2) [OF this] TryApplyEvent.prems None show ?thesis by simp
  next
    case (Some eh)
    with TryApplyEvent.prems TryApplyEvent.IH(1) show ?thesis
      by (auto split: prod.splits)
  qed
qed

lemma uncaught_execute:
  "uncaught env prog = Some n \<Longrightarrow>
   eventHandlers env n = None
   \<and> execute env prog q = Inl (Error (''Cannot apply unknown event '' @ n))"
proof (induction prog arbitrary: q)
  case Return
  then show ?case by simp
next
  case (Throw e)
  then show ?case by simp
next
  case (ApplyEvent m p rest)
  then show ?case
    by (cases "eventHandlers env m") (simp_all add: applyEvent_eq)
next
  case (TryApplyEvent m p rest onError)
  show ?case
  proof (cases "eventHandlers env m")
    case None
    have "onError (Error (''Cannot apply unknown event '' @ m)) \<in> range onError" by simp
    from TryApplyEvent.IH(2) [OF this] TryApplyEvent.prems None show ?thesis
      by (simp add: applyEvent_eq)
  next
    case (Some eh)
    with TryApplyEvent.prems TryApplyEvent.IH(1) show ?thesis
      by (simp add: applyEvent_eq)
  qed
qed


lemma outputs_length: "outputs ds r = Some outs \<Longrightarrow> length outs = length ds"
  by (induction ds arbitrary: r outs) (auto split: sum.splits option.splits returned.splits)

lemma outputs_nth:
  "outputs ds r = Some outs \<Longrightarrow> i < length ds \<Longrightarrow>
   d_eventHandler (ds ! i) ((r # map Some outs) ! i) (d_eventPayload (ds ! i)) = Inr (Room (outs ! i))"
proof (induction ds arbitrary: r outs i)
  case Nil
  then show ?case by simp
next
  case (Cons d ds)
  from Cons.prems(1) obtain u outs' where
    u: "d_eventHandler d r (d_eventPayload d) = Inr (Room u)"
    and o: "outputs ds (Some u) = Some outs'" and outs: "outs = u # outs'"
    by (auto split: sum.splits option.splits returned.splits)
  show ?case
  proof (cases i)
    case 0
    with u outs show ?thesis by simp
  next
    case (Suc j)
    with Cons.prems(2) have "j < length ds" by simp
    from Cons.IH [OF o this] Suc outs show ?thesis by simp
  qed
qed

lemma evtHandler_Inr:
  assumes "evtHandler env cmd d ctx w = (Inr ctx', w')"
  shows "\<exists>u. d_eventHandler d (room ctx) (d_eventPayload d) = Inr (Room u)
     \<and> ctx' = ctx\<lparr>eventsToSend := eventsToSend ctx @ [eventOf env cmd (userId ctx) (uuidCalls w, d, u)],
                 room := Some u\<rparr>
     \<and> w' = w\<lparr>uuidCalls := Suc (uuidCalls w), trace := trace w @ [callOf (d, room ctx)]\<rparr>"
  using assms
  by (auto simp: evtHandler_def Let_def add_effect_def eventOf_def callOf_def
      split: sum.splits option.splits returned.splits)

lemma forEach_Inr:
  assumes "forEach env cmd ds ctx w = (Inr ctx', w')"
  shows "\<exists>outs. outputs ds (room ctx) = Some outs
     \<and> eventsToSend ctx' = eventsToSend ctx @
          map (eventOf env cmd (userId ctx)) (enumerate (uuidCalls w) (zip ds outs))
     \<and> room ctx' = last (room ctx # map Some outs)
     \<and> userId ctx' = userId ctx
     \<and> uuidCalls w' = uuidCalls w + length ds
     \<and> getTimeCalls w' = getTimeCalls w
     \<and> store w' = store w
     \<and> trace w' = trace w @ map callOf (zip ds (room ctx # map Some outs))"
  using assms
proof (induction ds arbitrary: ctx w)
  case Nil
  then show ?case by simp
next
  case (Cons d ds)
  from Cons.prems obtain ctx1 w1 where
    s1: "evtHandler env cmd d ctx w = (Inr ctx1, w1)"
    and s2: "forEach env cmd ds ctx1 w1 = (Inr ctx', w')"
    by (auto split: prod.splits sum.splits)
  from evtHandler_Inr [OF s1] obtain u where
    u: "d_eventHandler d (room ctx) (d_eventPayload d) = Inr (Room u)"
    and c1: "ctx1 = ctx\<lparr>eventsToSend := eventsToSend ctx @ [eventOf env cmd (userId ctx) (uuidCalls w, d, u)],
                 room := Some u\<rparr>"
    and w1: "w1 = w\<lparr>uuidCalls := Suc (uuidCalls w), trace := trace w @ [callOf (d, room ctx)]\<rparr>"
    by blast
  from Cons.IH [OF s2] obtain outs where
    o: "outputs ds (room ctx1) = Some outs"
    and rest: "eventsToSend ctx' = eventsToSend ctx1 @
          map (eventOf env cmd (userId ctx1)) (enumerate (uuidCalls w1) (zip ds outs))"
      "room ctx' = last (room ctx1 # map Some outs)"
      "userId ctx' = userId ctx1"
      "uuidCalls w' = uuidCalls w1 + length ds"
      "getTimeCalls w' = getTimeCalls w1"
      "store w' = store w1"
      "trace w' = trace w1 @ map callOf (zip ds (room ctx1 # map Some outs))"
    by blast
  from u o c1 have "outputs (d # ds) (room ctx) = Some (u # outs)" by simp
  moreover from rest c1 w1 have
    "eventsToSend ctx' = eventsToSend ctx @
          map (eventOf env cmd (userId ctx)) (enumerate (uuidCalls w) (zip (d # ds) (u # outs)))"
    "room ctx' = last (room ctx # map Some (u # outs))"
    "userId ctx' = userId ctx"
    "uuidCalls w' = uuidCalls w + length (d # ds)"
    "getTimeCalls w' = getTimeCalls w"
    "store w' = store w"
    "trace w' = trace w @ map callOf (zip (d # ds) (room ctx # map Some (u # outs)))"
    by simp_all
  ultimately show ?case by blast
qed

lemma execute_Inr:
  assumes "execute env prog q0 = Inr q"
  shows "\<exists>calls. performed env prog = (calls, None)
     \<and> q = q0 @ map (deferredOf env) calls
     \<and> (\<forall>c \<in> set calls. eventHandlers env (fst c) \<noteq> None)"
proof -
  obtain calls t where p: "performed env prog = (calls, t)" by (cases "performed env prog")
  with assms have "t = None" and "q = q0 @ map (deferredOf env) calls"
    by (auto simp: execute_performed split: option.splits)
  with p performed_known [OF p] show ?thesis by blast
qed

lemma handle_Inr:
  assumes "handle env ctx cmd w = (Inr ctx', w')"
  shows "\<exists>h r calls. handler ctx = Some h \<and> room ctx = Some r \<and> performed env (fn h r cmd) = (calls, None)
     \<and> (\<forall>c \<in> set calls. eventHandlers env (fst c) \<noteq> None)
     \<and> ctx' = ctx\<lparr>eventHandlingQueue := map (deferredOf env) calls, eventsToSend := []\<rparr>
     \<and> w' = add_effect (CallFn r cmd) w"
proof -
  from assms obtain h r q where
    h: "handler ctx = Some h" "room ctx = Some r"
    and e: "execute env (fn h r cmd) [] = Inr q"
    and c: "ctx' = ctx\<lparr>eventHandlingQueue := q, eventsToSend := []\<rparr>"
    and w: "w' = add_effect (CallFn r cmd) w"
    by (auto simp: handle_def split: option.splits sum.splits)
  from execute_Inr [OF e] h c w show ?thesis by auto
qed

lemma upToPreConditions_FulfilledD:
  assumes "upToPreConditions env job w = (Fulfilled ctx, w4)"
  shows "\<exists>h loaded. commandHandlers env (c_name (j_command job)) = Some h
           \<and> getRoomById env (store w) (c_roomId (j_command job)) = Inr loaded
           \<and> ctx = (initialContext job)\<lparr>handler := Some h, room := Some (roomOrEmpty loaded)\<rparr>
           \<and> uuidCalls w4 = uuidCalls w \<and> getTimeCalls w4 = getTimeCalls w
           \<and> adds beforeApply w w4"
proof -
  from assms obtain ctx3 w3 where
    a: "upToLoadRoom env job w = (Fulfilled ctx3, w3)"
    and b: "preConditions ctx3 (j_command job) w3 = (Inr ctx, w4)"
    unfolding upToPreConditions_def by (auto elim: then_call_cases)
  from upToLoadRoom_FulfilledD [OF a] obtain h loaded where
    h: "commandHandlers env (c_name (j_command job)) = Some h"
      "getRoomById env (store w) (c_roomId (j_command job)) = Inr loaded"
      "ctx3 = (initialContext job)\<lparr>handler := Some h, room := Some (roomOrEmpty loaded)\<rparr>"
      "w3 = add_effect (GetRoomById (c_roomId (j_command job))) w"
    by blast
  from b have "ctx = ctx3" and "uuidCalls w4 = uuidCalls w3" and "getTimeCalls w4 = getTimeCalls w3"
    by (auto simp: preConditions_def add_effect_def split: option.splits)
  moreover have "adds beforeApply w w3"
    using h(4) by (simp add: adds_add_effect beforeApply_def)
  moreover have "adds beforeApply w3 w4" using b by (rule preConditions_adds)
  ultimately show ?thesis using h by (auto simp: add_effect_def intro: adds_trans)
qed

lemma upToHandle_FulfilledD:
  assumes "upToHandle env job w = (Fulfilled ctx, w5)"
  shows "\<exists>h r calls ctx4 w4. commandHandlers env (c_name (j_command job)) = Some h
           \<and> upToPreConditions env job w = (Fulfilled ctx4, w4)
           \<and> performed env (fn h r (j_command job)) = (calls, None)
           \<and> (\<forall>c \<in> set calls. eventHandlers env (fst c) \<noteq> None)
           \<and> handler ctx = Some h \<and> room ctx = Some r \<and> userId ctx = j_userId job
           \<and> eventHandlingQueue ctx = map (deferredOf env) calls
           \<and> eventsToSend ctx = []
           \<and> w5 = add_effect (CallFn r (j_command job)) w4
           \<and> uuidCalls w5 = uuidCalls w \<and> getTimeCalls w5 = getTimeCalls w
           \<and> store w5 = store w"
proof -
  from assms obtain ctx4 w4 where
    a: "upToPreConditions env job w = (Fulfilled ctx4, w4)"
    and b: "handle env ctx4 (j_command job) w4 = (Inr ctx, w5)"
    unfolding upToHandle_def by (auto elim: then_call_cases)
  from upToPreConditions_FulfilledD [OF a] obtain h loaded where
    h: "commandHandlers env (c_name (j_command job)) = Some h"
      "ctx4 = (initialContext job)\<lparr>handler := Some h, room := Some (roomOrEmpty loaded)\<rparr>"
      "uuidCalls w4 = uuidCalls w" "getTimeCalls w4 = getTimeCalls w" "adds beforeApply w w4"
    by blast
  from handle_Inr [OF b] obtain h' r calls where
    c: "handler ctx4 = Some h'" "room ctx4 = Some r" "performed env (fn h' r (j_command job)) = (calls, None)"
      "\<forall>c \<in> set calls. eventHandlers env (fst c) \<noteq> None"
      "ctx = ctx4\<lparr>eventHandlingQueue := map (deferredOf env) calls, eventsToSend := []\<rparr>"
      "w5 = add_effect (CallFn r (j_command job)) w4"
    by blast
  from h(2) c(1) have "h' = h" by simp
  with h c a adds_store [OF h(5)] show ?thesis
    by (auto simp: add_effect_def initialContext_def)
qed


lemma saveRoomBackToStore_Fulfilled:
  assumes "saveRoomBackToStore env ctx w = (Fulfilled ctx', w')"
  shows "\<exists>r. room ctx = Some r
     \<and> ctx' = ctx\<lparr>room := Some (Map_set r ''lastActivity'' (JNum (getTime env (getTimeCalls w))))\<rparr>
     \<and> saveRoom env (store w) (Map_set r ''lastActivity'' (JNum (getTime env (getTimeCalls w))))
          = Inr (store w')
     \<and> trace w' = trace w @ [SaveRoom (Map_set r ''lastActivity'' (JNum (getTime env (getTimeCalls w))))]
     \<and> getTimeCalls w' = Suc (getTimeCalls w)
     \<and> uuidCalls w' = uuidCalls w"
  using assms
  by (auto simp: saveRoomBackToStore_def stampRoom_def saveRoomSettles_def Let_def add_effect_def
      split: option.splits sum.splits returned.splits)

lemma jobHandler_FulfilledD:
  assumes "jobHandler env job w = (Fulfilled evs, w')"
  shows "\<exists>ctx6 w6 ctx7. upToApplyEvents env job w = (Fulfilled ctx6, w6)
     \<and> saveRoomBackToStore env ctx6 w6 = (Fulfilled ctx7, w')
     \<and> evs = eventsToSend ctx6"
proof -
  from assms [unfolded jobHandler_stages] show ?thesis
  proof (cases rule: then_call_cases)
    case (returns ctx7 w7 y)
    then have e: "evs = eventsToSend ctx7" "w' = w7" by auto
    from returns(1) show ?thesis
    proof (cases rule: then_promise_cases)
      case (fulfilled ctx6 w6)
      moreover from saveRoomBackToStore_Fulfilled [OF fulfilled(2)]
      have "eventsToSend ctx7 = eventsToSend ctx6" by auto
      ultimately show ?thesis using e by auto
    qed simp
  qed simp_all
qed

lemma upToApplyEvents_FulfilledD:
  assumes "upToApplyEvents env job w = (Fulfilled ctx6, w6)"
  shows "\<exists>ctx5 w5. upToHandle env job w = (Fulfilled ctx5, w5)
     \<and> applyEvents env ctx5 (j_command job) w5 = (Inr ctx6, w6)"
  using assms unfolding upToApplyEvents_def by (auto elim: then_call_cases)

lemma callOf_zip:
  assumes "length outs = length calls"
  shows "map callOf (zip (map (deferredOf env) calls) (Some r # map Some outs)) =
     map (\<lambda>i. CallEventHandler (fst (calls ! i)) (Some ((r # outs) ! i)) (snd (calls ! i)))
       [0..<length calls]"
proof (rule nth_equalityI)
  show "length (map callOf (zip (map (deferredOf env) calls) (Some r # map Some outs))) =
    length (map (\<lambda>i. CallEventHandler (fst (calls ! i)) (Some ((r # outs) ! i)) (snd (calls ! i)))
       [0..<length calls])"
    using assms by simp
next
  fix i
  assume "i < length (map callOf (zip (map (deferredOf env) calls) (Some r # map Some outs)))"
  with assms have i: "i < length calls" by simp
  have "(Some r # map Some outs) ! i = Some ((r # outs) ! i)"
    using i assms by (metis length_Cons less_Suc_eq list.simps(9) nth_map)
  with i assms show "map callOf (zip (map (deferredOf env) calls) (Some r # map Some outs)) ! i =
    map (\<lambda>i. CallEventHandler (fst (calls ! i)) (Some ((r # outs) ! i)) (snd (calls ! i)))
       [0..<length calls] ! i"
    by (simp add: callOf_def deferredOf_def)
qed

lemma applyEvents_after_handle:
  assumes h5: "upToHandle env job w = (Fulfilled ctx, w5)"
    and a6: "applyEvents env ctx (j_command job) w5 = (Inr ctx', w6)"
  shows "\<exists>h r calls outs.
       commandHandlers env (c_name (j_command job)) = Some h
     \<and> handler ctx = Some h \<and> room ctx = Some r
     \<and> performed env (fn h r (j_command job)) = (calls, None)
     \<and> CallFn r (j_command job) \<in> set (newEffects w w5)
     \<and> length outs = length calls
     \<and> outputs (map (deferredOf env) calls) (Some r) = Some outs
     \<and> (\<forall>c \<in> set calls. eventHandlers env (fst c) \<noteq> None)
     \<and> trace w6 = trace w5 @ map callOf (zip (map (deferredOf env) calls) (Some r # map Some outs))
     \<and> eventsToSend ctx' = map (eventOf env (j_command job) (j_userId job))
          (enumerate (uuidCalls w) (zip (map (deferredOf env) calls) outs))
     \<and> room ctx' = Some (last (r # outs))
     \<and> uuidCalls w6 = uuidCalls w + length calls
     \<and> getTimeCalls w6 = getTimeCalls w
     \<and> store w6 = store w"
proof -
  from upToHandle_FulfilledD [OF h5] obtain h r calls ctx4 w4 where
    f: "commandHandlers env (c_name (j_command job)) = Some h"
      "upToPreConditions env job w = (Fulfilled ctx4, w4)"
      "performed env (fn h r (j_command job)) = (calls, None)"
      "\<forall>c \<in> set calls. eventHandlers env (fst c) \<noteq> None"
      "handler ctx = Some h" "room ctx = Some r" "userId ctx = j_userId job"
      "eventHandlingQueue ctx = map (deferredOf env) calls"
      "eventsToSend ctx = []"
      "w5 = add_effect (CallFn r (j_command job)) w4"
      "uuidCalls w5 = uuidCalls w" "getTimeCalls w5 = getTimeCalls w" "store w5 = store w"
    by blast
  from upToPreConditions_FulfilledD [OF f(2)] have "adds beforeApply w w4" by blast
  with f(10) have cf: "CallFn r (j_command job) \<in> set (newEffects w w5)"
    by (auto simp: adds_def newEffects_def add_effect_def)
  from a6 f(8) have "forEach env (j_command job) (map (deferredOf env) calls) ctx w5 = (Inr ctx', w6)"
    by (simp add: applyEvents_def)
  from forEach_Inr [OF this] f obtain outs where
    o: "outputs (map (deferredOf env) calls) (Some r) = Some outs"
      "eventsToSend ctx' = map (eventOf env (j_command job) (j_userId job))
          (enumerate (uuidCalls w) (zip (map (deferredOf env) calls) outs))"
      "room ctx' = last (Some r # map Some outs)"
      "uuidCalls w6 = uuidCalls w + length calls"
      "getTimeCalls w6 = getTimeCalls w"
      "store w6 = store w"
      "trace w6 = trace w5 @ map callOf (zip (map (deferredOf env) calls) (Some r # map Some outs))"
    by auto
  from outputs_length [OF o(1)] have len: "length outs = length calls" by simp
  have "last (Some r # map Some outs) = Some (last (r # outs))"
    by (metis last_map list.discI list.simps(9))
  with o f cf len show ?thesis by auto
qed

lemma outputs_deferredOf_nth:
  assumes "outputs (map (deferredOf env) calls) (Some r) = Some outs"
    and "\<forall>c \<in> set calls. eventHandlers env (fst c) \<noteq> None"
    and "i < length calls"
  shows "\<exists>eh. eventHandlers env (fst (calls ! i)) = Some eh
     \<and> eh (Some ((r # outs) ! i)) (snd (calls ! i)) = Inr (Room (outs ! i))"
proof -
  from assms(3) have i: "i < length (map (deferredOf env) calls)" by simp
  from outputs_length [OF assms(1)] have len: "length outs = length calls" by simp
  have "(Some r # map Some outs) ! i = Some ((r # outs) ! i)"
    using assms(3) len by (metis length_Cons less_Suc_eq list.simps(9) nth_map)
  with outputs_nth [OF assms(1) i] assms(3)
  have "the (eventHandlers env (fst (calls ! i))) (Some ((r # outs) ! i)) (snd (calls ! i))
      = Inr (Room (outs ! i))"
    by (simp add: deferredOf_def)
  moreover from assms(2,3) obtain eh where "eventHandlers env (fst (calls ! i)) = Some eh"
    by (metis nth_mem option.exhaust)
  ultimately show ?thesis by auto
qed


lemma ex_stage5_join:
  "upToHandle exEnv \<lparr>j_command = exJoin, j_userId = None\<rparr> exWorld =
     (Fulfilled \<lparr>userId = None, handler = Some exJoinRoom, room = Some Map.empty,
        eventHandlingQueue =
          [\<lparr>d_eventName = ''roomCreated'', d_eventHandler = exRoomCreated,
            d_eventPayload = c_payload exJoin\<rparr>,
           \<lparr>d_eventName = ''joinedRoom'', d_eventHandler = exJoinedRoom,
            d_eventPayload = c_payload exJoin\<rparr>],
        eventsToSend = []\<rparr>,
      exWorld\<lparr>trace := [GetRoomById None, CallFn Map.empty exJoin]\<rparr>)"
  by (simp add: pipeline_defs exEnv_def plainObject_def exRegistered_def Object_prototype_def exWorld_def exJoin_def exJoinRoom_def)

lemma ex_stage6_join:
  "applyEvents exEnv \<lparr>userId = None, handler = Some exJoinRoom, room = Some Map.empty,
        eventHandlingQueue =
          [\<lparr>d_eventName = ''roomCreated'', d_eventHandler = exRoomCreated,
            d_eventPayload = c_payload exJoin\<rparr>,
           \<lparr>d_eventName = ''joinedRoom'', d_eventHandler = exJoinedRoom,
            d_eventPayload = c_payload exJoin\<rparr>],
        eventsToSend = []\<rparr> exJoin
      (exWorld\<lparr>trace := [GetRoomById None, CallFn Map.empty exJoin]\<rparr>) =
   (Inr \<lparr>userId = None, handler = Some exJoinRoom,
      room = Some [''id'' \<mapsto> JStr ''r2'',
                   ''joined'' \<mapsto> JObj [(''userId'', JStr ''u2''), (''in'', JStr ''r2'')]],
      eventHandlingQueue =
          [\<lparr>d_eventName = ''roomCreated'', d_eventHandler = exRoomCreated,
            d_eventPayload = c_payload exJoin\<rparr>,
           \<lparr>d_eventName = ''joinedRoom'', d_eventHandler = exJoinedRoom,
            d_eventPayload = c_payload exJoin\<rparr>],
      eventsToSend =
          [\<lparr>evt_id = ''uuid-'', evt_userId = None, evt_correlationId = ''c2'',
            evt_name = ''roomCreated'', evt_roomId = JStr ''r2'', evt_payload = c_payload exJoin\<rparr>,
           \<lparr>evt_id = ''uuid-i'', evt_userId = None, evt_correlationId = ''c2'',
            evt_name = ''joinedRoom'', evt_roomId = JStr ''r2'', evt_payload = c_payload exJoin\<rparr>]\<rparr>,
    exWorld\<lparr>uuidCalls := 2,
      trace := [GetRoomById None, CallFn Map.empty exJoin,
                CallEventHandler ''roomCreated'' (Some Map.empty) (c_payload exJoin),
                CallEventHandler ''joinedRoom'' (Some [''id'' \<mapsto> JStr ''r2'']) (c_payload exJoin)]\<rparr>)"
  by (simp add: pipeline_defs exEnv_def plainObject_def exRegistered_def Object_prototype_def exWorld_def exJoin_def exJoinRoom_def exRoomCreated_def
      exJoinedRoom_def)



lemma eventOf_nth:
  assumes "length outs = length calls" and "i < length calls"
  shows "map (eventOf env cmd uid) (enumerate k (zip (map (deferredOf env) calls) outs)) ! i =
     \<lparr>evt_id = uuid env (k + i), evt_userId = uid, evt_correlationId = c_id cmd,
      evt_name = fst (calls ! i), evt_roomId = Map_get (outs ! i) ''id'',
      evt_payload = snd (calls ! i)\<rparr>"
  using assms by (simp add: nth_enumerate_eq eventOf_def deferredOf_def)

lemma ex_uuid_inj: "inj (uuid exEnv)"
  by (rule injI) (simp add: exEnv_def plainObject_def exRegistered_def Object_prototype_def)

lemma ex_join_run:
  "processCommand exEnv exJoin None exWorld =
     (Inr (Fulfilled
          [\<lparr>evt_id = ''uuid-'', evt_userId = None, evt_correlationId = ''c2'',
            evt_name = ''roomCreated'', evt_roomId = JStr ''r2'', evt_payload = c_payload exJoin\<rparr>,
           \<lparr>evt_id = ''uuid-i'', evt_userId = None, evt_correlationId = ''c2'',
            evt_name = ''joinedRoom'', evt_roomId = JStr ''r2'', evt_payload = c_payload exJoin\<rparr>]),
      \<lparr>store = [''r1'' \<mapsto> exRoom,
         ''r2'' \<mapsto> [''id'' \<mapsto> JStr ''r2'',
                   ''joined'' \<mapsto> JObj [(''userId'', JStr ''u2''), (''in'', JStr ''r2'')],
                   ''lastActivity'' \<mapsto> JNum 1000]],
       uuidCalls = 2, getTimeCalls = 1,
       trace = [GetRoomById None, CallFn Map.empty exJoin,
                CallEventHandler ''roomCreated'' (Some Map.empty) (c_payload exJoin),
                CallEventHandler ''joinedRoom'' (Some [''id'' \<mapsto> JStr ''r2'']) (c_payload exJoin),
                SaveRoom [''id'' \<mapsto> JStr ''r2'',
                   ''joined'' \<mapsto> JObj [(''userId'', JStr ''u2''), (''in'', JStr ''r2'')],
                   ''lastActivity'' \<mapsto> JNum 1000]]\<rparr>)"
  by (simp add: pipeline_defs Let_def exEnv_def plainObject_def exRegistered_def Object_prototype_def exWorld_def exJoin_def exJoinRoom_def
      exRoomCreated_def exJoinedRoom_def)



lemma ex_empty_name: "commandSchemaValidator exEnv exEmptyName = Some (Error ''Command validation Error'')"
  by (simp add: exEnv_def plainObject_def exRegistered_def Object_prototype_def exEmptyName_def)

lemma ex_break_handle:
  "handle exEnv ((initialContext \<lparr>j_command = exBreak, j_userId = None\<rparr>)
                   \<lparr>handler := Some exBroken, room := Some Map.empty\<rparr>) exBreak
     (add_effect (GetRoomById None) exWorld) =
   (Inl (Error ''Cannot apply unknown event roomExploded''),
    add_effect (CallFn Map.empty exBreak) (add_effect (GetRoomById None) exWorld))"
  by (simp add: handle_def applyEvent_def exBroken_def exEnv_def plainObject_def exRegistered_def Object_prototype_def)


lemma savedRooms_append: "savedRooms (xs @ ys) = savedRooms xs @ savedRooms ys"
  by (induction xs rule: savedRooms.induct) simp_all

lemma savedRooms_none: "\<forall>x \<in> set ts. \<not> isSaveRoom x \<Longrightarrow> savedRooms ts = []"
  by (induction ts rule: savedRooms.induct) simp_all

lemma saveRoomBackToStore_cases:
  assumes "saveRoomBackToStore env ctx w = (x, w')"
  obtains (noRoom) "w' = w"
  | (called) r where "room ctx = Some r"
      "trace w' = trace w @ [SaveRoom (Map_set r ''lastActivity'' (JNum (getTime env (getTimeCalls w))))]"
      "getTimeCalls w' = Suc (getTimeCalls w)"
  using assms
  by (auto simp: saveRoomBackToStore_def stampRoom_def saveRoomSettles_def Let_def add_effect_def
      split: option.splits sum.splits returned.splits)

lemma jobHandler_saves:
  assumes "jobHandler env job w = (p, w')"
  shows "\<exists>ts. trace w' = trace w @ ts
     \<and> map (\<lambda>r. Map_get r ''lastActivity'') (savedRooms ts) =
         map (\<lambda>k. JNum (getTime env k)) [getTimeCalls w..<getTimeCalls w']
     \<and> getTimeCalls w \<le> getTimeCalls w'"
proof -
  obtain x6 w6 where u6: "upToApplyEvents env job w = (x6, w6)"
    by (cases "upToApplyEvents env job w")
  from upToApplyEvents_adds [OF u6] obtain ts6 where
    t6: "trace w6 = trace w @ ts6" "\<forall>x \<in> set ts6. \<not> isSaveRoom x"
      "getTimeCalls w6 = getTimeCalls w"
    by (auto simp: adds_def)
  then have s6: "savedRooms ts6 = []" by (simp add: savedRooms_none)
  show ?thesis
  proof (cases x6)
    case (Rejected e)
    with u6 have "jobHandler env job w = (Rejected e, w6)"
      by (simp add: upToApplyEvents_Rejected)
    with assms t6 s6 show ?thesis by auto
  next
    case (Fulfilled ctx6)
    obtain x7 w7 where s7: "saveRoomBackToStore env ctx6 w6 = (x7, w7)"
      by (cases "saveRoomBackToStore env ctx6 w6")
    with u6 Fulfilled have "snd (jobHandler env job w) = w7"
      by (simp add: jobHandler_stages then_call_def then_promise_def split: promise.splits)
    with assms have w': "w' = w7" by simp
    from s7 show ?thesis
    proof (cases rule: saveRoomBackToStore_cases)
      case noRoom
      with w' t6 s6 show ?thesis by auto
    next
      case (called r)
      with w' t6 s6 show ?thesis
        by (auto simp: savedRooms_append Map_get_def Map_set_def)
    qed
  qed
qed

lemma runJobs_saves:
  assumes "runJobs env jobs w = (ps, w')"
  shows "\<exists>ts. trace w' = trace w @ ts
     \<and> map (\<lambda>r. Map_get r ''lastActivity'') (savedRooms ts) =
         map (\<lambda>k. JNum (getTime env k)) [getTimeCalls w..<getTimeCalls w']
     \<and> getTimeCalls w \<le> getTimeCalls w'"
  using assms
proof (induction jobs arbitrary: w ps)
  case Nil
  then show ?case by simp
next
  case (Cons j js)
  from Cons.prems obtain p w1 ps' where
    a: "jobHandler env j w = (p, w1)" and b: "runJobs env js w1 = (ps', w')"
    by (auto split: prod.splits)
  from jobHandler_saves [OF a] obtain ts1 where
    1: "trace w1 = trace w @ ts1"
      "map (\<lambda>r. Map_get r ''lastActivity'') (savedRooms ts1) =
         map (\<lambda>k. JNum (getTime env k)) [getTimeCalls w..<getTimeCalls w1]"
      "getTimeCalls w \<le> getTimeCalls w1"
    by blast
  from Cons.IH [OF b] obtain ts2 where
    2: "trace w' = trace w1 @ ts2"
      "map (\<lambda>r. Map_get r ''lastActivity'') (savedRooms ts2) =
         map (\<lambda>k. JNum (getTime env k)) [getTimeCalls w1..<getTimeCalls w']"
      "getTimeCalls w1 \<le> getTimeCalls w'"
    by blast
  have "[getTimeCalls w..<getTimeCalls w'] =
      [getTimeCalls w..<getTimeCalls w1] @ [getTimeCalls w1..<getTimeCalls w']"
    using 1(3) 2(3) by (metis le_Suc_ex upt_add_eq_append)
  with 1 2 have "trace w' = trace w @ (ts1 @ ts2)
     \<and> map (\<lambda>r. Map_get r ''lastActivity'') (savedRooms (ts1 @ ts2)) =
         map (\<lambda>k. JNum (getTime env k)) [getTimeCalls w..<getTimeCalls w']
     \<and> getTimeCalls w \<le> getTimeCalls w'"
    by (simp add: savedRooms_append)
  then show ?case by blast
qed

lemma ex_setUsername_after_join:
  "jobHandler exEnv \<lparr>j_command = exSetUsername ''u1'', j_userId = Some ''u1''\<rparr>
     \<lparr>store = [''r1'' \<mapsto> exRoom,
         ''r2'' \<mapsto> [''id'' \<mapsto> JStr ''r2'',
                   ''joined'' \<mapsto> JObj [(''userId'', JStr ''u2''), (''in'', JStr ''r2'')],
                   ''lastActivity'' \<mapsto> JNum 1000]],
       uuidCalls = n, getTimeCalls = g, trace = ts\<rparr> =
   (Fulfilled [\<lparr>evt_id = ''uuid-'' @ replicate n (CHR ''i''), evt_userId = Some ''u1'',
            evt_correlationId = ''c1'',
            evt_name = ''usernameSet'', evt_roomId = JStr ''r1'',
            evt_payload = c_payload (exSetUsername ''u1'')\<rparr>],
    \<lparr>store = [''r1'' \<mapsto> exRoom,
         ''r2'' \<mapsto> [''id'' \<mapsto> JStr ''r2'',
                   ''joined'' \<mapsto> JObj [(''userId'', JStr ''u2''), (''in'', JStr ''r2'')],
                   ''lastActivity'' \<mapsto> JNum 1000],
         ''r1'' \<mapsto> [''id'' \<mapsto> JStr ''r1'', ''username'' \<mapsto> JStr ''new'',
                   ''lastActivity'' \<mapsto> JNum (1000 + int g)]],
       uuidCalls = Suc n, getTimeCalls = Suc g,
       trace = ts @ [GetRoomById (Some ''r1''),
                CallPreCondition (Some exRoom) (exSetUsername ''u1'') (Some ''u1''),
                CallFn exRoom (exSetUsername ''u1''),
                CallEventHandler ''usernameSet'' (Some exRoom) (c_payload (exSetUsername ''u1'')),
                SaveRoom [''id'' \<mapsto> JStr ''r1'', ''username'' \<mapsto> JStr ''new'',
                   ''lastActivity'' \<mapsto> JNum (1000 + int g)]]\<rparr>)"
  by (simp add: pipeline_defs Let_def exEnv_def plainObject_def exRegistered_def Object_prototype_def exSetUsername_def setUsername_def
      setUsernamePreCondition_def exUsernameSet_def exRoom_def)

lemma ex_stage3_setUsername:
  "upToLoadRoom exEnv \<lparr>j_command = exSetUsername u, j_userId = uid\<rparr> exWorld =
     (Fulfilled ((initialContext \<lparr>j_command = exSetUsername u, j_userId = uid\<rparr>)
                   \<lparr>handler := Some setUsername, room := Some exRoom\<rparr>),
      add_effect (GetRoomById (Some ''r1'')) exWorld)"
  using upToLoadRoom_eq [OF ex_stage2_setUsername, of u uid] ex_load(3) [of u]
  by (simp add: loadRoom_eq [of _ setUsername] roomOrEmpty_def exSetUsername_def)

lemma ex_stage4_break:
  "upToPreConditions exEnv \<lparr>j_command = exBreak, j_userId = None\<rparr> exWorld =
     (Fulfilled ((initialContext \<lparr>j_command = exBreak, j_userId = None\<rparr>)
                   \<lparr>handler := Some exBroken, room := Some Map.empty\<rparr>),
      add_effect (GetRoomById None) exWorld)"
  by (simp add: pipeline_defs example_defs)

lemma ex_run:
  "\<exists>sys. run exEnv exSteps (idle exWorld) = Some sys
     \<and> running sys = [] \<and> length (settled sys) = 2
     \<and> (\<exists>r. store (sys_world sys) ''r1'' = Some r
          \<and> Map_get r ''username'' = JStr ''new''
          \<and> Map_get r ''joined'' = JObj [(''userId'', JStr ''u2''), (''in'', JStr ''r1'')])"
  by (simp add: exSteps_def idle_def invoke_def exJobA_def exJobB_def exJoinR1_def
      validate_def new_Promise_def getCommandHandler_def loadRoom_def preConditions_def
      handle_def applyEvent_def applyEvents_def evtHandler_def stampRoom_def saveRoomSettles_def
      then_call_def initialContext_def add_effect_def Map_set_def Map_get_def
      exEnv_def plainObject_def exRegistered_def Object_prototype_def exWorld_def exSetUsername_def setUsername_def setUsernamePreCondition_def
      exJoinRoom_def exRoomCreated_def exJoinedRoom_def exUsernameSet_def exRoom_def
      val_of_def Let_def)

lemma upToPreConditions_Rejected_6:
  "upToPreConditions env job w = (Rejected e, w') \<Longrightarrow> upToApplyEvents env job w = (Rejected e, w')"
  by (simp add: upToApplyEvents_def upToHandle_def then_call_Rejected)

lemma upToLoadRoom_Rejected_6:
  "upToLoadRoom env job w = (Rejected e, w') \<Longrightarrow> upToApplyEvents env job w = (Rejected e, w')"
  by (simp add: upToPreConditions_Rejected_6 upToPreConditions_def then_call_Rejected)

lemma upToGetCommandHandler_Rejected_6:
  "upToGetCommandHandler env job w = (Rejected e, w') \<Longrightarrow>
   upToApplyEvents env job w = (Rejected e, w')"
  by (simp add: upToLoadRoom_Rejected_6 upToLoadRoom_def then_promise_Rejected)

lemma stage_failure_chain:
  assumes "validate env (j_command job) w = (Rejected e, w')
     \<or> (\<exists>w1. validate env (j_command job) w = (Fulfilled (), w1)
          \<and> getCommandHandler env (initialContext job) (j_command job) w1 = (Inl e, w'))
     \<or> (\<exists>ctx w2. upToGetCommandHandler env job w = (Fulfilled ctx, w2)
          \<and> loadRoom env ctx (j_command job) w2 = (Rejected e, w'))
     \<or> (\<exists>ctx w3. upToLoadRoom env job w = (Fulfilled ctx, w3)
          \<and> preConditions ctx (j_command job) w3 = (Inl e, w'))
     \<or> (\<exists>ctx w4. upToPreConditions env job w = (Fulfilled ctx, w4)
          \<and> handle env ctx (j_command job) w4 = (Inl e, w'))
     \<or> (\<exists>ctx w5. upToHandle env job w = (Fulfilled ctx, w5)
          \<and> applyEvents env ctx (j_command job) w5 = (Inl e, w'))"
  shows "upToApplyEvents env job w = (Rejected e, w')"
  using assms
proof (elim disjE exE conjE)
  assume "validate env (j_command job) w = (Rejected e, w')"
  then have "upToGetCommandHandler env job w = (Rejected e, w')"
    by (simp add: upToGetCommandHandler_def then_call_Rejected)
  then show ?thesis by (rule upToGetCommandHandler_Rejected_6)
next
  fix w1
  assume "validate env (j_command job) w = (Fulfilled (), w1)"
    and "getCommandHandler env (initialContext job) (j_command job) w1 = (Inl e, w')"
  then have "upToGetCommandHandler env job w = (Rejected e, w')"
    by (simp add: upToGetCommandHandler_def then_call_Fulfilled)
  then show ?thesis by (rule upToGetCommandHandler_Rejected_6)
next
  fix ctx w2
  assume "upToGetCommandHandler env job w = (Fulfilled ctx, w2)"
    and "loadRoom env ctx (j_command job) w2 = (Rejected e, w')"
  then have "upToLoadRoom env job w = (Rejected e, w')"
    by (simp add: upToLoadRoom_eq)
  then show ?thesis by (rule upToLoadRoom_Rejected_6)
next
  fix ctx w3
  assume "upToLoadRoom env job w = (Fulfilled ctx, w3)"
    and "preConditions ctx (j_command job) w3 = (Inl e, w')"
  then have "upToPreConditions env job w = (Rejected e, w')"
    by (simp add: upToPreConditions_eq)
  then show ?thesis by (rule upToPreConditions_Rejected_6)
next
  fix ctx w4
  assume "upToPreConditions env job w = (Fulfilled ctx, w4)"
    and "handle env ctx (j_command job) w4 = (Inl e, w')"
  then have "upToHandle env job w = (Rejected e, w')"
    by (simp add: upToHandle_eq)
  then show ?thesis by (rule upToHandle_Rejected)
next
  fix ctx w5
  assume "upToHandle env job w = (Fulfilled ctx, w5)"
    and "applyEvents env ctx (j_command job) w5 = (Inl e, w')"
  then show ?thesis
    by (simp add: upToApplyEvents_def then_call_Fulfilled)
qed

lemma ex_precondition_throws:
  "preConditions ((initialContext \<lparr>j_command = exSetUsername ''u1'', j_userId = Some ''u2''\<rparr>)
                   \<lparr>handler := Some setUsername, room := Some exRoom\<rparr>)
     (exSetUsername ''u1'') (add_effect (GetRoomById (Some ''r1'')) exWorld) =
   (Inl (throw_new_PreconditionError (Error ''Can only set username for own user!'')
          (exSetUsername ''u1'')),
    add_effect (CallPreCondition (Some exRoom) (exSetUsername ''u1'') (Some ''u2''))
      (add_effect (GetRoomById (Some ''r1'')) exWorld))"
  by (simp add: preConditions_def setUsername_def setUsernamePreCondition_def exSetUsername_def
      val_of_def initialContext_def)


section \<open>The pieces of the job handler and the whole\<close>

lemma finish_settled: "settlement ph = Some p \<Longrightarrow> finish env cmd ph w = (p, w)"
  by (cases ph) auto

lemma finish_advance:
  "settlement ph = None \<Longrightarrow>
   finish env cmd ph w = (case advance env cmd ph w of (ph', w') \<Rightarrow> finish env cmd ph' w')"
  by (cases ph) auto

lemma finish_after_applyEvents:
  assumes "upToApplyEvents env job w = pw"
  shows "jobHandler env job w =
     (case rejecting SaveRoomBackToStore pw of (ph, w') \<Rightarrow> finish env (j_command job) ph w')"
proof (cases pw)
  case (Pair x w6)
  show ?thesis
  proof (cases x)
    case (Rejected e)
    with Pair assms show ?thesis by (simp add: upToApplyEvents_Rejected)
  next
    case (Fulfilled ctx)
    with Pair assms have "upToApplyEvents env job w = (Fulfilled ctx, w6)" by simp
    then have "jobHandler env job w =
        (case saveRoomBackToStore env ctx w6 of
           (Rejected e, w') \<Rightarrow> (Rejected e, w')
         | (Fulfilled c, w') \<Rightarrow> (Fulfilled (eventsToSend c), w'))"
      by (simp add: jobHandler_stages then_call_def then_promise_def split: prod.splits promise.splits)
    also have "\<dots> = finish env (j_command job) (Next SaveRoomBackToStore ctx) w6"
      by (simp add: saveRoomBackToStore_def split: prod.splits sum.splits promise.splits)
    finally show ?thesis using Pair Fulfilled by simp
  qed
qed

lemma finish_after_handle:
  assumes "upToHandle env job w = pw"
  shows "jobHandler env job w =
     (case rejecting ApplyEvents pw of (ph, w') \<Rightarrow> finish env (j_command job) ph w')"
proof (cases pw)
  case (Pair x w5)
  show ?thesis
  proof (cases x)
    case (Rejected e)
    with Pair assms show ?thesis by (simp add: upToHandle_Rejected_job)
  next
    case (Fulfilled ctx)
    with Pair assms have u: "upToHandle env job w = (Fulfilled ctx, w5)" by simp
    obtain y w6 where a: "applyEvents env ctx (j_command job) w5 = (y, w6)"
      by (cases "applyEvents env ctx (j_command job) w5")
    with u have "upToApplyEvents env job w = (case y of Inl e \<Rightarrow> Rejected e | Inr c \<Rightarrow> Fulfilled c, w6)"
      by (simp add: upToApplyEvents_def then_call_Fulfilled split: sum.splits)
    from finish_after_applyEvents [OF this] a Pair Fulfilled show ?thesis
      by (cases y) simp_all
  qed
qed

lemma finish_after_preConditions:
  assumes "upToPreConditions env job w = pw"
  shows "jobHandler env job w =
     (case rejecting Handle pw of (ph, w') \<Rightarrow> finish env (j_command job) ph w')"
proof (cases pw)
  case (Pair x w4)
  show ?thesis
  proof (cases x)
    case (Rejected e)
    with Pair assms show ?thesis by (simp add: upToPreConditions_Rejected)
  next
    case (Fulfilled ctx)
    with Pair assms have u: "upToPreConditions env job w = (Fulfilled ctx, w4)" by simp
    obtain y w5 where a: "handle env ctx (j_command job) w4 = (y, w5)"
      by (cases "handle env ctx (j_command job) w4")
    with u have "upToHandle env job w = (case y of Inl e \<Rightarrow> Rejected e | Inr c \<Rightarrow> Fulfilled c, w5)"
      by (simp add: upToHandle_eq split: sum.splits)
    from finish_after_handle [OF this] a Pair Fulfilled show ?thesis
      by (cases y) simp_all
  qed
qed

lemma finish_after_loadRoom:
  assumes "upToLoadRoom env job w = pw"
  shows "jobHandler env job w =
     (case rejecting PreConditions pw of (ph, w') \<Rightarrow> finish env (j_command job) ph w')"
proof (cases pw)
  case (Pair x w3)
  show ?thesis
  proof (cases x)
    case (Rejected e)
    with Pair assms show ?thesis by (simp add: upToLoadRoom_Rejected)
  next
    case (Fulfilled ctx)
    with Pair assms have u: "upToLoadRoom env job w = (Fulfilled ctx, w3)" by simp
    obtain y w4 where a: "preConditions ctx (j_command job) w3 = (y, w4)"
      by (cases "preConditions ctx (j_command job) w3")
    with u have "upToPreConditions env job w = (case y of Inl e \<Rightarrow> Rejected e | Inr c \<Rightarrow> Fulfilled c, w4)"
      by (simp add: upToPreConditions_eq split: sum.splits)
    from finish_after_preConditions [OF this] a Pair Fulfilled show ?thesis
      by (cases y) simp_all
  qed
qed

lemma finish_after_getCommandHandler:
  assumes "upToGetCommandHandler env job w = pw"
  shows "jobHandler env job w =
     (case rejecting LoadRoom pw of (ph, w') \<Rightarrow> finish env (j_command job) ph w')"
proof (cases pw)
  case (Pair x w2)
  show ?thesis
  proof (cases x)
    case (Rejected e)
    with Pair assms have "upToLoadRoom env job w = (Rejected e, w2)"
      by (simp add: upToLoadRoom_def then_promise_Rejected)
    with Pair Rejected show ?thesis by (simp add: upToLoadRoom_Rejected)
  next
    case (Fulfilled ctx)
    with Pair assms have u: "upToGetCommandHandler env job w = (Fulfilled ctx, w2)" by simp
    then have "upToLoadRoom env job w = loadRoom env ctx (j_command job) w2"
      by (rule upToLoadRoom_eq)
    from finish_after_loadRoom [OF this] Pair Fulfilled show ?thesis
      by simp
  qed
qed

lemma finish_invoke:
  "(case invoke env job w of (ph, w') \<Rightarrow> finish env (j_command job) ph w') = jobHandler env job w"
proof (cases "commandSchemaValidator env (j_command job)")
  case (Some e)
  then have "upToGetCommandHandler env job w = (Rejected e, w)"
    by (simp add: upToGetCommandHandler_eq)
  from finish_after_getCommandHandler [OF this] Some show ?thesis
    by (simp add: invoke_def validate_def new_Promise_def)
next
  case None
  obtain y w2 where g: "getCommandHandler env (initialContext job) (j_command job) w = (y, w2)"
    by (cases "getCommandHandler env (initialContext job) (j_command job) w")
  with None have "upToGetCommandHandler env job w =
      (case y of Inl e \<Rightarrow> Rejected e | Inr c \<Rightarrow> Fulfilled c, w2)"
    by (simp add: upToGetCommandHandler_def then_call_def validate_def new_Promise_def
        split: sum.splits)
  from finish_after_getCommandHandler [OF this] None g show ?thesis
    by (cases y) (simp_all add: invoke_def validate_def new_Promise_def)
qed


section \<open>The invariant of the queue\<close>

lemma runJobs_length: "length (fst (runJobs env js w)) = length js"
proof (induction js arbitrary: w)
  case Nil
  then show ?case by simp
next
  case (Cons j js)
  obtain p w1 where a: "jobHandler env j w = (p, w1)" by (cases "jobHandler env j w")
  obtain ps w2 where b: "runJobs env js w1 = (ps, w2)" by (cases "runJobs env js w1")
  from Cons.IH [of w1] a b show ?case by simp
qed

lemma runJobs_snoc:
  "runJobs env (js @ [j]) w =
     (case runJobs env js w of
        (ps, w1) \<Rightarrow> (case jobHandler env j w1 of (p, w2) \<Rightarrow> (ps @ [p], w2)))"
  by (induction js arbitrary: w) (auto split: prod.splits)

lemma pushedJobs_append: "pushedJobs (ls @ ls') = pushedJobs ls @ pushedJobs ls'"
  by (induction ls rule: pushedJobs.induct) simp_all

lemma serialized_idle: "serialized env w0 [] (idle w0)"
  by (simp add: serialized_def idle_def)

lemma zip_upt_drop_Cons:
  assumes "zip [k..<length jobs] (drop k jobs) = (t, j) # rest"
  shows "k < length jobs \<and> t = k \<and> j = jobs ! k
       \<and> rest = zip [Suc k..<length jobs] (drop (Suc k) jobs)"
proof -
  from assms have k: "k < length jobs" by (cases "k < length jobs") auto
  then have "[k..<length jobs] = k # [Suc k..<length jobs]"
    by (simp add: upt_conv_Cons)
  moreover from k have "drop k jobs = jobs ! k # drop (Suc k) jobs"
    by (simp add: Cons_nth_drop_Suc)
  ultimately show ?thesis using assms k by auto
qed

lemma serialized_Push:
  assumes "serialized env w0 jobs sys"
  shows "serialized env w0 (jobs @ [j])
     (sys\<lparr>waiting := waiting sys @ [(pushes sys, j)], pushes := Suc (pushes sys)\<rparr>)"
proof -
  let ?n = "length (settled sys)"
  let ?k = "?n + length (running sys)"
  from assms have k: "?k \<le> length jobs" and p: "pushes sys = length jobs"
    and wt: "waiting sys = zip [?k..<length jobs] (drop ?k jobs)"
    by (simp_all add: serialized_def Let_def)
  have "zip [?k..<length (jobs @ [j])] (drop ?k (jobs @ [j]))
      = zip ([?k..<length jobs] @ [length jobs]) (drop ?k jobs @ [j])"
    using k by simp
  also have "\<dots> = zip [?k..<length jobs] (drop ?k jobs) @ [(length jobs, j)]"
    by (subst zip_append) simp_all
  finally have w': "waiting sys @ [(pushes sys, j)]
      = zip [?k..<length (jobs @ [j])] (drop ?k (jobs @ [j]))"
    using wt p by simp
  have tk: "take ?n (jobs @ [j]) = take ?n jobs" using k by simp
  have nth: "(jobs @ [j]) ! ?n = jobs ! ?n" if "running sys \<noteq> []"
    using that k by (cases "running sys") (simp_all add: nth_append)
  from assms show ?thesis
    unfolding serialized_def Let_def
    apply (simp only: system.simps tk w' p)
    using k nth
    by (auto split: list.splits)
qed


lemma history_Suc:
  "concat (map (\<lambda>t. [Begin t, End t]) [0..<Suc n])
     = concat (map (\<lambda>t. [Begin t, End t]) [0..<n]) @ [Begin n, End n]"
  by simp

lemma serialized_Dispatch:
  assumes inv: "serialized env w0 jobs sys"
    and w: "waiting sys = (t, j) # rest"
    and idle: "\<not> busy sys"
    and i: "invoke env j (sys_world sys) = (ph, w')"
  shows "serialized env w0 jobs
     (sys\<lparr>sys_world := w', waiting := rest, busy := True,
          running := running sys @ [(t, j, ph)], history := history sys @ [Begin t]\<rparr>)"
proof -
  let ?n = "length (settled sys)"
  from inv idle have r: "running sys = []"
    by (simp add: serialized_def Let_def)
  with inv have wt: "waiting sys = zip [?n..<length jobs] (drop ?n jobs)"
    and p: "pushes sys = length jobs"
    and h: "history sys = concat (map (\<lambda>t. [Begin t, End t]) [0..<?n])"
    and s: "settled sys = zip [0..<?n] (fst (runJobs env (take ?n jobs) w0))"
    and wn: "sys_world sys = snd (runJobs env (take ?n jobs) w0)"
    by (simp_all add: serialized_def Let_def)
  from wt w have "zip [?n..<length jobs] (drop ?n jobs) = (t, j) # rest" by simp
  from zip_upt_drop_Cons [OF this] have
    z: "?n < length jobs" "t = ?n" "j = jobs ! ?n"
       "rest = zip [Suc ?n..<length jobs] (drop (Suc ?n) jobs)"
    by simp_all
  from finish_invoke [of env j "sys_world sys"] i
  have f: "finish env (j_command j) ph w' = jobHandler env j (sys_world sys)"
    by simp
  from r p h s wn z f show ?thesis
    by (simp add: serialized_def Let_def)
qed

lemma serialized_running:
  assumes "serialized env w0 jobs sys" and "i < length (running sys)"
  shows "i = 0 \<and> (\<exists>j ph. running sys = [(length (settled sys), j, ph)]
       \<and> length (settled sys) < length jobs
       \<and> j = jobs ! length (settled sys)
       \<and> finish env (j_command j) ph (sys_world sys)
           = jobHandler env j (snd (runJobs env (take (length (settled sys)) jobs) w0)))"
proof (cases "running sys")
  case Nil
  with assms(2) show ?thesis by simp
next
  case (Cons x xs)
  obtain t j ph where x: "x = (t, j, ph)" by (cases x)
  show ?thesis
  proof (cases xs)
    case Nil
    with Cons x assms show ?thesis
      by (auto simp: serialized_def Let_def)
  next
    case (Cons y ys)
    with \<open>running sys = x # xs\<close> x assms(1) show ?thesis
      by (simp add: serialized_def Let_def)
  qed
qed

lemma serializedI:
  assumes "settled sys = zip [0..<n] (fst (runJobs env (take n jobs) w0))"
    and "n + length (running sys) \<le> length jobs"
    and "pushes sys = length jobs"
    and "waiting sys = zip [n + length (running sys)..<length jobs]
           (drop (n + length (running sys)) jobs)"
    and "busy sys \<longleftrightarrow> running sys \<noteq> []"
    and "history sys = concat (map (\<lambda>t. [Begin t, End t]) [0..<n])
            @ (if running sys = [] then [] else [Begin n])"
    and "case running sys of
            [] \<Rightarrow> sys_world sys = snd (runJobs env (take n jobs) w0)
          | [(t, j, ph)] \<Rightarrow>
              t = n \<and> j = jobs ! n
              \<and> finish env (j_command j) ph (sys_world sys)
                  = jobHandler env j (snd (runJobs env (take n jobs) w0))
          | _ \<Rightarrow> False"
  shows "serialized env w0 jobs sys"
proof -
  from assms(1,2) have len: "length (settled sys) = n"
    by (simp add: runJobs_length)
  show ?thesis
    unfolding serialized_def Let_def len
    using assms by simp
qed

lemma serialized_settle:
  assumes inv: "serialized env w0 jobs sys"
    and r: "running sys = [(t, j, ph)]"
    and p: "settlement ph = Some p"
  shows "serialized env w0 jobs
     (sys\<lparr>busy := False, running := [], settled := settled sys @ [(t, p)],
          history := history sys @ [End t]\<rparr>)"
proof -
  let ?n = "length (settled sys)"
  obtain ps W where ps: "runJobs env (take ?n jobs) w0 = (ps, W)"
    by (cases "runJobs env (take ?n jobs) w0")
  from serialized_running [OF inv, of 0] r ps have
    t: "t = ?n" and n: "?n < length jobs" and j: "j = jobs ! ?n"
    and f: "finish env (j_command j) ph (sys_world sys) = jobHandler env j W"
    by auto
  from finish_settled [OF p, of env "j_command j" "sys_world sys"] f
  have jh: "jobHandler env j W = (p, sys_world sys)"
    by simp
  from n j have tk: "take (Suc ?n) jobs = take ?n jobs @ [j]"
    by (simp add: take_Suc_conv_app_nth)
  from ps jh tk have rs: "runJobs env (take (Suc ?n) jobs) w0 = (ps @ [p], sys_world sys)"
    by (simp add: runJobs_snoc)
  from runJobs_length [of env "take ?n jobs" w0] ps n have lps: "length ps = ?n"
    by simp
  from inv r have wt: "waiting sys = zip [Suc ?n..<length jobs] (drop (Suc ?n) jobs)"
    and pu: "pushes sys = length jobs"
    and h: "history sys = concat (map (\<lambda>t. [Begin t, End t]) [0..<?n]) @ [Begin ?n]"
    and s: "settled sys = zip [0..<?n] ps"
    using ps by (simp_all add: serialized_def Let_def)
  have "zip ([0..<?n] @ [?n]) (ps @ [p]) = zip [0..<?n] ps @ [(?n, p)]"
    using lps by (subst zip_append) simp_all
  with s t have s': "settled sys @ [(t, p)] = zip [0..<Suc ?n] (ps @ [p])"
    by simp
  show ?thesis
  proof (rule serializedI [where n = "Suc ?n"])
    show "settled (sys\<lparr>busy := False, running := [], settled := settled sys @ [(t, p)],
          history := history sys @ [End t]\<rparr>)
        = zip [0..<Suc ?n] (fst (runJobs env (take (Suc ?n) jobs) w0))"
      using s' rs by simp
  qed (use wt pu h rs n t in \<open>simp_all del: upt_Suc add: history_Suc\<close>)
qed

lemma serialized_advance:
  assumes inv: "serialized env w0 jobs sys"
    and r: "running sys = [(t, j, ph)]"
    and p: "settlement ph = None"
    and a: "advance env (j_command j) ph (sys_world sys) = (ph', w')"
  shows "serialized env w0 jobs (sys\<lparr>sys_world := w', running := [(t, j, ph')]\<rparr>)"
proof -
  from finish_advance [OF p, of env "j_command j" "sys_world sys"] a
  have "finish env (j_command j) ph (sys_world sys) = finish env (j_command j) ph' w'"
    by simp
  with inv r show ?thesis
    by (auto simp: serialized_def Let_def)
qed

lemma serialized_step:
  assumes inv: "serialized env w0 jobs sys" and st: "step env l sys = Some sys'"
  shows "serialized env w0 (jobs @ pushedJobs [l]) sys'"
proof (cases l)
  case (Push j)
  with st serialized_Push [OF inv, of j] show ?thesis by auto
next
  case Dispatch
  with st obtain t j rest ph w' where
    "waiting sys = (t, j) # rest" "\<not> busy sys" "invoke env j (sys_world sys) = (ph, w')"
    "sys' = sys\<lparr>sys_world := w', waiting := rest, busy := True,
          running := running sys @ [(t, j, ph)], history := history sys @ [Begin t]\<rparr>"
    by (auto split: list.splits if_splits prod.splits)
  with serialized_Dispatch [OF inv] Dispatch show ?thesis by simp
next
  case (Advance i)
  with st have i: "i < length (running sys)" by (auto split: if_splits)
  from serialized_running [OF inv i] obtain j ph where
    r: "i = 0" "running sys = [(length (settled sys), j, ph)]"
    by blast
  show ?thesis
  proof (cases "settlement ph")
    case None
    obtain ph' w' where a: "advance env (j_command j) ph (sys_world sys) = (ph', w')"
      by (cases "advance env (j_command j) ph (sys_world sys)")
    with st Advance r None have "sys' = sys\<lparr>sys_world := w',
        running := [(length (settled sys), j, ph')]\<rparr>"
      by simp
    with serialized_advance [OF inv r(2) None a] Advance show ?thesis by simp
  next
    case (Some p)
    with st Advance r have "sys' = sys\<lparr>busy := False, running := [],
        settled := settled sys @ [(length (settled sys), p)],
        history := history sys @ [End (length (settled sys))]\<rparr>"
      by simp
    with serialized_settle [OF inv r(2) Some] Advance show ?thesis by simp
  qed
qed

lemma serialized_run:
  assumes "serialized env w0 jobs sys" and "run env ls sys = Some sys'"
  shows "serialized env w0 (jobs @ pushedJobs ls) sys'"
  using assms
proof (induction ls arbitrary: jobs sys)
  case Nil
  then show ?case by simp
next
  case (Cons l ls)
  from Cons.prems(2) obtain sys1 where
    s1: "step env l sys = Some sys1" and r: "run env ls sys1 = Some sys'"
    by (auto split: option.splits)
  from serialized_step [OF Cons.prems(1) s1]
  have "serialized env w0 (jobs @ pushedJobs [l]) sys1" .
  from Cons.IH [OF this r] have "serialized env w0 ((jobs @ pushedJobs [l]) @ pushedJobs ls) sys'" .
  moreover have "pushedJobs (l # ls) = pushedJobs [l] @ pushedJobs ls"
    using pushedJobs_append [of "[l]" ls] by simp
  ultimately show ?case by simp
qed


section \<open>A failing stage rejects and nothing is saved\<close>

text \<open>
  C2. Let one of the stages 1 to 6 fail with an error: the validator throws (the promise
  of \<^verbatim>\<open>validate\<close> rejects), or \<^verbatim>\<open>getCommandHandler\<close> throws, or the promise of
  \<^verbatim>\<open>loadRoom\<close> rejects, or \<^verbatim>\<open>preConditions\<close>, \<^verbatim>\<open>handle\<close> or \<^verbatim>\<open>applyEvents\<close>
  throws, each after the stages before it have completed. Then the promise returned by
  \<^verbatim>\<open>processCommand\<close> rejects with that error, \<^verbatim>\<open>store.saveRoom\<close> is not called and
  the store is as it was before the call. If the chain is rejected by stage 5 or before,
  no event handler is called either.
\<close>

theorem stage_failure_rejects_without_save:
  assumes "validate env command w = (Rejected e, w')
     \<or> (\<exists>w1. validate env command w = (Fulfilled (), w1)
          \<and> getCommandHandler env (initialContext \<lparr>j_command = command, j_userId = uid\<rparr>)
               command w1 = (Inl e, w'))
     \<or> (\<exists>ctx w2. upToGetCommandHandler env \<lparr>j_command = command, j_userId = uid\<rparr> w
            = (Fulfilled ctx, w2)
          \<and> loadRoom env ctx command w2 = (Rejected e, w'))
     \<or> (\<exists>ctx w3. upToLoadRoom env \<lparr>j_command = command, j_userId = uid\<rparr> w
            = (Fulfilled ctx, w3)
          \<and> preConditions ctx command w3 = (Inl e, w'))
     \<or> (\<exists>ctx w4. upToPreConditions env \<lparr>j_command = command, j_userId = uid\<rparr> w
            = (Fulfilled ctx, w4)
          \<and> handle env ctx command w4 = (Inl e, w'))
     \<or> (\<exists>ctx w5. upToHandle env \<lparr>j_command = command, j_userId = uid\<rparr> w
            = (Fulfilled ctx, w5)
          \<and> applyEvents env ctx command w5 = (Inl e, w'))"
  shows "processCommand env command uid w = (Inr (Rejected e), w')
       \<and> store w' = store w
       \<and> (\<forall>r. SaveRoom r \<notin> set (newEffects w w'))
       \<and> ((\<exists>e0 w0. upToHandle env \<lparr>j_command = command, j_userId = uid\<rparr> w = (Rejected e0, w0))
            \<longrightarrow> (\<forall>n r p. CallEventHandler n r p \<notin> set (newEffects w w')))"
proof -
  let ?job = "\<lparr>j_command = command, j_userId = uid\<rparr>"
  from assms have rej: "upToApplyEvents env ?job w = (Rejected e, w')"
    using stage_failure_chain [of env ?job w e w'] by simp
  then have "jobHandler env ?job w = (Rejected e, w')"
    by (rule upToApplyEvents_Rejected)
  then have 1: "processCommand env command uid w = (Inr (Rejected e), w')"
    by (simp add: processCommand_jobHandler)
  from rej have a: "adds (\<lambda>x. \<not> isSaveRoom x) w w'"
    by (rule upToApplyEvents_adds)
  then have 2: "store w' = store w" by (rule adds_store)
  have 3: "\<forall>r. SaveRoom r \<notin> set (newEffects w w')"
    using adds_newEffects [OF a] by fastforce
  have 4: "\<forall>n r p. CallEventHandler n r p \<notin> set (newEffects w w')"
    if "upToHandle env ?job w = (Rejected e0, w0)" for e0 w0
  proof -
    from that have "upToApplyEvents env ?job w = (Rejected e0, w0)"
      by (rule upToHandle_Rejected)
    with rej have "w0 = w'" by simp
    with that have "adds beforeApply w w'" using upToHandle_adds by blast
    from adds_newEffects [OF this] show ?thesis
      by (fastforce simp: beforeApply_def)
  qed
  from 1 2 3 4 show ?thesis by blast
qed

theorem stage_failure_rejects_without_save_witness:
  "processCommand exEnv (exSetUsername ''u1'') (Some ''u2'') exWorld =
     (Inr (Rejected (throw_new_PreconditionError (Error ''Can only set username for own user!'')
                  (exSetUsername ''u1''))),
      add_effect (CallPreCondition (Some exRoom) (exSetUsername ''u1'') (Some ''u2''))
        (add_effect (GetRoomById (Some ''r1'')) exWorld))
   \<and> store (add_effect (CallPreCondition (Some exRoom) (exSetUsername ''u1'') (Some ''u2''))
        (add_effect (GetRoomById (Some ''r1'')) exWorld)) = store exWorld
   \<and> (\<forall>r. SaveRoom r \<notin> set (newEffects exWorld
          (add_effect (CallPreCondition (Some exRoom) (exSetUsername ''u1'') (Some ''u2''))
            (add_effect (GetRoomById (Some ''r1'')) exWorld))))
   \<and> (\<forall>n r p. CallEventHandler n r p \<notin> set (newEffects exWorld
          (add_effect (CallPreCondition (Some exRoom) (exSetUsername ''u1'') (Some ''u2''))
            (add_effect (GetRoomById (Some ''r1'')) exWorld))))"
proof -
  let ?job = "\<lparr>j_command = exSetUsername ''u1'', j_userId = Some ''u2''\<rparr>"
  let ?e = "throw_new_PreconditionError (Error ''Can only set username for own user!'') (exSetUsername ''u1'')"
  let ?w = "add_effect (CallPreCondition (Some exRoom) (exSetUsername ''u1'') (Some ''u2''))
        (add_effect (GetRoomById (Some ''r1'')) exWorld)"
  have fails: "\<exists>ctx w3. upToLoadRoom exEnv ?job exWorld = (Fulfilled ctx, w3)
          \<and> preConditions ctx (exSetUsername ''u1'') w3 = (Inl ?e, ?w)"
    using ex_stage3_setUsername [of "''u1''" "Some ''u2''"] ex_precondition_throws by blast
  then have "upToPreConditions exEnv ?job exWorld = (Rejected ?e, ?w)"
    by (auto simp: upToPreConditions_eq)
  then have "upToHandle exEnv ?job exWorld = (Rejected ?e, ?w)"
    by (simp add: upToHandle_def then_call_Rejected)
  then have 5: "\<exists>e0 w0. upToHandle exEnv ?job exWorld = (Rejected e0, w0)"
    by blast
  from fails have "validate exEnv (exSetUsername ''u1'') exWorld = (Rejected ?e, ?w)
     \<or> (\<exists>w1. validate exEnv (exSetUsername ''u1'') exWorld = (Fulfilled (), w1)
          \<and> getCommandHandler exEnv (initialContext ?job) (exSetUsername ''u1'') w1 = (Inl ?e, ?w))
     \<or> (\<exists>ctx w2. upToGetCommandHandler exEnv ?job exWorld = (Fulfilled ctx, w2)
          \<and> loadRoom exEnv ctx (exSetUsername ''u1'') w2 = (Rejected ?e, ?w))
     \<or> (\<exists>ctx w3. upToLoadRoom exEnv ?job exWorld = (Fulfilled ctx, w3)
          \<and> preConditions ctx (exSetUsername ''u1'') w3 = (Inl ?e, ?w))
     \<or> (\<exists>ctx w4. upToPreConditions exEnv ?job exWorld = (Fulfilled ctx, w4)
          \<and> handle exEnv ctx (exSetUsername ''u1'') w4 = (Inl ?e, ?w))
     \<or> (\<exists>ctx w5. upToHandle exEnv ?job exWorld = (Fulfilled ctx, w5)
          \<and> applyEvents exEnv ctx (exSetUsername ''u1'') w5 = (Inl ?e, ?w))"
    by blast
  from stage_failure_rejects_without_save [OF this] 5 show ?thesis
    by blast
qed


section \<open>The event records\<close>

text \<open>
  C3. Let the command's promise be fulfilled with the events \<open>evs\<close>. Let \<open>calls\<close> be
  the \<^verbatim>\<open>applyEvent\<close> calls that returned while the handler function ran on the room
  \<open>r\<close> (the function has thrown nothing in the end), and \<open>outs\<close> the rooms the event
  handlers returned, one after the other. Then there is one
  event per call, in the same order, and the \<open>i\<close>-th event has the id that the
  \<open>i\<close>-th call of \<^verbatim>\<open>uuid()\<close> in this run returned, the user id the command came with,
  the command's id as correlation id, the name and the payload of the \<open>i\<close>-th call, and
  as room id the \<^verbatim>\<open>id\<close> of the room that the \<open>i\<close>-th event handler returned. The run
  draws one id per event; if \<^verbatim>\<open>uuid()\<close> never returns an id twice, the ids of the events
  differ from each other.
\<close>

theorem event_records:
  assumes run: "processCommand env command uid w = (Inr (Fulfilled evs), w')"
  shows "\<exists>h r calls outs.
       commandHandlers env (c_name command) = Some h
     \<and> performed env (fn h r command) = (calls, None)
     \<and> CallFn r command \<in> set (newEffects w w')
     \<and> length outs = length calls
     \<and> length evs = length calls
     \<and> (\<forall>i<length calls. \<exists>eh. eventHandlers env (fst (calls ! i)) = Some eh
            \<and> eh (Some ((r # outs) ! i)) (snd (calls ! i)) = Inr (Room (outs ! i))
            \<and> evs ! i =
                 \<lparr>evt_id = uuid env (uuidCalls w + i), evt_userId = uid,
                  evt_correlationId = c_id command, evt_name = fst (calls ! i),
                  evt_roomId = Map_get (outs ! i) ''id'', evt_payload = snd (calls ! i)\<rparr>)
     \<and> uuidCalls w' = uuidCalls w + length calls
     \<and> (inj (uuid env) \<longrightarrow> distinct (map evt_id evs))"
proof -
  let ?job = "\<lparr>j_command = command, j_userId = uid\<rparr>"
  from run have "jobHandler env ?job w = (Fulfilled evs, w')"
    by (simp add: processCommand_jobHandler prod_eq_iff)
  from jobHandler_FulfilledD [OF this] obtain ctx6 w6 ctx7 where
    u6: "upToApplyEvents env ?job w = (Fulfilled ctx6, w6)"
    and s7: "saveRoomBackToStore env ctx6 w6 = (Fulfilled ctx7, w')"
    and evs: "evs = eventsToSend ctx6"
    by blast
  from upToApplyEvents_FulfilledD [OF u6] obtain ctx5 w5 where
    u5: "upToHandle env ?job w = (Fulfilled ctx5, w5)"
    and a6: "applyEvents env ctx5 (j_command ?job) w5 = (Inr ctx6, w6)"
    by blast
  from applyEvents_after_handle [OF u5 a6] obtain h r calls outs where
    f: "commandHandlers env (c_name command) = Some h"
      "performed env (fn h r command) = (calls, None)"
      "CallFn r command \<in> set (newEffects w w5)"
      "length outs = length calls"
      "outputs (map (deferredOf env) calls) (Some r) = Some outs"
      "\<forall>c \<in> set calls. eventHandlers env (fst c) \<noteq> None"
      "trace w6 = trace w5 @ map callOf (zip (map (deferredOf env) calls) (Some r # map Some outs))"
      "eventsToSend ctx6 = map (eventOf env command uid)
          (enumerate (uuidCalls w) (zip (map (deferredOf env) calls) outs))"
      "uuidCalls w6 = uuidCalls w + length calls"
    by auto
  from saveRoomBackToStore_Fulfilled [OF s7] obtain x where
    t7: "trace w' = trace w6 @ [x]" and u7: "uuidCalls w' = uuidCalls w6"
    by auto
  from upToHandle_adds [OF u5] obtain ts where t5: "trace w5 = trace w @ ts"
    by (auto simp: adds_def)
  from f(3) t5 t7 f(7) have cf: "CallFn r command \<in> set (newEffects w w')"
    by (simp add: newEffects_def)
  have len: "length evs = length calls"
    using evs f(8) f(4) by simp
  have nth: "evs ! i =
      \<lparr>evt_id = uuid env (uuidCalls w + i), evt_userId = uid,
       evt_correlationId = c_id command, evt_name = fst (calls ! i),
       evt_roomId = Map_get (outs ! i) ''id'', evt_payload = snd (calls ! i)\<rparr>"
    if "i < length calls" for i
    using evs f(8) eventOf_nth [OF f(4) that] by simp
  have app: "\<exists>eh. eventHandlers env (fst (calls ! i)) = Some eh
            \<and> eh (Some ((r # outs) ! i)) (snd (calls ! i)) = Inr (Room (outs ! i))"
    if "i < length calls" for i
    using outputs_deferredOf_nth [OF f(5) f(6) that] .
  have dist: "distinct (map evt_id evs)" if inj: "inj (uuid env)"
  proof -
    have "map evt_id evs ! i \<noteq> map evt_id evs ! j"
      if "i < length evs" "j < length evs" "i \<noteq> j" for i j
    proof -
      from that len have "evt_id (evs ! i) = uuid env (uuidCalls w + i)"
        and "evt_id (evs ! j) = uuid env (uuidCalls w + j)"
        by (simp_all add: nth)
      with that inj show ?thesis by (simp add: inj_eq)
    qed
    then show ?thesis by (simp add: distinct_conv_nth)
  qed
  from f(1,2,4) cf len nth app u7 f(9) dist show ?thesis
    by (intro exI [of _ h] exI [of _ r] exI [of _ calls] exI [of _ outs]) simp
qed

theorem event_records_witness:
  "\<exists>evs w'. processCommand exEnv exJoin None exWorld = (Inr (Fulfilled evs), w')
     \<and> map evt_id evs = [''uuid-'', ''uuid-i'']
     \<and> map evt_name evs = [''roomCreated'', ''joinedRoom'']
     \<and> map evt_roomId evs = [JStr ''r2'', JStr ''r2'']
     \<and> map evt_correlationId evs = [''c2'', ''c2'']
     \<and> map evt_userId evs = [None, None]
     \<and> inj (uuid exEnv)
     \<and> distinct (map evt_id evs)"
proof -
  from event_records [OF ex_join_run] ex_uuid_inj
  have "distinct (map evt_id
          [\<lparr>evt_id = ''uuid-'', evt_userId = None, evt_correlationId = ''c2'',
            evt_name = ''roomCreated'', evt_roomId = JStr ''r2'', evt_payload = c_payload exJoin\<rparr>,
           \<lparr>evt_id = ''uuid-i'', evt_userId = None, evt_correlationId = ''c2'',
            evt_name = ''joinedRoom'', evt_roomId = JStr ''r2'', evt_payload = c_payload exJoin\<rparr>])"
    by blast
  with ex_join_run ex_uuid_inj show ?thesis
    by (intro exI conjI) (assumption | simp)+
qed


section \<open>Loading the room\<close>

text \<open>
  C4. Let stages 1 and 2 have completed and let the store answer the load. If no room
  came back and the handler has \<^verbatim>\<open>existingRoom\<close> set, the command is rejected with
  the missing-room error, and all that has happened to the world is the read. Otherwise
  stage 3 puts a room into the context: the room loaded, or a fresh empty map if none
  came back; and whenever the precondition or the handler function is called in this
  run, it is called with that room.
\<close>

theorem loadRoom_missing_or_valid:
  assumes stage2: "upToGetCommandHandler env \<lparr>j_command = command, j_userId = uid\<rparr> w
                     = (Fulfilled ctx, w0)"
    and load: "getRoomById env (store w0) (c_roomId command) = Inr loaded"
  shows "\<exists>h. handler ctx = Some h \<and> commandHandlers env (c_name command) = Some h \<and>
     (if loaded = None \<and> existingRoom h
      then processCommand env command uid w =
             (Inr (Rejected (Error (''Command \"'' @ c_name command
                @ ''\" only want's to get handled for an existing room. (''
                @ str_of (c_roomId command) @ '')''))),
              add_effect (GetRoomById (c_roomId command)) w)
      else loadRoom env ctx command w0 =
             (Fulfilled (ctx\<lparr>room := Some (roomOrEmpty loaded)\<rparr>),
              add_effect (GetRoomById (c_roomId command)) w)
         \<and> (\<forall>ro c u. CallPreCondition ro c u
                \<in> set (newEffects w (snd (processCommand env command uid w)))
              \<longrightarrow> ro = Some (roomOrEmpty loaded))
         \<and> (\<forall>r c. CallFn r c \<in> set (newEffects w (snd (processCommand env command uid w)))
              \<longrightarrow> r = roomOrEmpty loaded))"
proof -
  let ?job = "\<lparr>j_command = command, j_userId = uid\<rparr>"
  from upToGetCommandHandler_FulfilledD [OF stage2] obtain h where
    h: "w0 = w" "commandHandlers env (c_name command) = Some h"
       "ctx = (initialContext ?job)\<lparr>handler := Some h\<rparr>"
    by auto
  then have hc: "handler ctx = Some h" by simp
  note lr = loadRoom_eq [OF hc, of env command w0]
  show ?thesis
  proof (cases "loaded = None \<and> existingRoom h")
    case True
    with lr load h have
      "upToLoadRoom env ?job w = (Rejected (Error (''Command \"'' @ c_name command
                @ ''\" only want's to get handled for an existing room. (''
                @ str_of (c_roomId command) @ '')'')),
              add_effect (GetRoomById (c_roomId command)) w)"
      using upToLoadRoom_eq [OF stage2] by simp
    from upToLoadRoom_Rejected [OF this] True hc h show ?thesis
      by (simp add: processCommand_jobHandler)
  next
    case False
    let ?ctx3 = "ctx\<lparr>room := Some (roomOrEmpty loaded)\<rparr>"
    let ?w3 = "add_effect (GetRoomById (c_roomId command)) w"
    from False lr load h have l3: "loadRoom env ctx command w0 = (Fulfilled ?ctx3, ?w3)"
      by auto
    with upToLoadRoom_eq [OF stage2] have u3: "upToLoadRoom env ?job w = (Fulfilled ?ctx3, ?w3)"
      by simp
    obtain p w' where run: "jobHandler env ?job w = (p, w')"
      by (cases "jobHandler env ?job w")
    have "traces (roomArg (roomOrEmpty loaded)) ?w3 w'"
      by (rule jobHandler_after_loadRoom [OF u3 run]) simp
    moreover have "traces (roomArg (roomOrEmpty loaded)) w ?w3"
      by (rule traces_add_effect) (simp add: roomArg_def)
    ultimately have t: "traces (roomArg (roomOrEmpty loaded)) w w'"
      by (rule traces_trans [rotated])
    have w': "snd (processCommand env command uid w) = w'"
      using run by (simp add: processCommand_jobHandler)
    have "ro = Some (roomOrEmpty loaded)"
      if "CallPreCondition ro c u \<in> set (newEffects w w')" for ro c u
      using traces_newEffects [OF t that] by (simp add: roomArg_def)
    moreover have "r = roomOrEmpty loaded"
      if "CallFn r c \<in> set (newEffects w w')" for r c
      using traces_newEffects [OF t that] by (simp add: roomArg_def)
    ultimately show ?thesis using False hc h l3 w' by auto
  qed
qed


theorem loadRoom_missing_or_valid_witness:
  "processCommand exEnv exStale (Some ''u1'') exWorld =
     (Inr (Rejected (Error
        ''Command \"setUsername\" only want's to get handled for an existing room. (r9)'')),
      add_effect (GetRoomById (Some ''r9'')) exWorld)
   \<and> loadRoom exEnv ((initialContext \<lparr>j_command = exJoin, j_userId = None\<rparr>)
                          \<lparr>handler := Some exJoinRoom\<rparr>) exJoin exWorld =
     (Fulfilled ((initialContext \<lparr>j_command = exJoin, j_userId = None\<rparr>)
                   \<lparr>handler := Some exJoinRoom, room := Some Map.empty\<rparr>),
      add_effect (GetRoomById None) exWorld)
   \<and> loadRoom exEnv ((initialContext \<lparr>j_command = exSetUsername ''u1'',
                             j_userId = Some ''u1''\<rparr>)
                          \<lparr>handler := Some setUsername\<rparr>)
         (exSetUsername ''u1'') exWorld =
     (Fulfilled ((initialContext \<lparr>j_command = exSetUsername ''u1'', j_userId = Some ''u1''\<rparr>)
                   \<lparr>handler := Some setUsername, room := Some exRoom\<rparr>),
      add_effect (GetRoomById (Some ''r1'')) exWorld)"
  using loadRoom_missing_or_valid [OF ex_stage2_stale ex_load(2), of "Some ''u1''"]
    loadRoom_missing_or_valid [OF ex_stage2_join ex_load(1)]
    loadRoom_missing_or_valid [OF ex_stage2_setUsername ex_load(3), of "''u1''" "Some ''u1''"]
  by (simp add: setUsername_def exJoinRoom_def roomOrEmpty_def exSetUsername_def str_of_def
      exJoin_def exStale_def)


section \<open>Events are applied in the order declared\<close>

text \<open>
  C5. Let stages 1 to 5 have completed with context \<^verbatim>\<open>ctx\<close>, and let
  \<^verbatim>\<open>applyEvents\<close> return. Let \<open>r\<close> be the room of the context, which is the room the
  handler function was called with, and \<open>calls\<close> the \<^verbatim>\<open>applyEvent\<close> calls that
  returned while the handler function ran, in order. Then \<^verbatim>\<open>applyEvents\<close> calls exactly the event handlers of
  \<open>calls\<close>, in that order, each with its payload: the first on \<open>r\<close>, each later one on
  the room the one before it returned (\<open>outs\<close> are the rooms returned); and the room of
  the context is the last room returned afterwards.
\<close>

theorem events_applied_in_declared_order:
  assumes h5: "upToHandle env \<lparr>j_command = command, j_userId = uid\<rparr> w = (Fulfilled ctx, w5)"
    and a6: "applyEvents env ctx command w5 = (Inr ctx', w6)"
  shows "\<exists>h r calls outs.
       handler ctx = Some h \<and> room ctx = Some r
     \<and> performed env (fn h r command) = (calls, None)
     \<and> CallFn r command \<in> set (newEffects w w5)
     \<and> length outs = length calls
     \<and> newEffects w5 w6 =
          map (\<lambda>i. CallEventHandler (fst (calls ! i)) (Some ((r # outs) ! i)) (snd (calls ! i)))
            [0..<length calls]
     \<and> (\<forall>i<length calls. \<exists>eh. eventHandlers env (fst (calls ! i)) = Some eh
            \<and> eh (Some ((r # outs) ! i)) (snd (calls ! i)) = Inr (Room (outs ! i)))
     \<and> room ctx' = Some (last (r # outs))"
proof -
  let ?job = "\<lparr>j_command = command, j_userId = uid\<rparr>"
  from a6 have a6': "applyEvents env ctx (j_command ?job) w5 = (Inr ctx', w6)" by simp
  from applyEvents_after_handle [OF h5 a6'] obtain h r calls outs where
    f: "handler ctx = Some h" "room ctx = Some r" "performed env (fn h r command) = (calls, None)"
      "CallFn r command \<in> set (newEffects w w5)"
      "length outs = length calls"
      "outputs (map (deferredOf env) calls) (Some r) = Some outs"
      "\<forall>c \<in> set calls. eventHandlers env (fst c) \<noteq> None"
      "trace w6 = trace w5 @ map callOf (zip (map (deferredOf env) calls) (Some r # map Some outs))"
      "room ctx' = Some (last (r # outs))"
    by auto
  from f(8) have "newEffects w5 w6 =
      map callOf (zip (map (deferredOf env) calls) (Some r # map Some outs))"
    by (simp add: newEffects_def)
  with callOf_zip [OF f(5)] have n: "newEffects w5 w6 =
      map (\<lambda>i. CallEventHandler (fst (calls ! i)) (Some ((r # outs) ! i)) (snd (calls ! i)))
        [0..<length calls]"
    by simp
  have "\<forall>i<length calls. \<exists>eh. eventHandlers env (fst (calls ! i)) = Some eh
            \<and> eh (Some ((r # outs) ! i)) (snd (calls ! i)) = Inr (Room (outs ! i))"
    using outputs_deferredOf_nth [OF f(6) f(7)] by blast
  with f n show ?thesis by blast
qed


theorem events_applied_in_declared_order_witness:
  "\<exists>ctx w5 ctx' w6.
       upToHandle exEnv \<lparr>j_command = exJoin, j_userId = None\<rparr> exWorld = (Fulfilled ctx, w5)
     \<and> applyEvents exEnv ctx exJoin w5 = (Inr ctx', w6)
     \<and> newEffects w5 w6 =
          [CallEventHandler ''roomCreated'' (Some Map.empty) (c_payload exJoin),
           CallEventHandler ''joinedRoom'' (Some [''id'' \<mapsto> JStr ''r2'']) (c_payload exJoin)]
     \<and> room ctx' = Some [''id'' \<mapsto> JStr ''r2'',
                   ''joined'' \<mapsto> JObj [(''userId'', JStr ''u2''), (''in'', JStr ''r2'')]]"
proof -
  from events_applied_in_declared_order [OF ex_stage5_join ex_stage6_join]
  obtain calls outs where
    c: "performed exEnv (fn exJoinRoom Map.empty exJoin) = (calls, None)"
    and l: "length outs = length calls"
    and n: "newEffects (exWorld\<lparr>trace := [GetRoomById None, CallFn Map.empty exJoin]\<rparr>)
       (exWorld\<lparr>uuidCalls := 2,
          trace := [GetRoomById None, CallFn Map.empty exJoin,
                CallEventHandler ''roomCreated'' (Some Map.empty) (c_payload exJoin),
                CallEventHandler ''joinedRoom'' (Some [''id'' \<mapsto> JStr ''r2'']) (c_payload exJoin)]\<rparr>) =
       map (\<lambda>i. CallEventHandler (fst (calls ! i)) (Some ((Map.empty # outs) ! i)) (snd (calls ! i)))
            [0..<length calls]"
    and a: "\<forall>i<length calls. \<exists>eh. eventHandlers exEnv (fst (calls ! i)) = Some eh
            \<and> eh (Some ((Map.empty # outs) ! i)) (snd (calls ! i)) = Inr (Room (outs ! i))"
    and r: "Some [''id'' \<mapsto> JStr ''r2'',
                   ''joined'' \<mapsto> JObj [(''userId'', JStr ''u2''), (''in'', JStr ''r2'')]]
            = Some (last (Map.empty # outs))"
    by auto
  from c have calls: "calls = [(''roomCreated'', c_payload exJoin), (''joinedRoom'', c_payload exJoin)]"
    by (simp add: exJoinRoom_def ex_lookup)
  with l obtain o1 o2 where outs: "outs = [o1, o2]"
    by (auto simp: length_Suc_conv)
  from a calls outs have "exRoomCreated (Some Map.empty) (c_payload exJoin) = Inr (Room o1)"
    by (auto simp: exEnv_def plainObject_def exRegistered_def Object_prototype_def)
  then have o1: "o1 = [''id'' \<mapsto> JStr ''r2'']"
    by (simp add: exRoomCreated_def exJoin_def Map_set_def)
  from n calls outs o1 have
    "newEffects (exWorld\<lparr>trace := [GetRoomById None, CallFn Map.empty exJoin]\<rparr>)
       (exWorld\<lparr>uuidCalls := 2,
          trace := [GetRoomById None, CallFn Map.empty exJoin,
                CallEventHandler ''roomCreated'' (Some Map.empty) (c_payload exJoin),
                CallEventHandler ''joinedRoom'' (Some [''id'' \<mapsto> JStr ''r2'']) (c_payload exJoin)]\<rparr>) =
          [CallEventHandler ''roomCreated'' (Some Map.empty) (c_payload exJoin),
           CallEventHandler ''joinedRoom'' (Some [''id'' \<mapsto> JStr ''r2'']) (c_payload exJoin)]"
    by (simp add: upt_rec)
  with ex_stage5_join ex_stage6_join show ?thesis
    by (intro exI conjI) (assumption | simp)+
qed


section \<open>Preconditions\<close>




section \<open>Unknown events\<close>

text \<open>
  C7. A call of \<^verbatim>\<open>applyEvent\<close> throws the unknown-event error exactly when the lookup
  \<^verbatim>\<open>eventHandlers[eventName]\<close> finds nothing; on a registry that is a plain object
  that is a name which is neither registered nor the name of a member of
  \<^verbatim>\<open>Object.prototype\<close>. Let stages 1 to 4 have completed, and let the handler
  function end on a call of \<^verbatim>\<open>applyEvent\<close>, outside of any \<^verbatim>\<open>try\<close>, with a name
  \<open>n\<close> for which the lookup finds nothing. Then \<^verbatim>\<open>handle\<close> throws the unknown-event
  error for \<open>n\<close>, the command's promise rejects with it, the store is unchanged,
  \<^verbatim>\<open>saveRoom\<close> is not called and no event handler runs.
\<close>

theorem unknown_event_rejects:
  assumes pre: "upToPreConditions env \<lparr>j_command = command, j_userId = uid\<rparr> w = (Fulfilled ctx, w4)"
    and h: "handler ctx = Some h"
    and r: "room ctx = Some r"
    and ends: "uncaught env (fn h r command) = Some n"
  shows "(applyEvent env m p q = Inl (Error (''Cannot apply unknown event '' @ m)))
           = (eventHandlers env m = None)
     \<and> (plainObject own m = None)
           = (own m = None
              \<and> m \<notin> {''constructor'', ''toString'', ''toLocaleString'', ''valueOf'',
                      ''hasOwnProperty'', ''isPrototypeOf'', ''propertyIsEnumerable'',
                      ''__defineGetter__'', ''__defineSetter__'', ''__lookupGetter__'',
                      ''__lookupSetter__'', ''__proto__''})
     \<and> eventHandlers env n = None
     \<and> handle env ctx command w4 =
          (Inl (Error (''Cannot apply unknown event '' @ n)), add_effect (CallFn r command) w4)
     \<and> processCommand env command uid w =
          (Inr (Rejected (Error (''Cannot apply unknown event '' @ n))),
           add_effect (CallFn r command) w4)
     \<and> store (add_effect (CallFn r command) w4) = store w
     \<and> (\<forall>x. SaveRoom x \<notin> set (newEffects w (add_effect (CallFn r command) w4)))
     \<and> (\<forall>m x y. CallEventHandler m x y \<notin> set (newEffects w (add_effect (CallFn r command) w4)))"
proof -
  let ?job = "\<lparr>j_command = command, j_userId = uid\<rparr>"
  let ?w5 = "add_effect (CallFn r command) w4"
  let ?e = "Error (''Cannot apply unknown event '' @ n)"
  from uncaught_execute [OF ends, of "[]"] have
    unknown: "eventHandlers env n = None" and ex: "execute env (fn h r command) [] = Inl ?e"
    by simp_all
  have hd: "handle env ctx command w4 = (Inl ?e, ?w5)"
    using h r ex by (simp add: handle_def)
  then have u5: "upToHandle env ?job w = (Rejected ?e, ?w5)"
    using upToHandle_eq [OF pre] by simp
  from upToHandle_Rejected_job [OF this] have pcmd: "processCommand env command uid w =
     (Inr (Rejected ?e), ?w5)"
    by (simp add: processCommand_jobHandler)
  from upToHandle_adds [OF u5] have a: "adds beforeApply w ?w5" .
  have 1: "(applyEvent env m p q = Inl (Error (''Cannot apply unknown event '' @ m)))
           = (eventHandlers env m = None)"
    by (simp add: applyEvent_def split: option.splits)
  have 2: "(plainObject own m = None)
           = (own m = None
              \<and> m \<notin> {''constructor'', ''toString'', ''toLocaleString'', ''valueOf'',
                      ''hasOwnProperty'', ''isPrototypeOf'', ''propertyIsEnumerable'',
                      ''__defineGetter__'', ''__defineSetter__'', ''__lookupGetter__'',
                      ''__lookupSetter__'', ''__proto__''})"
    by (cases "own m") (simp_all add: plainObject_def Object_prototype_def)
  have 3: "store ?w5 = store w" using a by (rule adds_store)
  have 4: "\<forall>x. SaveRoom x \<notin> set (newEffects w ?w5)"
    using adds_newEffects [OF a] by (fastforce simp: beforeApply_def)
  have 5: "\<forall>m x y. CallEventHandler m x y \<notin> set (newEffects w ?w5)"
    using adds_newEffects [OF a] by (fastforce simp: beforeApply_def)
  from 1 2 unknown hd pcmd 3 4 5 show ?thesis by blast
qed

theorem unknown_event_rejects_witness:
  "applyEvent exEnv ''roomExploded'' JNull [] =
     Inl (Error ''Cannot apply unknown event roomExploded'')
   \<and> plainObject exRegistered ''roomExploded'' = None
   \<and> processCommand exEnv exBreak None exWorld =
     (Inr (Rejected (Error ''Cannot apply unknown event roomExploded'')),
      add_effect (CallFn Map.empty exBreak) (add_effect (GetRoomById None) exWorld))
   \<and> store (add_effect (CallFn Map.empty exBreak) (add_effect (GetRoomById None) exWorld))
       = store exWorld"
proof -
  have h: "handler ((initialContext \<lparr>j_command = exBreak, j_userId = None\<rparr>)
                   \<lparr>handler := Some exBroken, room := Some Map.empty\<rparr>) = Some exBroken"
    by simp
  have r: "room ((initialContext \<lparr>j_command = exBreak, j_userId = None\<rparr>)
                   \<lparr>handler := Some exBroken, room := Some Map.empty\<rparr>) = Some Map.empty"
    by simp
  have ends: "uncaught exEnv (fn exBroken Map.empty exBreak) = Some ''roomExploded''"
    by (simp add: exBroken_def ex_lookup)
  have own: "exRegistered ''roomExploded'' = None"
    by (simp add: exRegistered_def)
  from unknown_event_rejects [OF ex_stage4_break h r ends,
      of "''roomExploded''" JNull "[]" exRegistered] own ex_lookup(4)
  show ?thesis
    by simp
qed

text \<open>
  Two commands whose handler function applies an event for which no event handler is
  registered, and which are fulfilled and saved all the same. The first applies
  \<^verbatim>\<open>constructor\<close>: the lookup on the plain object finds \<^verbatim>\<open>Object\<close>, which hands the
  room back. The second applies \<^verbatim>\<open>roomExploded\<close>, for which the lookup finds nothing,
  inside \<^verbatim>\<open>try\<close>, and goes on after the exception.
\<close>

theorem unregistered_event_saved:
  "exRegistered ''constructor'' = None
   \<and> attempted exEnv (fn exViaConstructor exRoom exConstruct) = [''constructor'']
   \<and> fst (processCommand exEnv exConstruct (Some ''u1'') exWorld) =
       Inr (Fulfilled
         [\<lparr>evt_id = ''uuid-'', evt_userId = Some ''u1'', evt_correlationId = ''c7'',
           evt_name = ''constructor'', evt_roomId = JStr ''r1'', evt_payload = JObj []\<rparr>])
   \<and> savedRooms (trace (snd (processCommand exEnv exConstruct (Some ''u1'') exWorld))) =
       [exRoom(''lastActivity'' \<mapsto> JNum 1000)]
   \<and> store (snd (processCommand exEnv exConstruct (Some ''u1'') exWorld)) ''r1'' =
       Some (exRoom(''lastActivity'' \<mapsto> JNum 1000))
   \<and> exRegistered ''roomExploded'' = None
   \<and> eventHandlers exEnv ''roomExploded'' = None
   \<and> attempted exEnv (fn exTolerant Map.empty exTolerate) = [''roomExploded'', ''roomCreated'']
   \<and> fst (processCommand exEnv exTolerate None exWorld) =
       Inr (Fulfilled
         [\<lparr>evt_id = ''uuid-'', evt_userId = None, evt_correlationId = ''c6'',
           evt_name = ''roomCreated'', evt_roomId = JStr ''r2'',
           evt_payload = JObj [(''userId'', JStr ''u2''), (''roomId'', JStr ''r2'')]\<rparr>])
   \<and> store (snd (processCommand exEnv exTolerate None exWorld)) ''r2'' =
       Some [''id'' \<mapsto> JStr ''r2'', ''lastActivity'' \<mapsto> JNum 1000]"
  by (simp add: pipeline_defs example_defs Let_def exConstruct_def exViaConstructor_def
      exTolerate_def exTolerant_def exRoom_def)

section \<open>lastActivity\<close>

text \<open>
  C8. If the promise of a command is fulfilled, the run has called \<^verbatim>\<open>store.saveRoom\<close>
  once, as its last effect, with a room whose \<^verbatim>\<open>lastActivity\<close> is the value the clock
  gave when stage 7 read it, and the store has taken that room. Over any list of jobs
  handled one after the other, the \<^verbatim>\<open>lastActivity\<close> values of the rooms handed to
  \<^verbatim>\<open>store.saveRoom\<close> are, in order, the successive readings of the clock, whatever
  these are: nothing compares a reading with the \<^verbatim>\<open>lastActivity\<close> the room had. (The
  rooms saved for one aggregate are a subsequence of these.)
\<close>

theorem lastActivity_stamped:
  "(\<forall>evs w'. processCommand env command uid w = (Inr (Fulfilled evs), w') \<longrightarrow>
      (\<exists>r. savedRooms (newEffects w w') = [r]
        \<and> last (trace w') = SaveRoom r
        \<and> Map_get r ''lastActivity'' = JNum (getTime env (getTimeCalls w))
        \<and> saveRoom env (store w) r = Inr (store w')
        \<and> getTimeCalls w' = Suc (getTimeCalls w)))
   \<and> (\<forall>ps w'. runJobs env jobs w = (ps, w') \<longrightarrow>
        map (\<lambda>r. Map_get r ''lastActivity'') (savedRooms (newEffects w w')) =
          map (\<lambda>k. JNum (getTime env k)) [getTimeCalls w..<getTimeCalls w'])"
proof -
  let ?job = "\<lparr>j_command = command, j_userId = uid\<rparr>"
  have 1: "\<exists>r. savedRooms (newEffects w w') = [r]
        \<and> last (trace w') = SaveRoom r
        \<and> Map_get r ''lastActivity'' = JNum (getTime env (getTimeCalls w))
        \<and> saveRoom env (store w) r = Inr (store w')
        \<and> getTimeCalls w' = Suc (getTimeCalls w)"
    if "processCommand env command uid w = (Inr (Fulfilled evs), w')" for evs w'
  proof -
    from that have "jobHandler env ?job w = (Fulfilled evs, w')"
      by (simp add: processCommand_jobHandler prod_eq_iff)
    from jobHandler_FulfilledD [OF this] obtain ctx6 w6 ctx7 where
      u6: "upToApplyEvents env ?job w = (Fulfilled ctx6, w6)"
      and s7: "saveRoomBackToStore env ctx6 w6 = (Fulfilled ctx7, w')"
      by blast
    from upToApplyEvents_adds [OF u6] obtain ts6 where
      t6: "trace w6 = trace w @ ts6" "\<forall>x \<in> set ts6. \<not> isSaveRoom x"
        "getTimeCalls w6 = getTimeCalls w" "store w6 = store w"
      by (auto simp: adds_def)
    from saveRoomBackToStore_Fulfilled [OF s7] obtain r0 where
      r0: "saveRoom env (store w6) (Map_set r0 ''lastActivity'' (JNum (getTime env (getTimeCalls w6))))
          = Inr (store w')"
        "trace w' = trace w6 @ [SaveRoom (Map_set r0 ''lastActivity'' (JNum (getTime env (getTimeCalls w6))))]"
        "getTimeCalls w' = Suc (getTimeCalls w6)"
      by blast
    let ?r = "Map_set r0 ''lastActivity'' (JNum (getTime env (getTimeCalls w)))"
    from t6 r0 have "savedRooms (newEffects w w') = [?r]"
      by (simp add: newEffects_def savedRooms_append savedRooms_none)
    moreover from t6 r0 have "last (trace w') = SaveRoom ?r" by simp
    moreover have "Map_get ?r ''lastActivity'' = JNum (getTime env (getTimeCalls w))"
      by (simp add: Map_get_def Map_set_def)
    moreover from t6 r0 have "saveRoom env (store w) ?r = Inr (store w')" by simp
    moreover from t6 r0 have "getTimeCalls w' = Suc (getTimeCalls w)" by simp
    ultimately show ?thesis by blast
  qed
  have 2: "map (\<lambda>r. Map_get r ''lastActivity'') (savedRooms (newEffects w w')) =
          map (\<lambda>k. JNum (getTime env k)) [getTimeCalls w..<getTimeCalls w']"
    if "runJobs env jobs w = (ps, w')" for ps w'
    using runJobs_saves [OF that] by (auto simp: newEffects_def)
  from 1 2 show ?thesis by blast
qed


theorem lastActivity_stamped_witness:
  "\<exists>evs w1 ps w2.
      processCommand exEnv exJoin None exWorld = (Inr (Fulfilled evs), w1)
    \<and> map (\<lambda>r. Map_get r ''lastActivity'') (savedRooms (newEffects exWorld w1)) = [JNum 1000]
    \<and> runJobs exEnv [\<lparr>j_command = exJoin, j_userId = None\<rparr>,
                       \<lparr>j_command = exSetUsername ''u1'', j_userId = Some ''u1''\<rparr>] exWorld
        = (ps, w2)
    \<and> map (\<lambda>r. Map_get r ''lastActivity'') (savedRooms (newEffects exWorld w2))
        = [JNum 1000, JNum 1001]"
proof -
  let ?jobs = "[\<lparr>j_command = exJoin, j_userId = None\<rparr>,
                \<lparr>j_command = exSetUsername ''u1'', j_userId = Some ''u1''\<rparr>]"
  obtain ps w2 where run: "runJobs exEnv ?jobs exWorld = (ps, w2)"
    by (cases "runJobs exEnv ?jobs exWorld")
  have "jobHandler exEnv \<lparr>j_command = exJoin, j_userId = None\<rparr> exWorld
      = (projr (fst (processCommand exEnv exJoin None exWorld)),
         snd (processCommand exEnv exJoin None exWorld))"
    by (simp add: processCommand_jobHandler)
  with run have "getTimeCalls w2 = 2"
    by (auto simp: ex_join_run ex_setUsername_after_join)
  moreover have "getTimeCalls exWorld = 0"
    by (simp add: exWorld_def)
  ultimately have g: "getTimeCalls w2 = 2" "getTimeCalls exWorld = 0" .
  from lastActivity_stamped [of exEnv exJoin None exWorld ?jobs] run
  have a: "map (\<lambda>r. Map_get r ''lastActivity'') (savedRooms (newEffects exWorld w2)) =
          map (\<lambda>k. JNum (getTime exEnv k)) [getTimeCalls exWorld..<getTimeCalls w2]"
    by blast
  from a g have a': "map (\<lambda>r. Map_get r ''lastActivity'') (savedRooms (newEffects exWorld w2))
        = [JNum 1000, JNum 1001]"
    by (simp add: exEnv_def plainObject_def exRegistered_def Object_prototype_def upt_rec)
  obtain evs w1 where r1: "processCommand exEnv exJoin None exWorld = (Inr (Fulfilled evs), w1)"
    using ex_join_run by blast
  from lastActivity_stamped [of exEnv exJoin None exWorld ?jobs] r1
  obtain r where "savedRooms (newEffects exWorld w1) = [r]"
    and "Map_get r ''lastActivity'' = JNum (getTime exEnv (getTimeCalls exWorld))"
    by blast
  with g have c: "map (\<lambda>r. Map_get r ''lastActivity'') (savedRooms (newEffects exWorld w1))
      = [JNum 1000]"
    by (simp add: exEnv_def plainObject_def exRegistered_def Object_prototype_def)
  from r1 c run a' show ?thesis
    by (intro exI [of _ evs] exI [of _ w1] exI [of _ ps] exI [of _ w2] conjI)
qed

text \<open>
  Two commands on the room \<^verbatim>\<open>r1\<close>, handled one after the other while the clock is set
  back between them: both are fulfilled, and the room is saved with \<^verbatim>\<open>lastActivity\<close>
  1000 first and 999 after, which is what the store holds in the end.
\<close>

theorem lastActivity_decreases:
  "fst (runJobs exEnvClockSetBack
          [\<lparr>j_command = exSetUsername ''u1'', j_userId = Some ''u1''\<rparr>,
           \<lparr>j_command = exSetUsername ''u1'', j_userId = Some ''u1''\<rparr>] exWorld) =
     [Fulfilled
        [\<lparr>evt_id = ''uuid-'', evt_userId = Some ''u1'', evt_correlationId = ''c1'',
          evt_name = ''usernameSet'', evt_roomId = JStr ''r1'',
          evt_payload = JObj [(''userId'', JStr ''u1''), (''username'', JStr ''new'')]\<rparr>],
      Fulfilled
        [\<lparr>evt_id = ''uuid-i'', evt_userId = Some ''u1'', evt_correlationId = ''c1'',
          evt_name = ''usernameSet'', evt_roomId = JStr ''r1'',
          evt_payload = JObj [(''userId'', JStr ''u1''), (''username'', JStr ''new'')]\<rparr>]]
   \<and> map (valueAt ''id'')
        (savedRooms (trace (snd (runJobs exEnvClockSetBack
          [\<lparr>j_command = exSetUsername ''u1'', j_userId = Some ''u1''\<rparr>,
           \<lparr>j_command = exSetUsername ''u1'', j_userId = Some ''u1''\<rparr>] exWorld)))) =
       [JStr ''r1'', JStr ''r1'']
   \<and> map (valueAt ''lastActivity'')
        (savedRooms (trace (snd (runJobs exEnvClockSetBack
          [\<lparr>j_command = exSetUsername ''u1'', j_userId = Some ''u1''\<rparr>,
           \<lparr>j_command = exSetUsername ''u1'', j_userId = Some ''u1''\<rparr>] exWorld)))) =
       [JNum 1000, JNum 999]
   \<and> store (snd (runJobs exEnvClockSetBack
          [\<lparr>j_command = exSetUsername ''u1'', j_userId = Some ''u1''\<rparr>,
           \<lparr>j_command = exSetUsername ''u1'', j_userId = Some ''u1''\<rparr>] exWorld)) ''r1'' =
       Some [''id'' \<mapsto> JStr ''r1'', ''username'' \<mapsto> JStr ''new'',
             ''lastActivity'' \<mapsto> JNum 999]"
  by (simp add: pipeline_defs example_defs Let_def exEnvClockSetBack_def exRoom_def valueAt_def)

section \<open>Someone else joined\<close>

lemma setEntry_map_of:
  "map_of (setEntry k v kvs) = (map_of kvs)(k \<mapsto> v)"
  by (induction kvs) (auto simp: fun_eq_iff)

lemma setEntry_keys:
  "map fst (setEntry k v kvs) = (if k \<in> fst ` set kvs then map fst kvs else map fst kvs @ [k])"
  by (induction kvs) force+

lemma you_joined:
  "joinedRoomReducer youJoinedState youJoinedEvent =
     [''roomId'' \<mapsto> JStr ''myRoom'',
      ''waitingForJoin'' \<mapsto> JBool True,
      ''userId'' \<mapsto> JStr ''myUserId'',
      ''selectedStory'' \<mapsto> JStr ''storyOne'',
      ''users'' \<mapsto> JObj [(''myUserId'', JObj [])],
      ''stories'' \<mapsto> JObj [(''storyOne'', JObj [])]]"
  by (simp add: joinedRoomReducer_def youJoinedState_def youJoinedEvent_def Map_get_def
      fun_eq_iff)

text \<open>
  C9. Let a client state know its own user id and hold a map of users, and let a
  \<^verbatim>\<open>joinedRoom\<close> event come in for the user \<open>j\<close>. The reducer yields the state with
  one change, in \<^verbatim>\<open>users\<close>: \<open>j\<close> has the entry the payload holds for \<open>j\<close>, put where
  \<open>j\<close> stood, or at the end if \<open>j\<close> is new; every other user has the entry it had,
  and every other field of the state is what it was. On the state and the event of the
  scenario ``someone else joined'' the users become
  \<^verbatim>\<open>{myUserId: {username: "tester1"}, theNewUser: {}}\<close>, with \<^verbatim>\<open>userId\<close> and
  \<^verbatim>\<open>roomId\<close> as before.
\<close>

theorem someone_else_joined:
  assumes own: "truthy (Map_get state ''userId'')"
    and users: "Map_get state ''users'' = JObj users"
    and j: "j = p_userId (ev_payload event)"
    and entry: "entry = getProp (JObj (p_users (ev_payload event))) j"
  shows "joinedRoomReducer state event = state(''users'' \<mapsto> JObj (setEntry j entry users))
     \<and> map_of (setEntry j entry users) j = Some entry
     \<and> (\<forall>k. k \<noteq> j \<longrightarrow> map_of (setEntry j entry users) k = map_of users k)
     \<and> map fst (setEntry j entry users) =
          (if j \<in> fst ` set users then map fst users else map fst users @ [j])
     \<and> (\<forall>field. field \<noteq> ''users'' \<longrightarrow> joinedRoomReducer state event field = state field)"
proof -
  have 1: "joinedRoomReducer state event = state(''users'' \<mapsto> JObj (setEntry j entry users))"
    using own users j entry by (simp add: joinedRoomReducer_def Map_set_def Let_def)
  have 2: "map_of (setEntry j entry users) j = Some entry"
    by (simp add: setEntry_map_of)
  have 3: "\<forall>k. k \<noteq> j \<longrightarrow> map_of (setEntry j entry users) k = map_of users k"
    by (simp add: setEntry_map_of)
  have 4: "map fst (setEntry j entry users) =
          (if j \<in> fst ` set users then map fst users else map fst users @ [j])"
    by (rule setEntry_keys)
  have 5: "\<forall>field. field \<noteq> ''users'' \<longrightarrow> joinedRoomReducer state event field = state field"
    by (simp add: 1)
  from 1 2 3 4 5 show ?thesis by blast
qed

theorem someone_else_joined_witness:
  "joinedRoomReducer someoneElseJoinedState someoneElseJoinedEvent =
     [''userId'' \<mapsto> JStr ''myUserId'',
      ''roomId'' \<mapsto> JStr ''ourRoom'',
      ''users'' \<mapsto> JObj [(''myUserId'', JObj [(''username'', JStr ''tester1'')]),
                          (''theNewUser'', JObj [])]]
   \<and> Map_get (joinedRoomReducer someoneElseJoinedState someoneElseJoinedEvent) ''users'' =
       JObj [(''myUserId'', JObj [(''username'', JStr ''tester1'')]), (''theNewUser'', JObj [])]
   \<and> Map_get (joinedRoomReducer someoneElseJoinedState someoneElseJoinedEvent) ''userId'' =
       JStr ''myUserId''
   \<and> Map_get (joinedRoomReducer someoneElseJoinedState someoneElseJoinedEvent) ''roomId'' =
       JStr ''ourRoom''"
proof -
  have own: "truthy (Map_get someoneElseJoinedState ''userId'')"
    by (simp add: someoneElseJoinedState_def Map_get_def)
  have users: "Map_get someoneElseJoinedState ''users'' =
      JObj [(''myUserId'', JObj [(''username'', JStr ''tester1'')])]"
    by (simp add: someoneElseJoinedState_def Map_get_def)
  have j: "''theNewUser'' = p_userId (ev_payload someoneElseJoinedEvent)"
    by (simp add: someoneElseJoinedEvent_def)
  have entry: "JObj [] = getProp (JObj (p_users (ev_payload someoneElseJoinedEvent))) ''theNewUser''"
    by (simp add: someoneElseJoinedEvent_def)
  from someone_else_joined [OF own users j entry]
  have "joinedRoomReducer someoneElseJoinedState someoneElseJoinedEvent =
      someoneElseJoinedState(''users'' \<mapsto>
        JObj (setEntry ''theNewUser'' (JObj []) [(''myUserId'', JObj [(''username'', JStr ''tester1'')])]))"
    by blast
  then show ?thesis
    by (simp add: someoneElseJoinedState_def Map_get_def fun_eq_iff)
qed

section \<open>processCommand returns a promise\<close>

text \<open>
  C10. \<^verbatim>\<open>processCommand\<close> never throws: it returns a promise. If the schema validator
  throws, \<^verbatim>\<open>validate\<close> returns a rejected promise and the promise of
  \<^verbatim>\<open>processCommand\<close> rejects with what the validator threw. The same holds for what
  \<^verbatim>\<open>getCommandHandler\<close>, \<^verbatim>\<open>preConditions\<close>, \<^verbatim>\<open>handle\<close>, \<^verbatim>\<open>applyEvents\<close> and the
  synchronous part of \<^verbatim>\<open>saveRoomBackToStore\<close> throw when the chain calls them.
\<close>

theorem processCommand_never_throws:
  "(\<exists>p w'. processCommand env command uid w = (Inr p, w'))
   \<and> (\<forall>e. commandSchemaValidator env command = Some e \<longrightarrow>
          validate env command w = (Rejected e, w)
        \<and> processCommand env command uid w = (Inr (Rejected e), w))
   \<and> (\<forall>e w2. commandSchemaValidator env command = None
          \<and> getCommandHandler env (initialContext \<lparr>j_command = command, j_userId = uid\<rparr>)
               command w = (Inl e, w2) \<longrightarrow>
          processCommand env command uid w = (Inr (Rejected e), w2))
   \<and> (\<forall>ctx w3 e w4.
          upToLoadRoom env \<lparr>j_command = command, j_userId = uid\<rparr> w = (Fulfilled ctx, w3)
          \<and> preConditions ctx command w3 = (Inl e, w4) \<longrightarrow>
          processCommand env command uid w = (Inr (Rejected e), w4))
   \<and> (\<forall>ctx w4 e w5.
          upToPreConditions env \<lparr>j_command = command, j_userId = uid\<rparr> w = (Fulfilled ctx, w4)
          \<and> handle env ctx command w4 = (Inl e, w5) \<longrightarrow>
          processCommand env command uid w = (Inr (Rejected e), w5))
   \<and> (\<forall>ctx w5 e w6.
          upToHandle env \<lparr>j_command = command, j_userId = uid\<rparr> w = (Fulfilled ctx, w5)
          \<and> applyEvents env ctx command w5 = (Inl e, w6) \<longrightarrow>
          processCommand env command uid w = (Inr (Rejected e), w6))
   \<and> (\<forall>ctx w6 e w7.
          upToApplyEvents env \<lparr>j_command = command, j_userId = uid\<rparr> w = (Fulfilled ctx, w6)
          \<and> stampRoom env ctx w6 = (Inl e, w7) \<longrightarrow>
          processCommand env command uid w = (Inr (Rejected e), w7))"
proof -
  let ?job = "\<lparr>j_command = command, j_userId = uid\<rparr>"
  have 1: "\<exists>p w'. processCommand env command uid w = (Inr p, w')"
    by (simp add: processCommand_jobHandler)
  have 2: "validate env command w = (Rejected e, w)
        \<and> processCommand env command uid w = (Inr (Rejected e), w)"
    if "commandSchemaValidator env command = Some e" for e
  proof -
    from that have v: "validate env command w = (Rejected e, w)"
      by (simp add: validate_def new_Promise_def)
    from that have "upToGetCommandHandler env ?job w = (Rejected e, w)"
      by (simp add: upToGetCommandHandler_eq)
    then have "upToLoadRoom env ?job w = (Rejected e, w)"
      by (simp add: upToLoadRoom_def then_promise_Rejected)
    from upToLoadRoom_Rejected [OF this] v show ?thesis
      by (simp add: processCommand_jobHandler)
  qed
  have 3: "processCommand env command uid w = (Inr (Rejected e), w2)"
    if "commandSchemaValidator env command = None"
      and "getCommandHandler env (initialContext ?job) command w = (Inl e, w2)" for e w2
  proof -
    from that have "upToGetCommandHandler env ?job w = (Rejected e, w2)"
      by (simp add: upToGetCommandHandler_def then_call_def validate_def new_Promise_def)
    then have "upToLoadRoom env ?job w = (Rejected e, w2)"
      by (simp add: upToLoadRoom_def then_promise_Rejected)
    from upToLoadRoom_Rejected [OF this] show ?thesis
      by (simp add: processCommand_jobHandler)
  qed
  have 4: "processCommand env command uid w = (Inr (Rejected e), w4)"
    if "upToLoadRoom env ?job w = (Fulfilled ctx, w3)"
      and "preConditions ctx command w3 = (Inl e, w4)" for ctx w3 e w4
  proof -
    from that have "upToPreConditions env ?job w = (Rejected e, w4)"
      by (simp add: upToPreConditions_eq)
    from upToPreConditions_Rejected [OF this] show ?thesis
      by (simp add: processCommand_jobHandler)
  qed
  have 5: "processCommand env command uid w = (Inr (Rejected e), w5)"
    if "upToPreConditions env ?job w = (Fulfilled ctx, w4)"
      and "handle env ctx command w4 = (Inl e, w5)" for ctx w4 e w5
  proof -
    from that have "upToHandle env ?job w = (Rejected e, w5)"
      by (simp add: upToHandle_eq)
    from upToHandle_Rejected_job [OF this] show ?thesis
      by (simp add: processCommand_jobHandler)
  qed
  have 6: "processCommand env command uid w = (Inr (Rejected e), w6)"
    if "upToHandle env ?job w = (Fulfilled ctx, w5)"
      and "applyEvents env ctx command w5 = (Inl e, w6)" for ctx w5 e w6
  proof -
    from that have "upToApplyEvents env ?job w = (Rejected e, w6)"
      by (simp add: upToApplyEvents_def then_call_Fulfilled)
    from upToApplyEvents_Rejected [OF this] show ?thesis
      by (simp add: processCommand_jobHandler)
  qed
  have 7: "processCommand env command uid w = (Inr (Rejected e), w7)"
    if "upToApplyEvents env ?job w = (Fulfilled ctx, w6)"
      and "stampRoom env ctx w6 = (Inl e, w7)" for ctx w6 e w7
  proof -
    from that have "jobHandler env ?job w = (Rejected e, w7)"
      by (simp add: jobHandler_stages then_call_def then_promise_def saveRoomBackToStore_def)
    then show ?thesis
      by (simp add: processCommand_jobHandler)
  qed
  from 1 2 3 4 5 6 7 show ?thesis by blast
qed

theorem processCommand_never_throws_witness:
  "processCommand exEnv exEmptyName None exWorld =
     (Inr (Rejected (Error ''Command validation Error'')), exWorld)
   \<and> processCommand exEnv exBreak None exWorld =
     (Inr (Rejected (Error ''Cannot apply unknown event roomExploded'')),
      add_effect (CallFn Map.empty exBreak) (add_effect (GetRoomById None) exWorld))"
proof -
  from processCommand_never_throws [of exEnv exEmptyName None exWorld]
  have "\<forall>e. commandSchemaValidator exEnv exEmptyName = Some e \<longrightarrow>
          processCommand exEnv exEmptyName None exWorld = (Inr (Rejected e), exWorld)"
    by simp
  with ex_empty_name have a: "processCommand exEnv exEmptyName None exWorld =
     (Inr (Rejected (Error ''Command validation Error'')), exWorld)"
    by simp
  from processCommand_never_throws [of exEnv exBreak None exWorld]
  have "\<forall>ctx w4 e w5.
          upToPreConditions exEnv \<lparr>j_command = exBreak, j_userId = None\<rparr> exWorld = (Fulfilled ctx, w4)
          \<and> handle exEnv ctx exBreak w4 = (Inl e, w5) \<longrightarrow>
          processCommand exEnv exBreak None exWorld = (Inr (Rejected e), w5)"
    by (elim conjE)
  from this [rule_format, OF conjI, OF ex_stage4_break ex_break_handle] a
  show ?thesis by simp
qed


section \<open>Commands run one at a time, in the order submitted\<close>

text \<open>
  C1. Take any sequence of steps from an idle queue: calls of \<^verbatim>\<open>processCommand\<close>
  pushing jobs, the queue invoking the handler, pieces of handler invocations running, in
  any order possible. Afterwards at most one handler invocation is in flight. The history
  is begin and end of job 0, begin and end of job 1, and so on in the order of the
  pushes, possibly with one last begin: a job's pipeline ends, by success or by error,
  before the next one's begins. The jobs settled are the first \<open>n\<close> pushed, and they
  have settled as the job handler settles them when run one after the other, each from
  the world that all jobs before it have left. When no invocation is in flight the
  world, store included, is the one these runs leave; and finishing the invocation in
  flight from where it stands gives exactly what the job handler gives when run on the
  world that the jobs before it have left: it loads what they have saved.
\<close>

theorem commands_run_one_at_a_time:
  assumes "run env ls (idle w0) = Some sys"
  shows "length (running sys) \<le> 1
     \<and> history sys = concat (map (\<lambda>t. [Begin t, End t]) [0..<length (settled sys)])
            @ (if running sys = [] then [] else [Begin (length (settled sys))])
     \<and> length (settled sys) \<le> length (pushedJobs ls)
     \<and> settled sys = zip [0..<length (settled sys)]
          (fst (runJobs env (take (length (settled sys)) (pushedJobs ls)) w0))
     \<and> (running sys = [] \<longrightarrow>
          sys_world sys = snd (runJobs env (take (length (settled sys)) (pushedJobs ls)) w0))
     \<and> (\<forall>t j ph. running sys = [(t, j, ph)] \<longrightarrow>
          t = length (settled sys) \<and> j = pushedJobs ls ! t
          \<and> finish env (j_command j) ph (sys_world sys) =
              jobHandler env j (snd (runJobs env (take t (pushedJobs ls)) w0)))"
proof -
  from serialized_run [OF serialized_idle assms]
  have inv: "serialized env w0 (pushedJobs ls) sys" by simp
  have one: "running sys = [] \<or> (\<exists>j ph. running sys = [(length (settled sys), j, ph)]
       \<and> j = pushedJobs ls ! length (settled sys)
       \<and> finish env (j_command j) ph (sys_world sys)
           = jobHandler env j
               (snd (runJobs env (take (length (settled sys)) (pushedJobs ls)) w0)))"
  proof (cases "running sys")
    case Nil
    then show ?thesis by simp
  next
    case (Cons x xs)
    then have "0 < length (running sys)" by simp
    from serialized_running [OF inv this] show ?thesis by blast
  qed
  then have "length (running sys) \<le> 1" by auto
  moreover from inv have "length (settled sys) \<le> length (pushedJobs ls)"
    by (simp add: serialized_def Let_def)
  moreover from inv have "running sys = [] \<longrightarrow>
      sys_world sys = snd (runJobs env (take (length (settled sys)) (pushedJobs ls)) w0)"
    by (auto simp: serialized_def Let_def)
  moreover from one have "\<forall>t j ph. running sys = [(t, j, ph)] \<longrightarrow>
          t = length (settled sys) \<and> j = pushedJobs ls ! t
          \<and> finish env (j_command j) ph (sys_world sys) =
              jobHandler env j (snd (runJobs env (take t (pushedJobs ls)) w0))"
    by auto
  moreover from inv have "history sys = concat (map (\<lambda>t. [Begin t, End t]) [0..<length (settled sys)])
            @ (if running sys = [] then [] else [Begin (length (settled sys))])"
    and "settled sys = zip [0..<length (settled sys)]
          (fst (runJobs env (take (length (settled sys)) (pushedJobs ls)) w0))"
    by (simp_all add: serialized_def Let_def)
  ultimately show ?thesis by blast
qed


theorem commands_run_one_at_a_time_witness:
  "\<exists>sys. run exEnv exSteps (idle exWorld) = Some sys
     \<and> pushedJobs exSteps = [exJobA, exJobB]
     \<and> running sys = []
     \<and> history sys = [Begin 0, End 0, Begin 1, End 1]
     \<and> map snd (settled sys) = fst (runJobs exEnv [exJobA, exJobB] exWorld)
     \<and> sys_world sys = snd (runJobs exEnv [exJobA, exJobB] exWorld)
     \<and> (\<exists>r. store (sys_world sys) ''r1'' = Some r
          \<and> Map_get r ''username'' = JStr ''new''
          \<and> Map_get r ''joined'' = JObj [(''userId'', JStr ''u2''), (''in'', JStr ''r1'')])"
proof -
  from ex_run obtain sys where
    r: "run exEnv exSteps (idle exWorld) = Some sys"
    and idle: "running sys = []" and n: "length (settled sys) = 2"
    and s: "\<exists>r. store (sys_world sys) ''r1'' = Some r
          \<and> Map_get r ''username'' = JStr ''new''
          \<and> Map_get r ''joined'' = JObj [(''userId'', JStr ''u2''), (''in'', JStr ''r1'')]"
    by blast
  have p: "pushedJobs exSteps = [exJobA, exJobB]"
    by (simp add: exSteps_def)
  from commands_run_one_at_a_time [OF r] idle n p have
    h: "history sys = concat (map (\<lambda>t. [Begin t, End t]) [0..<2])"
    and st: "settled sys = zip [0..<2] (fst (runJobs exEnv [exJobA, exJobB] exWorld))"
    and w: "sys_world sys = snd (runJobs exEnv [exJobA, exJobB] exWorld)"
    by simp_all
  from h have h': "history sys = [Begin 0, End 0, Begin 1, End 1]"
    by (simp add: upt_rec)
  from st have "map snd (settled sys) = fst (runJobs exEnv [exJobA, exJobB] exWorld)"
    using runJobs_length [of exEnv "[exJobA, exJobB]" exWorld]
    by (simp add: map_snd_zip)
  with r p idle h' w s show ?thesis by blast
qed


end
